(* ===== verification/Aether_Prelude.thy ===== *)
theory Aether_Prelude
  imports Main "HOL-Library.Word"
begin

text \<open>
  Shared vocabulary of the development.  It fixes how Rust's machine integers, arrays,
  panics and allocator contracts appear in the model:
  \<^item> \<open>u8\<close> .. \<open>u64\<close> and \<open>usize\<close> (the target of \<^verbatim>\<open>config/target/x86_64-aetheros.json\<close> has
    64-bit pointers) are words of their width;
  \<^item> the kernel is built with the development profile (\<^verbatim>\<open>xtask\<close> runs \<^verbatim>\<open>cargo build\<close> and looks
    for the binary under \<^verbatim>\<open>debug\<close>), so \<open>+\<close>, \<open>-\<close>, array indexing and slicing panic out of
    range, and \<^verbatim>\<open>panic = abort\<close> means a panic ends the execution: every operation that can panic
    returns a value of \<open>panic + 'a\<close>, with \<open>Inl\<close> for the panic;
  \<^item> indices and lengths of fixed-size arrays are \<open>nat\<close>, addresses, counters and identifiers are
    words.
  It also states the contracts several components share as locales.
\<close>

section \<open>Machine integers and panics\<close>

type_synonym u8 = "8 word"
type_synonym u16 = "16 word"
type_synonym u32 = "32 word"
type_synonym u64 = "64 word"
type_synonym usize = "64 word"

datatype panic =
    ArithmeticOverflow
  | DivisionByZero
  | IndexOutOfBounds
  | SliceMismatch
  | ExpectFailed string
  | LibraryPanic string

type_synonym 'a res = "panic + 'a"

text \<open>Sequencing: the first panic ends the computation.\<close>

definition rbind :: "'e + 'a \<Rightarrow> ('a \<Rightarrow> 'e + 'b) \<Rightarrow> 'e + 'b" where
  "rbind m f = (case m of Inl e \<Rightarrow> Inl e | Inr x \<Rightarrow> f x)"

text \<open>Checked, saturating and wrapping arithmetic of \<^verbatim>\<open>core::num\<close>.\<close>

definition add_chk :: "'a::len word \<Rightarrow> 'a word \<Rightarrow> 'a word res" where
  "add_chk a b =
     (if unat a + unat b < 2 ^ LENGTH('a) then Inr (a + b) else Inl ArithmeticOverflow)"

definition sub_chk :: "'a::len word \<Rightarrow> 'a word \<Rightarrow> 'a word res" where
  "sub_chk a b = (if b \<le> a then Inr (a - b) else Inl ArithmeticOverflow)"

definition mul_chk :: "'a::len word \<Rightarrow> 'a word \<Rightarrow> 'a word res" where
  "mul_chk a b =
     (if unat a * unat b < 2 ^ LENGTH('a) then Inr (a * b) else Inl ArithmeticOverflow)"

definition checked_add :: "'a::len word \<Rightarrow> 'a word \<Rightarrow> 'a word option" where
  "checked_add a b = (if unat a + unat b < 2 ^ LENGTH('a) then Some (a + b) else None)"

definition saturating_add :: "'a::len word \<Rightarrow> 'a word \<Rightarrow> 'a word" where
  "saturating_add a b = (if unat a + unat b < 2 ^ LENGTH('a) then a + b else - 1)"

definition saturating_sub :: "'a::len word \<Rightarrow> 'a word \<Rightarrow> 'a word" where
  "saturating_sub a b = (if b \<le> a then a - b else 0)"

definition saturating_mul :: "'a::len word \<Rightarrow> 'a word \<Rightarrow> 'a word" where
  "saturating_mul a b = (if unat a * unat b < 2 ^ LENGTH('a) then a * b else - 1)"

text \<open>Fixed-size arrays: indexing, indexed assignment, \<open>&a[..n]\<close> and
  \<open>a[..s.len()].copy_from_slice(s)\<close>.\<close>

definition index_chk :: "'a list \<Rightarrow> nat \<Rightarrow> 'a res" where
  "index_chk xs i = (if i < length xs then Inr (xs ! i) else Inl IndexOutOfBounds)"

definition update_chk :: "'a list \<Rightarrow> nat \<Rightarrow> 'a \<Rightarrow> 'a list res" where
  "update_chk xs i v = (if i < length xs then Inr (xs[i := v]) else Inl IndexOutOfBounds)"

definition slice_to :: "'a list \<Rightarrow> nat \<Rightarrow> 'a list res" where
  "slice_to xs n = (if n \<le> length xs then Inr (take n xs) else Inl IndexOutOfBounds)"

definition copy_prefix :: "'a list \<Rightarrow> 'a list \<Rightarrow> 'a list res" where
  "copy_prefix dst src =
     (if length src \<le> length dst then Inr (src @ drop (length src) dst)
      else Inl IndexOutOfBounds)"

text \<open>Iterator's \<open>find\<close>: the position of the first element that satisfies the predicate.\<close>

fun find_index :: "('a \<Rightarrow> bool) \<Rightarrow> 'a list \<Rightarrow> nat option" where
  "find_index P [] = None"
| "find_index P (x # xs) = (if P x then Some 0 else map_option Suc (find_index P xs))"

text \<open>A loop whose body yields a list of effects or panics, and a sequence of such computations.\<close>

fun for_each :: "('a \<Rightarrow> 'b list res) \<Rightarrow> 'a list \<Rightarrow> 'b list res" where
  "for_each f [] = Inr []"
| "for_each f (x # xs) = rbind (f x) (\<lambda>a. rbind (for_each f xs) (\<lambda>b. Inr (a @ b)))"

definition in_order :: "'b list res list \<Rightarrow> 'b list res" where
  "in_order ms = for_each (\<lambda>m. m) ms"

text \<open>A run of several requests against a stateful allocator.\<close>

fun run_requests :: "('r \<Rightarrow> 's \<Rightarrow> ('b option \<times> 's) res) \<Rightarrow> 'r list \<Rightarrow> 's \<Rightarrow> (('r \<times> 'b option) list \<times> 's) res"
  where
  "run_requests alloc [] s = Inr ([], s)"
| "run_requests alloc (r # rs) s =
     rbind (alloc r s) (\<lambda>(b, s'). rbind (run_requests alloc rs s')
       (\<lambda>(bs, s''). Inr ((r, b) # bs, s'')))"

section \<open>Lemma collections\<close>

named_theorems panic_free \<open>checked operations whose side condition holds\<close>
named_theorems layout_simps \<open>facts about the sizes and bounds of the kernel's static tables\<close>

lemma rbind_Inl [simp]: "rbind (Inl e) f = Inl e"
  by (simp add: rbind_def)

lemma rbind_Inr [simp]: "rbind (Inr x) f = f x"
  by (simp add: rbind_def)

lemma rbind_cong [fundef_cong]:
  "m = n \<Longrightarrow> (\<And>x. n = Inr x \<Longrightarrow> f x = g x) \<Longrightarrow> rbind m f = rbind n g"
  by (cases n) auto

lemma rbind_eq_Inr_iff: "rbind m f = Inr y \<longleftrightarrow> (\<exists>x. m = Inr x \<and> f x = Inr y)"
  by (cases m) auto

lemma rbind_eq_InrE [elim]:
  assumes "rbind m f = Inr y"
  obtains x where "m = Inr x" and "f x = Inr y"
  using assms by (auto simp: rbind_eq_Inr_iff)

lemma add_chk_eq_Inr_iff:
  fixes a :: "'a::len word"
  shows "add_chk a b = Inr c \<longleftrightarrow> unat a + unat b < 2 ^ LENGTH('a) \<and> c = a + b"
  by (auto simp: add_chk_def)

lemma add_chk_unat:
  fixes a :: "'a::len word"
  shows "add_chk a b = Inr c \<Longrightarrow> unat c = unat a + unat b"
  by (auto simp: add_chk_def unat_word_ariths split: if_splits)

lemma add_chk_ok [panic_free]:
  fixes a :: "'a::len word"
  shows "unat a + unat b < 2 ^ LENGTH('a) \<Longrightarrow> add_chk a b = Inr (a + b)"
  by (simp add: add_chk_def)

lemma sub_chk_ok [panic_free]: "b \<le> a \<Longrightarrow> sub_chk a b = Inr (a - b)"
  by (simp add: sub_chk_def)

lemma mul_chk_ok [panic_free]:
  fixes a :: "'a::len word"
  shows "unat a * unat b < 2 ^ LENGTH('a) \<Longrightarrow> mul_chk a b = Inr (a * b)"
  by (simp add: mul_chk_def)

lemma index_chk_ok [panic_free]: "i < length xs \<Longrightarrow> index_chk xs i = Inr (xs ! i)"
  by (simp add: index_chk_def)

lemma update_chk_ok [panic_free]: "i < length xs \<Longrightarrow> update_chk xs i v = Inr (xs[i := v])"
  by (simp add: update_chk_def)

lemma slice_to_ok [panic_free]: "n \<le> length xs \<Longrightarrow> slice_to xs n = Inr (take n xs)"
  by (simp add: slice_to_def)

lemma copy_prefix_ok [panic_free]:
  "length src \<le> length dst \<Longrightarrow> copy_prefix dst src = Inr (src @ drop (length src) dst)"
  by (simp add: copy_prefix_def)

lemma unat_plus_exact:
  fixes a :: "'a::len word"
  shows "unat a + unat b < 2 ^ LENGTH('a) \<Longrightarrow> unat (a + b) = unat a + unat b"
  by (simp add: unat_word_ariths)

lemma unat_u64_bound: "unat (a :: u64) \<le> 18446744073709551615"
proof -
  have "unat a < 2 ^ LENGTH(64)" by (rule unsigned_less)
  then show ?thesis by simp
qed

lemma unat_u32_bound: "unat (a :: u32) \<le> 4294967295"
proof -
  have "unat a < 2 ^ LENGTH(32)" by (rule unsigned_less)
  then show ?thesis by simp
qed

lemma unat_saturating_add:
  fixes a :: "'a::len word"
  shows "unat (saturating_add a b) = min (unat a + unat b) (2 ^ LENGTH('a) - 1)"
proof (cases "unat a + unat b < 2 ^ LENGTH('a)")
  case True
  then show ?thesis by (simp add: saturating_add_def unat_plus_exact)
next
  case False
  then show ?thesis by (simp add: saturating_add_def unsigned_minus_1_eq_mask mask_eq_exp_minus_1)
qed

lemma word_of_nat_unat: "word_of_nat (unat w) = w"
  by simp

lemma unsigned_power_lower: "k < LENGTH('a) \<Longrightarrow> unat (2 ^ k :: 'a::len word) = 2 ^ k"
proof -
  assume k: "k < LENGTH('a)"
  have "unat (word_of_nat (2 ^ k) :: 'a word) = 2 ^ k"
    using k by (simp only: unat_of_nat) (simp add: power_strict_increasing)
  then show ?thesis by simp
qed

lemma unat_saturating_sub: "unat (saturating_sub a b) = unat a - unat b"
  by (auto simp: saturating_sub_def unat_sub word_le_nat_alt)

lemma for_each_ok: "\<forall>x\<in>set xs. f x = Inr (g x) \<Longrightarrow> for_each f xs = Inr (concat (map g xs))"
  by (induction xs) auto

lemma in_order_ok [panic_free]: "in_order [] = Inr []"
  "in_order (Inr a # ms) = rbind (in_order ms) (\<lambda>b. Inr (a @ b))"
  by (simp_all add: in_order_def)

lemma unat_min: "unat (min a b) = min (unat a) (unat b)"
  by (simp add: min_def word_le_nat_alt)

section \<open>Searching arrays\<close>

lemma find_index_SomeD:
  "find_index P xs = Some i \<Longrightarrow> i < length xs \<and> P (xs ! i) \<and> (\<forall>j<i. \<not> P (xs ! j))"
proof (induction xs arbitrary: i)
  case Nil
  then show ?case by simp
next
  case (Cons x xs)
  show ?case
  proof (cases "P x")
    case True
    with Cons.prems show ?thesis by simp
  next
    case False
    with Cons.prems obtain k where k: "find_index P xs = Some k" "i = Suc k" by auto
    have "j < i \<Longrightarrow> \<not> P ((x # xs) ! j)" for j
      using Cons.IH [OF k(1)] False k(2) by (cases j) auto
    with Cons.IH [OF k(1)] k(2) show ?thesis by auto
  qed
qed

lemma find_index_None_iff: "find_index P xs = None \<longleftrightarrow> (\<forall>x\<in>set xs. \<not> P x)"
  by (induction xs) auto

lemma find_index_Some_ex: "i < length xs \<Longrightarrow> P (xs ! i) \<Longrightarrow> \<exists>j. find_index P xs = Some j"
  by (metis find_index_None_iff not_None_eq nth_mem)

lemma find_index_unique:
  assumes "i < length xs" and "P (xs ! i)"
    and "\<And>j. j < length xs \<Longrightarrow> P (xs ! j) \<Longrightarrow> j = i"
  shows "find_index P xs = Some i"
  using assms find_index_Some_ex [of i xs P] find_index_SomeD [of P xs] by metis

section \<open>Shared contracts\<close>

text \<open>
  A step relation with an inductive invariant: whatever holds at the start and is kept by each
  step holds after any number of steps.
\<close>

locale invariant_system =
  fixes step :: "'s \<Rightarrow> 's \<Rightarrow> bool"
    and inv :: "'s \<Rightarrow> bool"
  assumes step_inv: "inv s \<Longrightarrow> step s t \<Longrightarrow> inv t"
begin

lemma steps_inv: "step\<^sup>*\<^sup>* s t \<Longrightarrow> inv s \<Longrightarrow> inv t"
  by (induction rule: rtranclp_induct) (auto intro: step_inv)

end

text \<open>
  An allocator that never panics on acceptable requests and only hands out addresses that it has
  not handed out before.  \<open>owned s\<close> is the set of addresses given away (or skipped) up to the
  state \<open>s\<close>, \<open>extent r b\<close> the addresses of the block \<open>b\<close> returned for the request \<open>r\<close>.
\<close>

locale fresh_allocator =
  fixes alloc :: "'r \<Rightarrow> 's \<Rightarrow> ('b option \<times> 's) res"
    and inv :: "'s \<Rightarrow> bool"
    and acceptable :: "'r \<Rightarrow> bool"
    and owned :: "'s \<Rightarrow> nat set"
    and extent :: "'r \<Rightarrow> 'b \<Rightarrow> nat set"
  assumes no_panic: "inv s \<Longrightarrow> acceptable r \<Longrightarrow> \<exists>b s'. alloc r s = Inr (b, s')"
    and inv_alloc: "inv s \<Longrightarrow> acceptable r \<Longrightarrow> alloc r s = Inr (b, s') \<Longrightarrow> inv s'"
    and owned_mono: "inv s \<Longrightarrow> acceptable r \<Longrightarrow> alloc r s = Inr (b, s') \<Longrightarrow> owned s \<subseteq> owned s'"
    and fresh: "inv s \<Longrightarrow> acceptable r \<Longrightarrow> alloc r s = Inr (Some x, s') \<Longrightarrow> extent r x \<inter> owned s = {}"
    and taken: "inv s \<Longrightarrow> acceptable r \<Longrightarrow> alloc r s = Inr (Some x, s') \<Longrightarrow> extent r x \<subseteq> owned s'"
begin

text \<open>The blocks of a whole run, as address sets in the order they were handed out.\<close>

lemma run_no_panic:
  "inv s \<Longrightarrow> list_all acceptable rs \<Longrightarrow> \<exists>bs s'. run_requests alloc rs s = Inr (bs, s')"
proof (induction rs arbitrary: s)
  case Nil
  then show ?case by simp
next
  case (Cons r rs)
  then obtain b s1 where b: "alloc r s = Inr (b, s1)" using no_panic by fastforce
  with Cons.prems have "inv s1" using inv_alloc by auto
  with Cons obtain bs s' where "run_requests alloc rs s1 = Inr (bs, s')" by fastforce
  with b show ?case by simp
qed

lemma run_owned:
  "run_requests alloc rs s = Inr (bs, s') \<Longrightarrow> inv s \<Longrightarrow> list_all acceptable rs \<Longrightarrow>
   inv s' \<and> owned s \<subseteq> owned s' \<and>
   (\<forall>q x. (q, Some x) \<in> set bs \<longrightarrow> extent q x \<subseteq> owned s' \<and> extent q x \<inter> owned s = {})"
proof (induction rs arbitrary: s bs)
  case Nil
  then show ?case by simp
next
  case (Cons r rs)
  from Cons.prems(1) obtain b s1 bs' where
    b: "alloc r s = Inr (b, s1)" and run: "run_requests alloc rs s1 = Inr (bs', s')"
    and bs: "bs = (r, b) # bs'"
    by (auto elim!: rbind_eq_InrE)
  from Cons.prems b have r: "acceptable r" "inv s1" "owned s \<subseteq> owned s1"
    using inv_alloc [of s r b s1] owned_mono [of s r b s1] by simp_all
  with Cons.IH [OF run] Cons.prems(3)
  have IH: "inv s'" "owned s1 \<subseteq> owned s'"
    "\<And>q x. (q, Some x) \<in> set bs' \<Longrightarrow> extent q x \<subseteq> owned s' \<and> extent q x \<inter> owned s1 = {}"
    by simp_all
  have "extent q x \<subseteq> owned s' \<and> extent q x \<inter> owned s = {}" if "(q, Some x) \<in> set bs" for q x
  proof (cases "(q, Some x) \<in> set bs'")
    case True
    with IH(3) r(3) show ?thesis by blast
  next
    case False
    with that bs have "q = r" "b = Some x" by auto
    with b Cons.prems(2) r IH(2) fresh [of s r x s1] taken [of s r x s1] show ?thesis by auto
  qed
  with IH r(3) show ?case by blast
qed

lemma run_disjoint:
  "run_requests alloc rs s = Inr (bs, s') \<Longrightarrow> inv s \<Longrightarrow> list_all acceptable rs \<Longrightarrow>
   i < j \<Longrightarrow> j < length bs \<Longrightarrow> bs ! i = (ri, Some x) \<Longrightarrow> bs ! j = (rj, Some y) \<Longrightarrow>
   extent ri x \<inter> extent rj y = {}"
proof (induction rs arbitrary: s bs i j)
  case Nil
  then show ?case by simp
next
  case (Cons r rs)
  from Cons.prems(1) obtain b s1 bs' where
    b: "alloc r s = Inr (b, s1)" and run: "run_requests alloc rs s1 = Inr (bs', s')"
    and bs: "bs = (r, b) # bs'"
    by (auto elim!: rbind_eq_InrE)
  from Cons.prems b have r: "acceptable r" "inv s1" using inv_alloc [of s r b s1] by simp_all
  from Cons.prems(4) obtain j' where j': "j = Suc j'" by (cases j) auto
  with Cons.prems bs have yj: "bs' ! j' = (rj, Some y)" "j' < length bs'" by auto
  show ?case
  proof (cases i)
    case 0
    with Cons.prems bs have "b = Some x" "ri = r" by auto
    with b have "extent r x \<subseteq> owned s1" using taken Cons.prems(2) r(1) by blast
    moreover have "extent rj y \<inter> owned s1 = {}"
      using run_owned [OF run r(2)] Cons.prems(3) yj nth_mem [OF yj(2)] by simp
    ultimately show ?thesis using \<open>ri = r\<close> by blast
  next
    case (Suc i')
    with Cons.IH [OF run r(2), of i' j'] Cons.prems bs j' yj show ?thesis by simp
  qed
qed

end

text \<open>
  A component whose calls, on states that satisfy its invariant, answer exactly what an abstract
  specification answers: then so does any sequence of calls, and none of them panics.
\<close>

fun run_calls :: "('c \<Rightarrow> 's \<Rightarrow> ('r \<times> 's) res) \<Rightarrow> 'c list \<Rightarrow> 's \<Rightarrow> ('r list \<times> 's) res" where
  "run_calls call [] s = Inr ([], s)"
| "run_calls call (c # cs) s =
     rbind (call c s) (\<lambda>(r, s'). rbind (run_calls call cs s') (\<lambda>(rs, s''). Inr (r # rs, s'')))"

fun run_spec :: "('c \<Rightarrow> 'a \<Rightarrow> 'r \<times> 'a) \<Rightarrow> 'c list \<Rightarrow> 'a \<Rightarrow> 'r list \<times> 'a" where
  "run_spec spec [] a = ([], a)"
| "run_spec spec (c # cs) a =
     (let (r, a') = spec c a; (rs, a'') = run_spec spec cs a' in (r # rs, a''))"

locale call_simulation =
  fixes call :: "'c \<Rightarrow> 's \<Rightarrow> ('r \<times> 's) res"
    and spec :: "'c \<Rightarrow> 'a \<Rightarrow> 'r \<times> 'a"
    and inv :: "'s \<Rightarrow> bool"
    and abs :: "'s \<Rightarrow> 'a"
    and admissible :: "'c \<Rightarrow> bool"
  assumes call_sim: "inv s \<Longrightarrow> admissible c \<Longrightarrow>
    \<exists>s'. call c s = Inr (fst (spec c (abs s)), s') \<and> inv s' \<and> abs s' = snd (spec c (abs s))"
begin

lemma run_sim:
  "inv s \<Longrightarrow> list_all admissible cs \<Longrightarrow>
   \<exists>s'. run_calls call cs s = Inr (fst (run_spec spec cs (abs s)), s') \<and> inv s' \<and>
     abs s' = snd (run_spec spec cs (abs s))"
proof (induction cs arbitrary: s)
  case Nil
  then show ?case by simp
next
  case (Cons c cs)
  then obtain s1 where s1: "call c s = Inr (fst (spec c (abs s)), s1)" "inv s1"
    "abs s1 = snd (spec c (abs s))" using call_sim [of s c] by auto
  with Cons obtain s2 where "run_calls call cs s1 = Inr (fst (run_spec spec cs (abs s1)), s2)"
    "inv s2" "abs s2 = snd (run_spec spec cs (abs s1))" by fastforce
  with s1 show ?case by (simp add: split_beta Let_def)
qed

lemma run_inv:
  "inv s \<Longrightarrow> list_all admissible cs \<Longrightarrow> run_calls call cs s = Inr (rs, s') \<Longrightarrow> inv s'"
  using run_sim [of s cs] by auto

end

text \<open>
  A source that hands out a fixed list of items one by one, then reports that it is empty.
\<close>

fun take_many :: "('s \<Rightarrow> ('x option \<times> 's) res) \<Rightarrow> nat \<Rightarrow> 's \<Rightarrow> ('x option list \<times> 's) res" where
  "take_many take1 0 s = Inr ([], s)"
| "take_many take1 (Suc n) s =
     rbind (take1 s) (\<lambda>(x, s'). rbind (take_many take1 n s') (\<lambda>(xs, s''). Inr (x # xs, s'')))"

lemma length_take_many: "take_many f n s = Inr (xs, s') \<Longrightarrow> length xs = n"
  by (induction n arbitrary: s xs) (auto elim!: rbind_eq_InrE)

lemma run_requests_uniform:
  "run_requests (\<lambda>_. f) rs s =
     rbind (take_many f (length rs) s) (\<lambda>(xs, s'). Inr (zip rs xs, s'))"
  by (induction rs arbitrary: s) (auto simp: rbind_def split: sum.splits)

definition first_of :: "'x list \<Rightarrow> 'x option" where
  "first_of xs = (case xs of [] \<Rightarrow> None | x # _ \<Rightarrow> Some x)"

lemma first_of_simps [simp]: "first_of [] = None" "first_of (x # xs) = Some x"
  by (simp_all add: first_of_def)

lemma first_of_eq_Some_iff: "first_of xs = Some x \<longleftrightarrow> (\<exists>ys. xs = x # ys)"
  by (cases xs) auto

locale list_source =
  fixes take1 :: "'s \<Rightarrow> ('x option \<times> 's) res"
    and inv :: "'s \<Rightarrow> bool"
    and contents :: "'s \<Rightarrow> 'x list"
  assumes take1_spec: "inv s \<Longrightarrow>
    \<exists>s'. take1 s = Inr (first_of (contents s), s') \<and> inv s' \<and> contents s' = tl (contents s)"
begin

lemma take_many_spec:
  "inv s \<Longrightarrow> \<exists>s'. take_many take1 n s =
       Inr (map Some (take n (contents s)) @ replicate (n - length (contents s)) None, s') \<and>
     inv s' \<and> contents s' = drop n (contents s)"
proof (induction n arbitrary: s)
  case 0
  then show ?case by auto
next
  case (Suc n)
  from take1_spec [OF Suc.prems] obtain s1 where
    s1: "take1 s = Inr (first_of (contents s), s1)" "inv s1" "contents s1 = tl (contents s)" by blast
  from Suc.IH [OF s1(2)] obtain s2 where
    s2: "take_many take1 n s1 =
      Inr (map Some (take n (contents s1)) @ replicate (n - length (contents s1)) None, s2)"
    "inv s2" "contents s2 = drop n (contents s1)" by blast
  show ?case using s1 s2 by (cases "contents s") auto
qed

end

text \<open>
  When the items are distinct page frames, the source is also a fresh allocator: what it owns is
  every address outside the frames that are still to come.
\<close>

definition frame_extent :: "nat \<Rightarrow> nat set" where
  "frame_extent f = {f ..< f + 4096}"

lemma frame_extent_disjoint:
  assumes "4096 dvd f" and "4096 dvd g" and "f \<noteq> g"
  shows "frame_extent f \<inter> frame_extent g = {}"
proof -
  obtain a b where ab: "f = 4096 * a" "g = 4096 * b" using assms by (auto elim!: dvdE)
  with assms(3) have "a < b \<or> b < a" by auto
  then have "f + 4096 \<le> g \<or> g + 4096 \<le> f" using ab by linarith
  then show ?thesis by (auto simp: frame_extent_def)
qed

locale frame_pool = list_source take1 inv contents
  for take1 :: "'s \<Rightarrow> (u64 option \<times> 's) res" and inv :: "'s \<Rightarrow> bool" and contents :: "'s \<Rightarrow> u64 list" +
  assumes pool_distinct: "inv s \<Longrightarrow> distinct (contents s)"
    and pool_aligned: "inv s \<Longrightarrow> f \<in> set (contents s) \<Longrightarrow> 4096 dvd unat f"
begin

lemma pool_head_disjoint:
  assumes "inv s" and "contents s = x # ys" and "y \<in> set ys"
  shows "frame_extent (unat x) \<inter> frame_extent (unat y) = {}"
proof (rule frame_extent_disjoint)
  show "4096 dvd unat x" "4096 dvd unat y" using pool_aligned [OF assms(1)] assms(2,3) by auto
  show "unat x \<noteq> unat y" using pool_distinct [OF assms(1)] assms(2,3)
    by (auto simp flip: word_unat_eq_iff)
qed

lemma take1_cases:
  assumes "inv s" and "take1 s = Inr (b, s')"
  shows "b = first_of (contents s)" and "inv s'" and "contents s' = tl (contents s)"
  using take1_spec [OF assms(1)] assms(2) by auto

end

sublocale frame_pool \<subseteq> fresh_allocator "\<lambda>_::unit. take1" inv "\<lambda>_. True"
  "\<lambda>s. - (\<Union>f\<in>set (contents s). frame_extent (unat f))" "\<lambda>_ f. frame_extent (unat f)"
proof unfold_locales
  fix s :: 's and r :: unit
  assume "inv s"
  then show "\<exists>b s'. take1 s = Inr (b, s')" using take1_spec by blast
next
  fix s s' :: 's and r :: unit and b
  assume "inv s" "take1 s = Inr (b, s')"
  note c = take1_cases [OF this]
  show "inv s'" by (rule c(2))
  show "- (\<Union>f\<in>set (contents s). frame_extent (unat f)) \<subseteq>
        - (\<Union>f\<in>set (contents s'). frame_extent (unat f))"
    using c(3) by (cases "contents s") auto
next
  fix s s' :: 's and r :: unit and x
  assume s: "inv s" "take1 s = Inr (Some x, s')"
  note c = take1_cases [OF this]
  then obtain ys where ys: "contents s = x # ys" by (metis first_of_eq_Some_iff)
  show "frame_extent (unat x) \<inter> - (\<Union>f\<in>set (contents s). frame_extent (unat f)) = {}"
    using ys by auto
  show "frame_extent (unat x) \<subseteq> - (\<Union>f\<in>set (contents s'). frame_extent (unat f))"
    using c(3) ys pool_head_disjoint [OF s(1) ys] by auto
qed

end
