(* ===== verification/Heap.thy ===== *)
theory Heap
  imports Aether_Prelude
begin

unbundle bit_operations_syntax

text \<open>
  The kernel heap of \<^verbatim>\<open>kernel/src/memory/heap.rs\<close>: a bump allocator over a static array.  The address
  of \<open>HEAP_SPACE\<close> is chosen by the linker and is a parameter.  \<open>Layout\<close> is the request type of
  \<^verbatim>\<open>core::alloc\<close>, whose documented guarantees are \<open>layout_valid\<close>.  This theory treats
  one caller at a time; \<open>Heap_Concurrency\<close> interleaves the atomic accesses of any number of
  callers.
\<close>

section \<open>Model\<close>

definition HEAP_SIZE :: usize where
  "HEAP_SIZE = 128 * 1024"

record Layout =
  lay_size :: usize
  lay_align :: usize

record BumpAllocator =
  heap_start :: usize
  heap_end :: usize
  bump_next :: usize

definition BumpAllocator_new :: BumpAllocator where
  "BumpAllocator_new = \<lparr>heap_start = 0, heap_end = 0, bump_next = 0\<rparr>"

definition BumpAllocator_initialize :: "BumpAllocator \<Rightarrow> usize \<Rightarrow> usize \<Rightarrow> BumpAllocator res" where
  "BumpAllocator_initialize self start bytes =
     rbind (add_chk start bytes) (\<lambda>stop.
       Inr (self\<lparr>heap_start := start, heap_end := stop, bump_next := start\<rparr>))"

text \<open>One pass of the loop of \<open>alloc\<close>, from the two loads up to the compare-exchange.\<close>

datatype attempt = AttemptPanic panic | AttemptNull | AttemptTry usize usize

definition alloc_attempt :: "Layout \<Rightarrow> usize \<Rightarrow> usize \<Rightarrow> attempt" where
  "alloc_attempt layout current stop =
     (let align_mask = saturating_sub (lay_align layout) 1 in
      if current = 0 then AttemptNull
      else (case add_chk current align_mask of
              Inl e \<Rightarrow> AttemptPanic e
            | Inr padded \<Rightarrow>
                let aligned = padded AND NOT align_mask in
                (case checked_add aligned (lay_size layout) of
                   None \<Rightarrow> AttemptNull
                 | Some limit \<Rightarrow> if stop < limit then AttemptNull else AttemptTry aligned limit)))"

text \<open>\<open>alloc\<close> with a single caller, whose compare-exchange finds the value it loaded.  A null
  pointer is 0.\<close>

definition BumpAllocator_alloc :: "BumpAllocator \<Rightarrow> Layout \<Rightarrow> (usize \<times> BumpAllocator) res" where
  "BumpAllocator_alloc self layout =
     (case alloc_attempt layout (bump_next self) (heap_end self) of
        AttemptPanic e \<Rightarrow> Inl e
      | AttemptNull \<Rightarrow> Inr (0, self)
      | AttemptTry aligned limit \<Rightarrow> Inr (aligned, self\<lparr>bump_next := limit\<rparr>))"

definition BumpAllocator_dealloc :: "BumpAllocator \<Rightarrow> usize \<Rightarrow> Layout \<Rightarrow> BumpAllocator" where
  "BumpAllocator_dealloc self ptr layout = self"

definition heap_initialize :: "usize \<Rightarrow> BumpAllocator \<Rightarrow> BumpAllocator res" where
  "heap_initialize heap_space alloc = BumpAllocator_initialize alloc heap_space HEAP_SIZE"

definition heap_size :: usize where
  "heap_size = HEAP_SIZE"

definition heap_used :: "BumpAllocator \<Rightarrow> usize res" where
  "heap_used alloc =
     (let start = heap_start alloc; limit = bump_next alloc in
      if start = 0 \<or> limit < start then Inr 0 else sub_chk limit start)"

section \<open>Requests\<close>

text \<open>What \<^verbatim>\<open>core::alloc::Layout\<close> documents: the alignment is a power of two and the size, rounded up
  to the alignment, does not exceed \<open>isize::MAX\<close>.\<close>

definition layout_valid :: "Layout \<Rightarrow> bool" where
  "layout_valid l \<longleftrightarrow> (\<exists>k\<in>set [0..<64]. lay_align l = 2 ^ k) \<and>
     unat (lay_size l) + unat (lay_align l) \<le> 9223372036854775808"

text \<open>The heap ends at least \<open>A\<close> bytes below the top of the address space, which is what keeps the
  rounding of a request with alignment at most \<open>A\<close> from overflowing.\<close>

definition heap_wf :: "nat \<Rightarrow> BumpAllocator \<Rightarrow> bool" where
  "heap_wf A h \<longleftrightarrow> heap_start h \<le> bump_next h \<and> bump_next h \<le> heap_end h \<and>
     unat (heap_end h) + A \<le> 18446744073709551616"

definition layout_ok :: "nat \<Rightarrow> Layout \<Rightarrow> bool" where
  "layout_ok A l \<longleftrightarrow> layout_valid l \<and> unat (lay_align l) \<le> A"

definition block_extent :: "Layout \<Rightarrow> usize \<Rightarrow> nat set" where
  "block_extent l p = {unat p ..< unat p + unat (lay_size l)}"

definition round_up :: "nat \<Rightarrow> nat \<Rightarrow> nat" where
  "round_up a n = (n + (a - 1)) div a * a"

lemma round_up_bounds: "0 < a \<Longrightarrow> n \<le> round_up a n \<and> round_up a n \<le> n + (a - 1) \<and> a dvd round_up a n"
proof -
  assume "0 < a"
  then have "(n + (a - 1)) mod a < a" by simp
  moreover have "(n + (a - 1)) div a * a + (n + (a - 1)) mod a = n + (a - 1)" by simp
  ultimately have "n \<le> (n + (a - 1)) div a * a" "(n + (a - 1)) div a * a \<le> n + (a - 1)"
    using \<open>0 < a\<close> by linarith+
  then show ?thesis by (simp only: round_up_def dvd_triv_right simp_thms)
qed

lemma and_not_mask_eq_minus:
  fixes a :: "'a::len word"
  shows "a AND NOT (mask n) = a - take_bit n a"
proof -
  have "a - take_bit n a = a AND NOT (take_bit n a)"
    by (rule disjunctive_diff_eq_and_not) (auto intro!: bit_word_eqI simp: bit_simps)
  also have "\<dots> = a AND NOT (mask n)"
    by (auto intro!: bit_word_eqI simp: bit_simps)
  finally show ?thesis by simp
qed

lemma unat_and_not_mask:
  fixes a :: "'a::len word"
  shows "unat (a AND NOT (mask n)) = unat a div 2 ^ n * 2 ^ n"
proof -
  have t: "unat (take_bit n a) = unat a mod 2 ^ n"
    by (metis unsigned_take_bit_eq take_bit_eq_mod)
  then have "take_bit n a \<le> a" by (simp add: word_le_nat_alt)
  then show ?thesis
    unfolding and_not_mask_eq_minus unat_sub [OF \<open>take_bit n a \<le> a\<close>] t
    by (simp add: minus_mod_eq_div_mult)
qed

lemma layout_valid_mask:
  assumes "layout_valid l"
  obtains k where "k < 64" and "unat (lay_align l) = 2 ^ k"
    and "saturating_sub (lay_align l) 1 = mask k" and "unat (mask k :: u64) = 2 ^ k - 1"
proof -
  from assms obtain k where k: "k < 64" "lay_align l = 2 ^ k" by (auto simp: layout_valid_def)
  have u: "unat (2 ^ k :: u64) = 2 ^ k" using k(1) by (simp add: unsigned_power_lower)
  then have "1 \<le> (2 ^ k :: u64)" by (simp add: word_le_nat_alt)
  moreover have "unat (mask k :: u64) = 2 ^ k - 1"
    using \<open>1 \<le> (2 ^ k :: u64)\<close> u by (simp add: mask_eq_exp_minus_1 unat_sub)
  ultimately show thesis
    using k u by (intro that [of k]) (simp_all add: saturating_sub_def mask_eq_exp_minus_1)
qed

text \<open>
  The outcome of one pass, on natural numbers: the block starts at the current position rounded up
  to the alignment; it is refused exactly when it does not fit.
\<close>

lemma alloc_attempt_spec:
  assumes "layout_ok A l" and "unat current + A \<le> 18446744073709551616"
    and "current \<noteq> 0" and "unat stop + A \<le> 18446744073709551616"
  defines "p \<equiv> round_up (unat (lay_align l)) (unat current)"
  shows "p + unat (lay_size l) \<le> unat stop \<Longrightarrow>
      alloc_attempt l current stop = AttemptTry (word_of_nat p) (word_of_nat (p + unat (lay_size l)))"
    and "unat stop < p + unat (lay_size l) \<Longrightarrow> alloc_attempt l current stop = AttemptNull"
proof -
  from assms(1) have v: "layout_valid l" and A: "unat (lay_align l) \<le> A" by (simp_all add: layout_ok_def)
  from layout_valid_mask [OF v] obtain k where
    k: "k < 64" "unat (lay_align l) = 2 ^ k" "saturating_sub (lay_align l) 1 = mask k"
      "unat (mask k :: u64) = 2 ^ k - 1" .
  have pos: "0 < (2::nat) ^ k" by simp
  have sum: "unat current + (2 ^ k - 1) < 18446744073709551616" using assms(2) A k(2) pos by linarith
  then have add: "add_chk current (mask k) = Inr (current + mask k)"
    and us: "unat (current + mask k) = unat current + (2 ^ k - 1)"
    using k(4) by (simp_all add: add_chk_def unat_plus_exact)
  let ?al = "(current + mask k) AND NOT (mask k)"
  have al: "unat ?al = p"
    unfolding unat_and_not_mask us p_def k(2) round_up_def ..
  then have alp: "?al = word_of_nat p" by (metis word_of_nat_unat)
  have attempt: "alloc_attempt l current stop =
      (case checked_add ?al (lay_size l) of None \<Rightarrow> AttemptNull
       | Some limit \<Rightarrow> if stop < limit then AttemptNull else AttemptTry ?al limit)"
    using assms(3) k(3) add by (simp add: alloc_attempt_def Let_def)
  show "alloc_attempt l current stop = AttemptTry (word_of_nat p) (word_of_nat (p + unat (lay_size l)))"
    if fits: "p + unat (lay_size l) \<le> unat stop"
  proof -
    have lt: "p + unat (lay_size l) < 18446744073709551616" using fits unat_u64_bound [of stop] by linarith
    then have c: "checked_add ?al (lay_size l) = Some (?al + lay_size l)"
      and u: "unat (?al + lay_size l) = p + unat (lay_size l)"
      using al by (simp_all add: checked_add_def unat_plus_exact)
    from u have "?al + lay_size l = word_of_nat (p + unat (lay_size l))"
      by (metis word_of_nat_unat)
    moreover have "\<not> stop < ?al + lay_size l" using u fits by (simp add: word_less_nat_alt)
    ultimately show ?thesis using attempt c alp by simp
  qed
  show "alloc_attempt l current stop = AttemptNull" if big: "unat stop < p + unat (lay_size l)"
  proof (cases "p + unat (lay_size l) < 18446744073709551616")
    case True
    then have "unat (?al + lay_size l) = p + unat (lay_size l)" using al by (simp add: unat_plus_exact)
    with big have "stop < ?al + lay_size l" by (simp add: word_less_nat_alt)
    then show ?thesis using attempt True al by (simp add: checked_add_def)
  next
    case False
    then show ?thesis using attempt al by (simp add: checked_add_def)
  qed
qed

section \<open>The allocator's contract\<close>

lemma BumpAllocator_alloc_spec:
  assumes "heap_wf A h" and "layout_ok A l"
  defines "p \<equiv> round_up (unat (lay_align l)) (unat (bump_next h))"
  shows "BumpAllocator_alloc h l =
    Inr (if bump_next h \<noteq> 0 \<and> p + unat (lay_size l) \<le> unat (heap_end h)
         then (word_of_nat p, h\<lparr>bump_next := word_of_nat (p + unat (lay_size l))\<rparr>) else (0, h))"
proof (cases "bump_next h = 0")
  case True
  then show ?thesis by (simp add: BumpAllocator_alloc_def alloc_attempt_def)
next
  case False
  have b: "unat (bump_next h) + A \<le> 18446744073709551616" "unat (heap_end h) + A \<le> 18446744073709551616"
    using assms(1) by (auto simp: heap_wf_def word_le_nat_alt)
  note a = alloc_attempt_spec [OF assms(2) b(1) False b(2), folded p_def]
  show ?thesis
  proof (cases "p + unat (lay_size l) \<le> unat (heap_end h)")
    case True
    with a(1) False show ?thesis by (simp add: BumpAllocator_alloc_def)
  next
    case not_fitting: False
    then have "unat (heap_end h) < p + unat (lay_size l)" by simp
    from a(2) [OF this] not_fitting show ?thesis by (simp add: BumpAllocator_alloc_def)
  qed
qed

lemma layout_ok_round_up:
  assumes "layout_ok A l"
  shows "n \<le> round_up (unat (lay_align l)) n" and "unat (lay_align l) dvd round_up (unat (lay_align l)) n"
proof -
  from assms obtain k where "unat (lay_align l) = 2 ^ k"
    by (auto simp: layout_ok_def elim: layout_valid_mask)
  then show "n \<le> round_up (unat (lay_align l)) n" "unat (lay_align l) dvd round_up (unat (lay_align l)) n"
    using round_up_bounds [of "2 ^ k" n] by simp_all
qed

lemma BumpAllocator_alloc_nullD:
  assumes "heap_wf A h" and "layout_ok A l" and "BumpAllocator_alloc h l = Inr (0, h')"
  shows "h' = h"
proof (rule ccontr)
  let ?p = "round_up (unat (lay_align l)) (unat (bump_next h))"
  assume "h' \<noteq> h"
  then have fit: "bump_next h \<noteq> 0" "?p + unat (lay_size l) \<le> unat (heap_end h)"
    and z: "(word_of_nat ?p :: u64) = 0"
    using BumpAllocator_alloc_spec [OF assms(1,2)] assms(3) by (auto split: if_splits)
  have "?p < 18446744073709551616" using fit(2) unat_u64_bound [of "heap_end h"] by linarith
  then have "?p = 0" using arg_cong [OF z, of unat] by (simp add: unat_of_nat)
  then show False
    using layout_ok_round_up(1) [OF assms(2), of "unat (bump_next h)"] fit(1) by (simp add: unat_eq_0)
qed

text \<open>A successful request, on natural numbers.\<close>

lemma BumpAllocator_alloc_SomeD:
  assumes "heap_wf A h" and "layout_ok A l" and "BumpAllocator_alloc h l = Inr (ptr, h')" and "ptr \<noteq> 0"
  shows "unat (bump_next h) \<le> unat ptr" "unat ptr + unat (lay_size l) \<le> unat (heap_end h)"
    "unat (lay_align l) dvd unat ptr" "h' = h\<lparr>bump_next := word_of_nat (unat ptr + unat (lay_size l))\<rparr>"
    "unat (bump_next h') = unat ptr + unat (lay_size l)" "heap_wf A h'"
proof -
  let ?p = "round_up (unat (lay_align l)) (unat (bump_next h))"
  have fit: "bump_next h \<noteq> 0 \<and> ?p + unat (lay_size l) \<le> unat (heap_end h)"
    using BumpAllocator_alloc_spec [OF assms(1,2)] assms(3,4) by (auto split: if_splits)
  then have r: "ptr = word_of_nat ?p" "h' = h\<lparr>bump_next := word_of_nat (?p + unat (lay_size l))\<rparr>"
    using BumpAllocator_alloc_spec [OF assms(1,2)] assms(3) by auto
  have lt: "?p + unat (lay_size l) < 18446744073709551616" using fit unat_u64_bound [of "heap_end h"] by linarith
  then have u: "unat ptr = ?p" "unat (word_of_nat (?p + unat (lay_size l)) :: u64) = ?p + unat (lay_size l)"
    using r(1) by (simp_all add: unat_of_nat del: of_nat_add)
  note b = layout_ok_round_up [OF assms(2), of "unat (bump_next h)"]
  show "unat (bump_next h) \<le> unat ptr" "unat (lay_align l) dvd unat ptr" using b u(1) by simp_all
  show "unat ptr + unat (lay_size l) \<le> unat (heap_end h)" using fit u(1) by simp
  show h': "h' = h\<lparr>bump_next := word_of_nat (unat ptr + unat (lay_size l))\<rparr>" using r(2) u(1) by simp
  show n: "unat (bump_next h') = unat ptr + unat (lay_size l)"
    using r(2) u by (simp del: of_nat_add)
  show "heap_wf A h'"
    using assms(1) n fit b(1) u(1) h' by (auto simp: heap_wf_def word_le_nat_alt simp del: of_nat_add)
qed

definition heap_request :: "Layout \<Rightarrow> BumpAllocator \<Rightarrow> (usize option \<times> BumpAllocator) res" where
  "heap_request l h =
     rbind (BumpAllocator_alloc h l) (\<lambda>(p, h'). Inr (if p = 0 then None else Some p, h'))"

lemma heap_request_cases:
  assumes "heap_wf A h" and "layout_ok A l" and "heap_request l h = Inr (b, h')"
  shows "b = None \<and> h' = h \<or> (\<exists>p. b = Some p \<and> p \<noteq> 0 \<and> BumpAllocator_alloc h l = Inr (p, h'))"
  using assms(3) BumpAllocator_alloc_nullD [OF assms(1,2)]
  by (auto simp: heap_request_def rbind_eq_Inr_iff split: if_splits)

lemma heap_request_Some:
  "heap_request l h = Inr (Some p, h') \<longleftrightarrow> BumpAllocator_alloc h l = Inr (p, h') \<and> p \<noteq> 0"
  by (auto simp: heap_request_def rbind_eq_Inr_iff split: if_splits)

interpretation heap_blocks: fresh_allocator heap_request "heap_wf A" "layout_ok A"
  "\<lambda>h. {..< unat (bump_next h)}" block_extent for A :: nat
proof unfold_locales
  fix h l assume "heap_wf A h" "layout_ok A l"
  then show "\<exists>b h'. heap_request l h = Inr (b, h')"
    by (auto simp: heap_request_def BumpAllocator_alloc_spec)
next
  fix h l b h' assume r: "heap_wf A h" "layout_ok A l" "heap_request l h = Inr (b, h')"
  show "heap_wf A h'"
    using heap_request_cases [OF r] BumpAllocator_alloc_SomeD(6) [OF r(1,2)] r(1) by blast
  show "{..<unat (bump_next h)} \<subseteq> {..<unat (bump_next h')}"
    using heap_request_cases [OF r] BumpAllocator_alloc_SomeD(1,5) [OF r(1,2)] by fastforce
next
  fix h l p h' assume r: "heap_wf A h" "layout_ok A l" "heap_request l h = Inr (Some p, h')"
  then have a: "BumpAllocator_alloc h l = Inr (p, h')" "p \<noteq> 0" by (simp_all add: heap_request_Some)
  show "block_extent l p \<inter> {..<unat (bump_next h)} = {}"
    using BumpAllocator_alloc_SomeD(1) [OF r(1,2) a] by (auto simp: block_extent_def)
  show "block_extent l p \<subseteq> {..<unat (bump_next h')}"
    using BumpAllocator_alloc_SomeD(5) [OF r(1,2) a] by (auto simp: block_extent_def)
qed

text \<open>The bounds of the heap never change, so a block handed out later lies in the initial heap.\<close>

lemma heap_request_frame:
  "heap_request l h = Inr (b, h') \<Longrightarrow> heap_start h' = heap_start h \<and> heap_end h' = heap_end h"
  by (auto simp: heap_request_def BumpAllocator_alloc_def rbind_eq_Inr_iff split: attempt.splits if_splits)

lemma heap_run_blocks:
  assumes "run_requests heap_request ls h = Inr (bs, h')" and "heap_wf A h" and "list_all (layout_ok A) ls"
    and "(l, Some p) \<in> set bs"
  shows "heap_start h \<le> p \<and> unat p + unat (lay_size l) \<le> unat (heap_end h) \<and>
    unat (lay_align l) dvd unat p"
  using assms
proof (induction ls arbitrary: h bs)
  case Nil
  then show ?case by simp
next
  case (Cons q ls)
  from Cons.prems(1) obtain b h1 bs' where
    b: "heap_request q h = Inr (b, h1)" and run: "run_requests heap_request ls h1 = Inr (bs', h')"
    and bs: "bs = (q, b) # bs'"
    by (auto elim!: rbind_eq_InrE)
  from Cons.prems have q: "layout_ok A q" "list_all (layout_ok A) ls" by simp_all
  show ?case
  proof (cases "(l, Some p) \<in> set bs'")
    case True
    with Cons.IH [OF run heap_blocks.inv_alloc [OF Cons.prems(2) q(1) b] q(2)]
      heap_request_frame [OF b] show ?thesis by simp
  next
    case False
    with Cons.prems(4) bs have "l = q" "b = Some p" by auto
    with b have a: "BumpAllocator_alloc h l = Inr (p, h1)" "p \<noteq> 0" by (simp_all add: heap_request_Some)
    from BumpAllocator_alloc_SomeD(1,2,3) [OF Cons.prems(2) q(1) [folded \<open>l = q\<close>] a] Cons.prems(2)
    show ?thesis by (auto simp: heap_wf_def word_le_nat_alt)
  qed
qed

text \<open>Initialisation succeeds wherever the linker leaves room above the heap.\<close>

lemma heap_initialize_wf:
  assumes "unat start + 131072 + A \<le> 18446744073709551616" and "0 < A"
  shows "\<exists>h. heap_initialize start BumpAllocator_new = Inr h \<and> heap_wf A h \<and> heap_start h = start \<and>
    bump_next h = start \<and> unat (heap_end h) = unat start + 131072"
proof -
  have hs: "unat HEAP_SIZE = 131072" by (simp add: HEAP_SIZE_def)
  have lt: "unat start + unat HEAP_SIZE < 2 ^ LENGTH(64)" using assms hs by simp
  from lt have a: "add_chk start HEAP_SIZE = Inr (start + HEAP_SIZE)" by (rule add_chk_ok)
  have u: "unat (start + HEAP_SIZE) = unat start + 131072" using unat_plus_exact [OF lt] hs by simp
  show ?thesis
    using a u assms(1)
    by (simp add: heap_initialize_def BumpAllocator_initialize_def heap_wf_def word_le_nat_alt)
qed

text \<open>Bytes in use: at least the sizes of the blocks handed out, at most the size of the heap.\<close>

definition granted_bytes :: "(Layout \<times> usize option) list \<Rightarrow> nat" where
  "granted_bytes bs = sum_list (map (\<lambda>(l, b). if b = None then 0 else unat (lay_size l)) bs)"

lemma heap_run_accounting:
  assumes "run_requests heap_request ls h = Inr (bs, h')" and "heap_wf A h" and "list_all (layout_ok A) ls"
  shows "unat (bump_next h) + granted_bytes bs \<le> unat (bump_next h') \<and> heap_start h' = heap_start h \<and>
    heap_end h' = heap_end h \<and> heap_wf A h'"
  using assms
proof (induction ls arbitrary: h bs)
  case Nil
  then show ?case by (simp add: granted_bytes_def)
next
  case (Cons q ls)
  from Cons.prems(1) obtain b h1 bs' where
    b: "heap_request q h = Inr (b, h1)" and run: "run_requests heap_request ls h1 = Inr (bs', h')"
    and bs: "bs = (q, b) # bs'"
    by (auto elim!: rbind_eq_InrE)
  from Cons.prems have q: "layout_ok A q" "list_all (layout_ok A) ls" by simp_all
  note wf1 = heap_blocks.inv_alloc [OF Cons.prems(2) q(1) b]
  have "unat (bump_next h) + (if b = None then 0 else unat (lay_size q)) \<le> unat (bump_next h1)"
    using heap_request_cases [OF Cons.prems(2) q(1) b]
      BumpAllocator_alloc_SomeD(1,5) [OF Cons.prems(2) q(1)] by fastforce
  with Cons.IH [OF run wf1 q(2)] heap_request_frame [OF b] bs show ?case
    by (simp add: granted_bytes_def)
qed

section \<open>A small heap\<close>

definition example_layout :: Layout where
  "example_layout = \<lparr>lay_size = 24, lay_align = 8\<rparr>"

definition example_heap :: BumpAllocator where
  "example_heap = \<lparr>heap_start = 0x1000, heap_end = 0x21000, bump_next = 0x1000\<rparr>"

lemma example_layout_ok: "layout_ok 8 example_layout"
  unfolding layout_ok_def layout_valid_def example_layout_def by (auto intro!: bexI [of _ 3])

lemma example_heap_wf: "heap_wf 8 example_heap"
  by (simp add: heap_wf_def example_heap_def)

lemma example_heap_initialize: "heap_initialize 0x1000 BumpAllocator_new = Inr example_heap"
  by (simp add: heap_initialize_def BumpAllocator_initialize_def HEAP_SIZE_def add_chk_def
      BumpAllocator_new_def example_heap_def)

lemma example_heap_run: "run_requests heap_request [example_layout] example_heap =
    Inr ([(example_layout, Some 0x1000)], example_heap\<lparr>bump_next := 0x1018\<rparr>)"
  by (simp add: heap_request_def BumpAllocator_alloc_spec [OF example_heap_wf example_layout_ok])
    (simp add: example_heap_def example_layout_def round_up_def)

section \<open>Properties\<close>

text \<open>Heap blocks never overlap: in any sequence of valid requests against the freshly
  initialised heap, no request panics and the blocks of two successful requests have no address
  in common.\<close>

theorem heap_blocks_disjoint:
  assumes "unat start + 131072 + A \<le> 18446744073709551616" and "0 < A"
    and "list_all (layout_ok A) ls"
  shows "\<exists>h bs h'. heap_initialize start BumpAllocator_new = Inr h \<and>
    run_requests heap_request ls h = Inr (bs, h') \<and>
    (\<forall>i j li lj p q. i < j \<longrightarrow> j < length bs \<longrightarrow> bs ! i = (li, Some p) \<longrightarrow> bs ! j = (lj, Some q) \<longrightarrow>
       block_extent li p \<inter> block_extent lj q = {})"
proof -
  from heap_initialize_wf [OF assms(1,2)] obtain h where
    h: "heap_initialize start BumpAllocator_new = Inr h" "heap_wf A h" by blast
  from heap_blocks.run_no_panic [OF h(2) assms(3)] obtain bs h' where
    run: "run_requests heap_request ls h = Inr (bs, h')" by blast
  from heap_blocks.run_disjoint [OF run h(2) assms(3)] h(1) run show ?thesis by blast
qed

theorem heap_blocks_disjoint_witness:
  "\<exists>h bs h'. heap_initialize 0xFFFFFFFF80200000 BumpAllocator_new = Inr h \<and>
     run_requests heap_request
       [\<lparr>lay_size = 24, lay_align = 8\<rparr>, \<lparr>lay_size = 4096, lay_align = 4096\<rparr>] h = Inr (bs, h') \<and>
     (\<forall>i j li lj p q. i < j \<longrightarrow> j < length bs \<longrightarrow> bs ! i = (li, Some p) \<longrightarrow> bs ! j = (lj, Some q) \<longrightarrow>
       block_extent li p \<inter> block_extent lj q = {})"
proof (rule heap_blocks_disjoint [where A = 4096])
  have "layout_valid \<lparr>lay_size = 24, lay_align = 8\<rparr>"
    unfolding layout_valid_def by (auto intro!: bexI [of _ 3])
  moreover have "layout_valid \<lparr>lay_size = 4096, lay_align = 4096\<rparr>"
    unfolding layout_valid_def by (auto intro!: bexI [of _ 12])
  ultimately show "list_all (layout_ok 4096)
      [\<lparr>lay_size = 24, lay_align = 8\<rparr>, \<lparr>lay_size = 4096, lay_align = 4096\<rparr>]"
    by (simp add: layout_ok_def)
qed simp_all

text \<open>(C33) Functional behaviour of one request: the mask arithmetic of \<open>alloc\<close> rounds the bump
  pointer up to the next multiple of the alignment; the request succeeds exactly when the heap is
  initialised and the rounded block still fits, and a refused request changes nothing.\<close>

theorem heap_alloc_rounds_and_bounds:
  assumes "heap_wf A h" and "layout_ok A l"
  shows "BumpAllocator_alloc h l =
    (let p = round_up (unat (lay_align l)) (unat (bump_next h)) in
     Inr (if bump_next h \<noteq> 0 \<and> p + unat (lay_size l) \<le> unat (heap_end h)
          then (word_of_nat p, h\<lparr>bump_next := word_of_nat (p + unat (lay_size l))\<rparr>) else (0, h)))"
  unfolding Let_def by (rule BumpAllocator_alloc_spec [OF assms])

theorem heap_alloc_rounds_and_bounds_witness:
  "BumpAllocator_alloc \<lparr>heap_start = 0x1000, heap_end = 0x3000, bump_next = 0x1005\<rparr>
     \<lparr>lay_size = 24, lay_align = 8\<rparr> =
   Inr (0x1008, \<lparr>heap_start = 0x1000, heap_end = 0x3000, bump_next = 0x1020\<rparr>)"
proof -
  have "heap_wf 8 \<lparr>heap_start = 0x1000, heap_end = 0x3000, bump_next = 0x1005\<rparr>"
    by (simp add: heap_wf_def)
  moreover have "layout_ok 8 \<lparr>lay_size = 24, lay_align = 8\<rparr>"
    unfolding layout_ok_def layout_valid_def by (auto intro!: bexI [of _ 3])
  ultimately show ?thesis
    by (simp add: heap_alloc_rounds_and_bounds [where A = 8] round_up_def Let_def)
qed

text \<open>Every block handed out lies completely inside the 128 KiB heap area and starts at a
  multiple of the requested alignment.\<close>

theorem heap_blocks_inside_and_aligned:
  assumes "unat start + 131072 + A \<le> 18446744073709551616" and "0 < A"
    and "list_all (layout_ok A) ls"
    and "heap_initialize start BumpAllocator_new = Inr h"
    and "run_requests heap_request ls h = Inr (bs, h')" and "(l, Some p) \<in> set bs"
  shows "block_extent l p \<subseteq> {unat start ..< unat start + 131072} \<and> unat (lay_align l) dvd unat p"
proof -
  from heap_initialize_wf [OF assms(1,2)] assms(4)
  have h: "heap_wf A h" "heap_start h = start" "unat (heap_end h) = unat start + 131072" by auto
  from heap_run_blocks [OF assms(5) h(1) assms(3,6)] h(2,3) show ?thesis
    by (auto simp: block_extent_def word_le_nat_alt)
qed

theorem heap_blocks_inside_and_aligned_witness:
  "block_extent \<lparr>lay_size = 24, lay_align = 8\<rparr> 0x1000 \<subseteq> {0x1000 ..< 0x1000 + 131072} \<and> (8::nat) dvd 0x1000"
  using heap_blocks_inside_and_aligned
    [where A = 8, OF _ _ _ example_heap_initialize example_heap_run, of example_layout "0x1000"]
    example_layout_ok
  by (simp add: example_layout_def)

text \<open>Heap accounting: after any sequence of valid requests \<open>heap_used\<close> reports a number of bytes
  that covers all the blocks handed out and never exceeds the heap size.\<close>

theorem heap_used_covers_granted_blocks:
  assumes "unat start + 131072 + A \<le> 18446744073709551616" and "0 < A" and "start \<noteq> 0"
    and "list_all (layout_ok A) ls"
    and "heap_initialize start BumpAllocator_new = Inr h"
    and "run_requests heap_request ls h = Inr (bs, h')"
  shows "\<exists>u. heap_used h' = Inr u \<and> granted_bytes bs \<le> unat u \<and> u \<le> heap_size"
proof -
  from heap_initialize_wf [OF assms(1,2)] assms(5)
  have h: "heap_wf A h" "heap_start h = start" "bump_next h = start"
    "unat (heap_end h) = unat start + 131072" by auto
  from heap_run_accounting [OF assms(6) h(1) assms(4)] h(2,3,4)
  have h': "unat start + granted_bytes bs \<le> unat (bump_next h')" "heap_start h' = start"
    "unat (heap_end h') = unat start + 131072" "heap_wf A h'" by auto
  then have le: "start \<le> bump_next h'" "unat (bump_next h') \<le> unat start + 131072"
    by (auto simp: heap_wf_def word_le_nat_alt)
  then have "heap_used h' = Inr (bump_next h' - start)"
    using assms(3) h'(2) by (simp add: heap_used_def sub_chk_def leD)
  moreover have "unat (bump_next h' - start) = unat (bump_next h') - unat start"
    using le(1) by (rule unat_sub)
  ultimately show ?thesis
    using h'(1) le(2) by (auto simp: heap_size_def HEAP_SIZE_def word_le_nat_alt)
qed

theorem heap_used_covers_granted_blocks_witness:
  "\<exists>u. heap_used \<lparr>heap_start = 0x1000, heap_end = 0x21000, bump_next = 0x1018\<rparr> = Inr u \<and> 24 \<le> unat u \<and>
     u \<le> heap_size"
  using heap_used_covers_granted_blocks
    [where A = 8, OF _ _ _ _ example_heap_initialize example_heap_run] example_layout_ok
  by (simp add: granted_bytes_def example_layout_def example_heap_def)

end
