(* ===== verification/Heap_Concurrency.thy ===== *)
theory Heap_Concurrency
  imports Heap
begin

text \<open>
  Several callers in \<open>BumpAllocator::alloc\<close> at once.  Each atomic access of
  \<^verbatim>\<open>kernel/src/memory/heap.rs\<close> (the load of \<open>next\<close>, the load of \<open>heap_end\<close>, the compare-exchange) is one
  step of one caller; the callers' steps interleave in any order.  Memory accesses are sequentially
  consistent.  \<open>granted\<close> is a history variable: the blocks returned so far.
\<close>

section \<open>Model\<close>

datatype alloc_pc =
    AllocIdle
  | AllocLoadNext Layout
  | AllocLoadEnd Layout usize
  | AllocCas Layout usize usize usize
  | AllocReturn Layout usize
  | AllocPanicked panic

record heap_system =
  shared_heap :: BumpAllocator
  callers :: "nat \<Rightarrow> alloc_pc"
  granted :: "(Layout \<times> usize) list"

definition after_loads :: "Layout \<Rightarrow> usize \<Rightarrow> usize \<Rightarrow> alloc_pc" where
  "after_loads l current stop =
     (case alloc_attempt l current stop of
        AttemptPanic e \<Rightarrow> AllocPanicked e
      | AttemptNull \<Rightarrow> AllocReturn l 0
      | AttemptTry aligned limit \<Rightarrow> AllocCas l current aligned limit)"

definition set_caller :: "heap_system \<Rightarrow> nat \<Rightarrow> alloc_pc \<Rightarrow> heap_system" where
  "set_caller s t pc = s\<lparr>callers := (callers s)(t := pc)\<rparr>"

inductive alloc_step :: "nat \<Rightarrow> heap_system \<Rightarrow> heap_system \<Rightarrow> bool" for A :: nat where
  call: "callers s t = AllocIdle \<Longrightarrow> layout_ok A l \<Longrightarrow> alloc_step A s (set_caller s t (AllocLoadNext l))"
| load_next: "callers s t = AllocLoadNext l \<Longrightarrow>
    alloc_step A s (set_caller s t (AllocLoadEnd l (bump_next (shared_heap s))))"
| load_end: "callers s t = AllocLoadEnd l current \<Longrightarrow>
    alloc_step A s (set_caller s t (after_loads l current (heap_end (shared_heap s))))"
| cas_ok: "callers s t = AllocCas l current aligned limit \<Longrightarrow> bump_next (shared_heap s) = current \<Longrightarrow>
    alloc_step A s (set_caller (s\<lparr>shared_heap := (shared_heap s)\<lparr>bump_next := limit\<rparr>,
        granted := (l, aligned) # granted s\<rparr>) t (AllocReturn l aligned))"
| cas_fail: "callers s t = AllocCas l current aligned limit \<Longrightarrow> bump_next (shared_heap s) \<noteq> current \<Longrightarrow>
    alloc_step A s (set_caller s t (AllocLoadNext l))"
| return: "callers s t = AllocReturn l p \<Longrightarrow> alloc_step A s (set_caller s t AllocIdle)"

definition heap_system_init :: "BumpAllocator \<Rightarrow> heap_system" where
  "heap_system_init h = \<lparr>shared_heap = h, callers = (\<lambda>_. AllocIdle), granted = []\<rparr>"

section \<open>Invariant\<close>

text \<open>What a caller knows at each point of the loop.\<close>

fun caller_ok :: "nat \<Rightarrow> BumpAllocator \<Rightarrow> alloc_pc \<Rightarrow> bool" where
  "caller_ok A h AllocIdle = True"
| "caller_ok A h (AllocLoadNext l) = layout_ok A l"
| "caller_ok A h (AllocLoadEnd l current) =
     (layout_ok A l \<and> heap_start h \<le> current \<and> unat current \<le> unat (heap_end h))"
| "caller_ok A h (AllocCas l current aligned limit) =
     (layout_ok A l \<and> heap_start h \<le> current \<and> unat current \<le> unat aligned \<and> aligned \<noteq> 0 \<and>
      unat limit = unat aligned + unat (lay_size l) \<and> unat limit \<le> unat (heap_end h) \<and>
      unat (lay_align l) dvd unat aligned)"
| "caller_ok A h (AllocReturn l p) = True"
| "caller_ok A h (AllocPanicked e) = False"

definition block_ok :: "BumpAllocator \<Rightarrow> Layout \<times> usize \<Rightarrow> bool" where
  "block_ok h b \<longleftrightarrow> unat (heap_start h) \<le> unat (snd b) \<and>
     unat (snd b) + unat (lay_size (fst b)) \<le> unat (bump_next h) \<and>
     unat (lay_align (fst b)) dvd unat (snd b)"

definition blocks_apart :: "Layout \<times> usize \<Rightarrow> Layout \<times> usize \<Rightarrow> bool" where
  "blocks_apart b c \<longleftrightarrow> block_extent (fst b) (snd b) \<inter> block_extent (fst c) (snd c) = {}"

definition heap_system_inv :: "nat \<Rightarrow> heap_system \<Rightarrow> bool" where
  "heap_system_inv A s \<longleftrightarrow> heap_wf A (shared_heap s) \<and> heap_start (shared_heap s) \<noteq> 0 \<and>
     (\<forall>t. caller_ok A (shared_heap s) (callers s t)) \<and>
     (\<forall>t l p. callers s t = AllocReturn l p \<longrightarrow> p \<noteq> 0 \<longrightarrow> (l, p) \<in> set (granted s)) \<and>
     list_all (block_ok (shared_heap s)) (granted s) \<and> sorted_wrt blocks_apart (granted s)"

lemma after_loads_ok:
  assumes "layout_ok A l" and "heap_wf A h" and "heap_start h \<noteq> 0"
    and "heap_start h \<le> current" and "unat current \<le> unat (heap_end h)"
  shows "caller_ok A h (after_loads l current (heap_end h))"
proof -
  let ?p = "round_up (unat (lay_align l)) (unat current)"
  have b: "unat current + A \<le> 18446744073709551616" "unat (heap_end h) + A \<le> 18446744073709551616"
    using assms(2,5) by (auto simp: heap_wf_def)
  have nz: "current \<noteq> 0" using assms(3,4) by auto
  note a = alloc_attempt_spec [OF assms(1) b(1) nz b(2)]
  note r = layout_ok_round_up [OF assms(1), of "unat current"]
  show ?thesis
  proof (cases "?p + unat (lay_size l) \<le> unat (heap_end h)")
    case True
    then have lt: "?p + unat (lay_size l) < 18446744073709551616"
      using unat_u64_bound [of "heap_end h"] by linarith
    then have u: "unat (word_of_nat ?p :: u64) = ?p"
      "unat (word_of_nat (?p + unat (lay_size l)) :: u64) = ?p + unat (lay_size l)"
      by (simp_all add: unat_of_nat del: of_nat_add)
    have "0 < ?p" using r(1) nz by (metis gr0I le_zero_eq unat_eq_0)
    then have "word_of_nat ?p \<noteq> (0 :: u64)" using u(1) by auto
    then show ?thesis
      using a(1) [OF True] u r True assms(1,4) by (simp add: after_loads_def del: of_nat_add)
  next
    case False
    then show ?thesis using a(2) by (simp add: after_loads_def)
  qed
qed

lemma caller_ok_bump:
  "caller_ok A (h\<lparr>bump_next := n\<rparr>) pc = caller_ok A h pc"
  by (cases pc) auto

lemma block_ok_bump:
  "block_ok h b \<Longrightarrow> unat (bump_next h) \<le> unat n \<Longrightarrow> block_ok (h\<lparr>bump_next := n\<rparr>) b"
  by (auto simp: block_ok_def)

lemma heap_system_inv_set_caller:
  "heap_system_inv A s \<Longrightarrow> caller_ok A (shared_heap s) pc \<Longrightarrow> (\<And>l p. pc = AllocReturn l p \<Longrightarrow> p \<noteq> 0 \<Longrightarrow> (l, p) \<in> set (granted s)) \<Longrightarrow>
   heap_system_inv A (set_caller s t pc)"
  by (auto simp: heap_system_inv_def set_caller_def)

lemma after_loads_return: "after_loads l current stop = AllocReturn l' p \<Longrightarrow> p = 0"
  by (auto simp: after_loads_def split: attempt.splits)

text \<open>The bounds of the heap are never written by \<open>alloc\<close>.\<close>

lemma alloc_step_bounds:
  "alloc_step A s s' \<Longrightarrow> heap_start (shared_heap s') = heap_start (shared_heap s) \<and> heap_end (shared_heap s') = heap_end (shared_heap s)"
  by (erule alloc_step.cases) (simp_all add: set_caller_def)

lemma alloc_steps_bounds:
  "(alloc_step A)\<^sup>*\<^sup>* s s' \<Longrightarrow> heap_start (shared_heap s') = heap_start (shared_heap s) \<and> heap_end (shared_heap s') = heap_end (shared_heap s)"
  by (induction rule: rtranclp_induct) (auto dest: alloc_step_bounds)

lemma alloc_step_inv:
  assumes "heap_system_inv A s" and "alloc_step A s s'"
  shows "heap_system_inv A s'"
  using assms(2,1)
proof (cases rule: alloc_step.cases)
  case (call t l)
  then show ?thesis using assms(1) by (auto intro!: heap_system_inv_set_caller)
next
  case (load_next t l)
  have "layout_ok A l" using assms(1) load_next(2) by (auto simp: heap_system_inv_def dest: spec [of _ t])
  then have "caller_ok A (shared_heap s) (AllocLoadEnd l (bump_next (shared_heap s)))"
    using assms(1) by (auto simp: heap_system_inv_def heap_wf_def word_le_nat_alt)
  with load_next assms(1) show ?thesis by (auto intro: heap_system_inv_set_caller)
next
  case (load_end t l current)
  have "caller_ok A (shared_heap s) (AllocLoadEnd l current)"
    using assms(1) load_end(2) by (auto simp: heap_system_inv_def dest: spec [of _ t])
  then have "caller_ok A (shared_heap s) (after_loads l current (heap_end (shared_heap s)))"
    using assms(1) by (intro after_loads_ok) (auto simp: heap_system_inv_def)
  with load_end assms(1) show ?thesis by (auto intro!: heap_system_inv_set_caller dest: after_loads_return)
next
  case (cas_ok t l current aligned limit)
  let ?h = "shared_heap s"
  have c: "caller_ok A ?h (AllocCas l current aligned limit)"
    using assms(1) cas_ok(2) by (auto simp: heap_system_inv_def dest: spec [of _ t])
  let ?s = "s\<lparr>shared_heap := ?h\<lparr>bump_next := limit\<rparr>, granted := (l, aligned) # granted s\<rparr>"
  have up: "unat (bump_next ?h) \<le> unat limit" using c cas_ok(3) by simp
  have "heap_wf A (?h\<lparr>bump_next := limit\<rparr>)"
    using assms(1) c up by (auto simp: heap_system_inv_def heap_wf_def word_le_nat_alt)
  moreover have "list_all (block_ok (?h\<lparr>bump_next := limit\<rparr>)) (granted ?s)"
    using assms(1) c up block_ok_bump [of ?h _ limit]
    by (auto simp: heap_system_inv_def list_all_iff block_ok_def word_le_nat_alt)
  moreover have "sorted_wrt blocks_apart (granted ?s)"
    using assms(1) c cas_ok(3)
    by (fastforce simp: heap_system_inv_def list_all_iff block_ok_def blocks_apart_def block_extent_def)
  ultimately have "heap_system_inv A ?s"
    using assms(1) by (simp add: heap_system_inv_def caller_ok_bump)
  then show ?thesis using cas_ok(1) by (auto intro: heap_system_inv_set_caller)
next
  case (cas_fail t l current aligned limit)
  have "layout_ok A l" using assms(1) cas_fail(2) by (auto simp: heap_system_inv_def dest: spec [of _ t])
  then show ?thesis using cas_fail assms(1) by (auto intro: heap_system_inv_set_caller)
next
  case (return t l p)
  then show ?thesis using assms(1) by (auto intro: heap_system_inv_set_caller)
qed

interpretation heap_callers: invariant_system "alloc_step A" "heap_system_inv A" for A :: nat
  by unfold_locales (rule alloc_step_inv)

lemma heap_system_init_inv:
  "heap_wf A h \<Longrightarrow> heap_start h \<noteq> 0 \<Longrightarrow> heap_system_inv A (heap_system_init h)"
  by (simp add: heap_system_inv_def heap_system_init_def)

section \<open>A race\<close>

text \<open>Two callers load the same bump pointer; the first compare-exchange wins and the second caller
  starts over.\<close>

lemma example_after_loads:
  "after_loads example_layout 0x1000 0x21000 = AllocCas example_layout 0x1000 0x1000 0x1018"
  by (simp add: after_loads_def example_layout_def alloc_attempt_def saturating_sub_def add_chk_def
      checked_add_def Let_def)

lemma example_race:
  "\<exists>s. (alloc_step 8)\<^sup>*\<^sup>* (heap_system_init example_heap) s \<and>
     granted s = [(example_layout, 0x1000)] \<and> callers s 1 = AllocLoadNext example_layout"
proof -
  let ?s0 = "heap_system_init example_heap"
  let ?s1 = "set_caller ?s0 0 (AllocLoadNext example_layout)"
  let ?s2 = "set_caller ?s1 1 (AllocLoadNext example_layout)"
  let ?s3 = "set_caller ?s2 0 (AllocLoadEnd example_layout 0x1000)"
  let ?s4 = "set_caller ?s3 1 (AllocLoadEnd example_layout 0x1000)"
  let ?c = "AllocCas example_layout 0x1000 0x1000 0x1018"
  let ?s5 = "set_caller ?s4 0 ?c"
  let ?s6 = "set_caller ?s5 1 ?c"
  let ?s7 = "set_caller (?s6\<lparr>shared_heap := (shared_heap ?s6)\<lparr>bump_next := 0x1018\<rparr>,
      granted := (example_layout, 0x1000) # granted ?s6\<rparr>) 0 (AllocReturn example_layout 0x1000)"
  let ?s8 = "set_caller ?s7 1 (AllocLoadNext example_layout)"
  note defs = set_caller_def heap_system_init_def example_heap_def
  have 1: "alloc_step 8 ?s0 ?s1"
    by (rule alloc_step.call) (simp_all add: defs example_layout_ok)
  have 2: "alloc_step 8 ?s1 ?s2"
    by (rule alloc_step.call) (simp_all add: defs example_layout_ok)
  have 3: "alloc_step 8 ?s2 ?s3"
    using alloc_step.load_next [where A = 8, of ?s2 0 example_layout] by (simp add: defs)
  have 4: "alloc_step 8 ?s3 ?s4"
    using alloc_step.load_next [where A = 8, of ?s3 1 example_layout] by (simp add: defs)
  have 5: "alloc_step 8 ?s4 ?s5"
    using alloc_step.load_end [where A = 8, of ?s4 0 example_layout "0x1000"] by (simp add: defs example_after_loads)
  have 6: "alloc_step 8 ?s5 ?s6"
    using alloc_step.load_end [where A = 8, of ?s5 1 example_layout "0x1000"] by (simp add: defs example_after_loads)
  have 7: "alloc_step 8 ?s6 ?s7"
    by (rule alloc_step.cas_ok) (simp_all add: defs)
  have 8: "alloc_step 8 ?s7 ?s8"
    using alloc_step.cas_fail [where A = 8, of ?s7 1 example_layout "0x1000" "0x1000" "0x1018"]
    by (simp add: defs word_unat_eq_iff)
  have "(alloc_step 8)\<^sup>*\<^sup>* ?s0 ?s8"
    using 1 2 3 4 5 6 7 8 by (meson rtranclp.rtrancl_refl rtranclp.rtrancl_into_rtrancl)
  then show ?thesis by (intro exI [of _ ?s8]) (simp add: defs)
qed

section \<open>Properties\<close>

text \<open>(C9) The lock-free heap is safe under concurrency: whatever the interleaving of any number of
  callers, the blocks granted so far are pairwise disjoint, aligned as requested and inside the heap the
  allocator was set up with, below its bump pointer; a pointer that a caller is about to return is null or one of
  these blocks; and no caller panics.\<close>

theorem heap_concurrent_blocks_disjoint:
  assumes "heap_wf A h" and "heap_start h \<noteq> 0" and "(alloc_step A)\<^sup>*\<^sup>* (heap_system_init h) s"
  shows "sorted_wrt blocks_apart (granted s) \<and> list_all (block_ok (shared_heap s)) (granted s) \<and>
    (\<forall>(l, p) \<in> set (granted s). unat (heap_start h) \<le> unat p \<and> unat p + unat (lay_size l) \<le> unat (heap_end h) \<and>
       unat (lay_align l) dvd unat p) \<and>
    (\<forall>t l p. callers s t = AllocReturn l p \<longrightarrow> p = 0 \<or> (l, p) \<in> set (granted s)) \<and>
    (\<nexists>t e. callers s t = AllocPanicked e)"
proof -
  from heap_callers.steps_inv [OF assms(3)] heap_system_init_inv [OF assms(1,2)]
  have inv: "heap_system_inv A s" by blast
  then have ok: "callers s t \<noteq> AllocPanicked e" for t e
    unfolding heap_system_inv_def by (metis caller_ok.simps(6))
  have "heap_start (shared_heap s) = heap_start h" "heap_end (shared_heap s) = heap_end h"
    using alloc_steps_bounds [OF assms(3)] by (simp_all add: heap_system_init_def)
  then have "\<forall>(l, p) \<in> set (granted s). unat (heap_start h) \<le> unat p \<and> unat p + unat (lay_size l) \<le> unat (heap_end h) \<and>
       unat (lay_align l) dvd unat p"
    using inv by (fastforce simp: heap_system_inv_def heap_wf_def list_all_iff block_ok_def word_le_nat_alt)
  moreover have "\<forall>t l p. callers s t = AllocReturn l p \<longrightarrow> p = 0 \<or> (l, p) \<in> set (granted s)"
    using inv unfolding heap_system_inv_def by blast
  ultimately show ?thesis using inv ok by (simp add: heap_system_inv_def)
qed

theorem heap_concurrent_blocks_disjoint_witness:
  "\<exists>s. (alloc_step 8)\<^sup>*\<^sup>* (heap_system_init example_heap) s \<and> granted s = [(example_layout, 0x1000)] \<and>
     callers s 1 = AllocLoadNext example_layout \<and>
     list_all (block_ok (shared_heap s)) (granted s) \<and> 0x1000 + unat (lay_size example_layout) \<le> unat (heap_end example_heap)"
proof -
  from example_race obtain s where s: "(alloc_step 8)\<^sup>*\<^sup>* (heap_system_init example_heap) s"
    "granted s = [(example_layout, 0x1000)]" "callers s 1 = AllocLoadNext example_layout" by blast
  have "heap_start example_heap \<noteq> 0" by (simp add: example_heap_def)
  from heap_concurrent_blocks_disjoint [OF example_heap_wf this s(1)] s show ?thesis by auto
qed

end
