(* ===== verification/Bootinfo.thy ===== *)
theory Bootinfo
  imports Aether_Prelude
begin

text \<open>
  The boot information contract of \<^verbatim>\<open>crates/aether-bootinfo/src/lib.rs\<close>: what the boot layer hands
  to the generic kernel.  Arrays are lists of the declared length (\<open>boot_info_wf\<close>).
\<close>

definition MAX_MEMORY_REGIONS :: nat where
  "MAX_MEMORY_REGIONS = 64"

declare MAX_MEMORY_REGIONS_def [layout_simps]

datatype MemoryRegionKind =
  Usable | Reserved | Reclaimable | KernelRegion | FramebufferRegion | UnknownRegion

record MemoryRegion =
  mr_base :: u64
  mr_length :: u64
  mr_kind :: MemoryRegionKind

definition MemoryRegion_EMPTY :: MemoryRegion where
  "MemoryRegion_EMPTY = \<lparr>mr_base = 0, mr_length = 0, mr_kind = Reserved\<rparr>"

definition MemoryRegion_new :: "u64 \<Rightarrow> u64 \<Rightarrow> MemoryRegionKind \<Rightarrow> MemoryRegion" where
  "MemoryRegion_new base len kind = \<lparr>mr_base = base, mr_length = len, mr_kind = kind\<rparr>"

definition MemoryRegion_end :: "MemoryRegion \<Rightarrow> u64" where
  "MemoryRegion_end self = saturating_add (mr_base self) (mr_length self)"

record FramebufferInfo =
  fb_address :: u64
  fb_width :: u32
  fb_height :: u32
  fb_pitch :: u32
  fb_bpp :: u16

definition FramebufferInfo_new :: "u64 \<Rightarrow> u32 \<Rightarrow> u32 \<Rightarrow> u32 \<Rightarrow> u16 \<Rightarrow> FramebufferInfo" where
  "FramebufferInfo_new address width height pitch bpp =
     \<lparr>fb_address = address, fb_width = width, fb_height = height, fb_pitch = pitch, fb_bpp = bpp\<rparr>"

record BootInfo =
  hhdm_offset :: u64
  memory_map_entries :: nat
  framebuffer :: "FramebufferInfo option"
  memory_regions :: "MemoryRegion list"

definition BootInfo_new ::
  "u64 \<Rightarrow> nat \<Rightarrow> FramebufferInfo option \<Rightarrow> MemoryRegion list \<Rightarrow> BootInfo" where
  "BootInfo_new offset entries fb regions =
     \<lparr>hhdm_offset = offset, memory_map_entries = entries, framebuffer = fb,
      memory_regions = regions\<rparr>"

definition boot_info_wf :: "BootInfo \<Rightarrow> bool" where
  "boot_info_wf b \<longleftrightarrow> length (memory_regions b) = MAX_MEMORY_REGIONS"

text \<open>The end of a region saturates instead of wrapping around the address space.\<close>

lemma unat_MemoryRegion_end:
  "unat (MemoryRegion_end r) = min (unat (mr_base r) + unat (mr_length r)) (2 ^ 64 - 1)"
  by (simp add: MemoryRegion_end_def unat_saturating_add)

lemma MemoryRegion_end_ge_base: "mr_base r \<le> MemoryRegion_end r"
  using unat_u64_bound [of "mr_base r"] by (simp add: word_le_nat_alt unat_MemoryRegion_end)

end
