(* ===== verification/Frame_Allocator.thy ===== *)
theory Frame_Allocator
  imports Bootinfo
begin

text \<open>
  The physical frame allocator of \<^verbatim>\<open>kernel/src/memory/frame_allocator.rs\<close>: the scan of the boot
  memory map into usable page-aligned ranges, and the allocator that walks them.  This theory
  treats one caller at a time, for which every compare-exchange finds the value just loaded.
\<close>

section \<open>Model\<close>

definition FRAME_SIZE :: u64 where
  "FRAME_SIZE = 4096"

definition MAX_USABLE_RANGES :: nat where
  "MAX_USABLE_RANGES = 32"

declare FRAME_SIZE_def [layout_simps] MAX_USABLE_RANGES_def [layout_simps]

record UsableFrameRange =
  ufr_start :: u64
  ufr_end :: u64

definition UsableFrameRange_EMPTY :: UsableFrameRange where
  "UsableFrameRange_EMPTY = \<lparr>ufr_start = 0, ufr_end = 0\<rparr>"

definition UsableFrameRange_new :: "u64 \<Rightarrow> u64 \<Rightarrow> UsableFrameRange" where
  "UsableFrameRange_new start stop = \<lparr>ufr_start = start, ufr_end = stop\<rparr>"

record FrameAllocator =
  ranges :: "UsableFrameRange list"
  range_count :: nat
  current_range :: nat
  current_frame :: u64

text \<open>\<open>u64::is_multiple_of\<close> and the remainder operator, which panics on a zero divisor.\<close>

definition is_multiple_of :: "u64 \<Rightarrow> u64 \<Rightarrow> bool" where
  "is_multiple_of a b = (if b = 0 then a = 0 else a mod b = 0)"

definition rem_chk :: "u64 \<Rightarrow> u64 \<Rightarrow> u64 res" where
  "rem_chk a b = (if b = 0 then Inl DivisionByZero else Inr (a mod b))"

definition align_up :: "u64 \<Rightarrow> u64 \<Rightarrow> u64 res" where
  "align_up value align =
     (if is_multiple_of value align then Inr value
      else rbind (rem_chk value align) (\<lambda>r. rbind (sub_chk align r) (\<lambda>d. add_chk value d)))"

definition align_down :: "u64 \<Rightarrow> u64 \<Rightarrow> u64 res" where
  "align_down value align = rbind (rem_chk value align) (\<lambda>r. sub_chk value r)"

definition FrameAllocator_new :: "UsableFrameRange list \<Rightarrow> nat \<Rightarrow> FrameAllocator res" where
  "FrameAllocator_new rs count =
     rbind (if 0 < count then rbind (index_chk rs 0) (\<lambda>r. Inr (ufr_start r)) else Inr 0)
       (\<lambda>initial_start. Inr \<lparr>ranges = rs, range_count = count, current_range = 0,
          current_frame = initial_start\<rparr>)"

definition advance_range :: "FrameAllocator \<Rightarrow> nat \<Rightarrow> (bool \<times> FrameAllocator) res" where
  "advance_range self range_index =
     (let next_range = range_index + 1 in
      if range_count self \<le> next_range then
        Inr (False, self\<lparr>current_range := range_count self\<rparr>)
      else if current_range self = range_index then
        rbind (index_chk (ranges self) next_range) (\<lambda>r.
          Inr (True, self\<lparr>current_range := next_range, current_frame := ufr_start r\<rparr>))
      else Inr (True, self))"

function FrameAllocator_allocate_frame :: "FrameAllocator \<Rightarrow> (u64 option \<times> FrameAllocator) res" where
  "FrameAllocator_allocate_frame self =
     (let range_index = current_range self in
      if range_count self \<le> range_index then Inr (None, self)
      else rbind (index_chk (ranges self) range_index) (\<lambda>range.
        let current = current_frame self in
        if current < ufr_start range \<or> ufr_end range \<le> current then
          rbind (advance_range self range_index) (\<lambda>(advanced, self').
            if \<not> advanced then Inr (None, self') else FrameAllocator_allocate_frame self')
        else rbind (add_chk current FRAME_SIZE) (\<lambda>next.
          if ufr_end range < next then
            rbind (advance_range self range_index) (\<lambda>(advanced, self').
              if \<not> advanced then
                rbind (add_chk current FRAME_SIZE) (\<lambda>top.
                  Inr (if top \<le> ufr_end range then Some current else None, self'))
              else FrameAllocator_allocate_frame self')
          else if current_frame self = current then
            Inr (Some current, self\<lparr>current_frame := next\<rparr>)
          else FrameAllocator_allocate_frame self)))"
  by pat_completeness auto
termination
  by (relation "measure (\<lambda>a. range_count a - current_range a)")
    (auto simp: advance_range_def Let_def rbind_eq_Inr_iff split: if_splits)

declare FrameAllocator_allocate_frame.simps [simp del]

text \<open>The module's statics and entry points.  \<open>Once\<close> keeps the first value it is given.\<close>

record frame_state =
  ALLOCATOR :: "FrameAllocator option"
  USABLE_FRAME_COUNT :: usize
  USABLE_RANGE_COUNT :: nat

definition frame_state_init :: frame_state where
  "frame_state_init = \<lparr>ALLOCATOR = None, USABLE_FRAME_COUNT = 0, USABLE_RANGE_COUNT = 0\<rparr>"

definition push_range ::
  "UsableFrameRange list \<times> nat \<Rightarrow> u64 \<Rightarrow> u64 \<Rightarrow> (UsableFrameRange list \<times> nat) res" where
  "push_range acc aligned_start aligned_end =
     (case acc of (rs, count) \<Rightarrow>
       if count < MAX_USABLE_RANGES then
         rbind (update_chk rs count (UsableFrameRange_new aligned_start aligned_end))
           (\<lambda>rs'. Inr (rs', count + 1))
       else Inr (rs, count))"

fun scan_regions ::
  "MemoryRegion list \<Rightarrow> UsableFrameRange list \<times> nat \<Rightarrow> usize \<Rightarrow>
   ((UsableFrameRange list \<times> nat) \<times> usize) res" where
  "scan_regions [] acc total_frames = Inr (acc, total_frames)"
| "scan_regions (region # rest) acc total_frames =
     (if mr_kind region \<noteq> Usable \<or> mr_length region < FRAME_SIZE then
        scan_regions rest acc total_frames
      else rbind (align_up (mr_base region) FRAME_SIZE) (\<lambda>aligned_start.
        rbind (align_down (MemoryRegion_end region) FRAME_SIZE) (\<lambda>aligned_end.
          if aligned_end \<le> aligned_start then scan_regions rest acc total_frames
          else rbind (push_range acc aligned_start aligned_end) (\<lambda>acc'.
            rbind (sub_chk aligned_end aligned_start) (\<lambda>span.
              rbind (add_chk total_frames (span div FRAME_SIZE)) (\<lambda>total'.
                scan_regions rest acc' total'))))))"

definition frame_allocator_initialize :: "frame_state \<Rightarrow> BootInfo \<Rightarrow> frame_state res" where
  "frame_allocator_initialize st boot_info =
     rbind (scan_regions
         (take (min (memory_map_entries boot_info) (length (memory_regions boot_info)))
            (memory_regions boot_info))
         (replicate MAX_USABLE_RANGES UsableFrameRange_EMPTY, 0) 0)
       (\<lambda>((rs, count), total_frames).
         let st' = st\<lparr>USABLE_FRAME_COUNT := total_frames, USABLE_RANGE_COUNT := count\<rparr> in
         (case ALLOCATOR st' of
            Some _ \<Rightarrow> Inr st'
          | None \<Rightarrow> rbind (FrameAllocator_new rs count) (\<lambda>a. Inr (st'\<lparr>ALLOCATOR := Some a\<rparr>))))"

definition allocate_frame :: "frame_state \<Rightarrow> (u64 option \<times> frame_state) res" where
  "allocate_frame st =
     (case ALLOCATOR st of
        None \<Rightarrow> Inr (None, st)
      | Some a \<Rightarrow> rbind (FrameAllocator_allocate_frame a)
          (\<lambda>(f, a'). Inr (f, st\<lparr>ALLOCATOR := Some a'\<rparr>)))"

definition usable_frame_count :: "frame_state \<Rightarrow> usize" where
  "usable_frame_count st = USABLE_FRAME_COUNT st"

definition usable_range_count :: "frame_state \<Rightarrow> nat" where
  "usable_range_count st = USABLE_RANGE_COUNT st"

section \<open>Page alignment\<close>

lemma unat_FRAME_SIZE [simp]: "unat FRAME_SIZE = 4096"
  by (simp add: FRAME_SIZE_def)

lemma FRAME_SIZE_nonzero [simp]: "FRAME_SIZE \<noteq> 0"
  by (simp add: FRAME_SIZE_def)

lemma mod_FRAME_SIZE_eq_0: "v mod FRAME_SIZE = 0 \<longleftrightarrow> 4096 dvd unat v"
  by (simp add: word_unat_eq_iff unat_mod_distrib dvd_eq_mod_eq_0)

lemma align_down_frame: "\<exists>w. align_down v FRAME_SIZE = Inr w \<and> unat w = unat v div 4096 * 4096"
proof -
  have "v mod FRAME_SIZE \<le> v" by (simp add: word_le_nat_alt unat_mod_distrib)
  then have "align_down v FRAME_SIZE = Inr (v - v mod FRAME_SIZE)"
    by (simp add: align_down_def rem_chk_def sub_chk_def)
  moreover have "unat (v - v mod FRAME_SIZE) = unat v div 4096 * 4096"
    unfolding unat_sub [OF \<open>v mod FRAME_SIZE \<le> v\<close>]
    by (simp add: unat_mod_distrib minus_mod_eq_div_mult)
  ultimately show ?thesis by blast
qed

lemma frame_split:
  fixes n :: nat
  obtains q r where "n = 4096 * q + r" and "r < 4096" and "n mod 4096 = r"
    and "(n + 4095) div 4096 * 4096 = (if r = 0 then n else n + (4096 - r))"
    and "4096 dvd n \<longleftrightarrow> r = 0"
proof -
  let ?q = "n div 4096" and ?r = "n mod 4096"
  have n: "n = 4096 * ?q + ?r" "?r < 4096" by simp_all
  have up: "(n + 4095) div 4096 = ?q + (?r + 4095) div 4096"
    using n(1) by (metis add.assoc div_mult_self4 zero_neq_numeral)
  have "(?r + 4095) div 4096 = (if ?r = 0 then 0 else 1)"
  proof (cases "?r = 0")
    case False
    then have "4096 \<le> ?r + 4095" "?r + 4095 < 4096 * 2" using n(2) by linarith+
    then show ?thesis using False by (simp add: div_nat_eqI)
  qed simp
  with up have "(n + 4095) div 4096 * 4096 = ?q * 4096 + (if ?r = 0 then 0 else 4096)" by simp
  then have "(n + 4095) div 4096 * 4096 = (if ?r = 0 then n else n + (4096 - ?r))"
    using n by (cases "?r = 0", simp, simp only: if_False, linarith)
  with n show thesis using that [of ?q ?r] by (simp add: dvd_eq_mod_eq_0)
qed

lemma align_up_gap:
  fixes v :: u64
  assumes "\<not> 4096 dvd unat v"
  shows "align_up v FRAME_SIZE = add_chk v (FRAME_SIZE - v mod FRAME_SIZE)"
    and "unat (FRAME_SIZE - v mod FRAME_SIZE) = 4096 - unat v mod 4096"
proof -
  have le: "v mod FRAME_SIZE \<le> FRAME_SIZE"
    by (simp add: word_le_nat_alt unat_mod_distrib less_imp_le)
  show "align_up v FRAME_SIZE = add_chk v (FRAME_SIZE - v mod FRAME_SIZE)"
    using assms le
    by (simp add: align_up_def is_multiple_of_def rem_chk_def sub_chk_def mod_FRAME_SIZE_eq_0)
  show "unat (FRAME_SIZE - v mod FRAME_SIZE) = 4096 - unat v mod 4096"
    using le by (simp add: unat_sub unat_mod_distrib)
qed

lemma align_up_frame:
  assumes "unat v \<le> 18446744073709547520"
  shows "\<exists>w. align_up v FRAME_SIZE = Inr w \<and> unat w = (unat v + 4095) div 4096 * 4096"
proof (cases "4096 dvd unat v")
  case True
  then have "align_up v FRAME_SIZE = Inr v"
    by (simp add: align_up_def is_multiple_of_def mod_FRAME_SIZE_eq_0)
  moreover have "unat v = (unat v + 4095) div 4096 * 4096"
    using True by (rule_tac n = "unat v" in frame_split) simp
  ultimately show ?thesis by metis
next
  case False
  note gap = align_up_gap [OF False]
  obtain q r where v: "unat v = 4096 * q + r" "r < 4096" "unat v mod 4096 = r"
    "(unat v + 4095) div 4096 * 4096 = (if r = 0 then unat v else unat v + (4096 - r))"
    "4096 dvd unat v \<longleftrightarrow> r = 0"
    by (rule frame_split [of "unat v"])
  have "unat v + (4096 - unat v mod 4096) < 18446744073709551616" using assms False v by linarith
  then have "align_up v FRAME_SIZE = Inr (v + (FRAME_SIZE - v mod FRAME_SIZE))"
    and "unat (v + (FRAME_SIZE - v mod FRAME_SIZE)) = unat v + (4096 - unat v mod 4096)"
    using gap by (simp_all add: add_chk_def unat_plus_exact)
  with False v show ?thesis by simp
qed

lemma align_up_overflow:
  assumes "18446744073709547520 < unat v"
  shows "align_up v FRAME_SIZE = Inl ArithmeticOverflow"
proof -
  obtain q r where v: "unat v = 4096 * q + r" "r < 4096" "unat v mod 4096 = r"
    "4096 dvd unat v \<longleftrightarrow> r = 0"
    by (rule frame_split [of "unat v"])
  have q: "q = 4503599627370495" using assms unat_u64_bound [of v] v(1,2) by linarith
  with assms v(1,4) have nd: "\<not> 4096 dvd unat v" by auto
  note gap = align_up_gap [OF this]
  have "18446744073709551616 \<le> unat v + (4096 - unat v mod 4096)" using q v(1,2,3) by linarith
  then show ?thesis using gap by (simp add: add_chk_def)
qed

section \<open>The scan of the memory map\<close>

text \<open>What the scan is meant to compute: the page-aligned interior of a usable region.\<close>

definition span_of :: "MemoryRegion \<Rightarrow> (nat \<times> nat) option" where
  "span_of r =
     (let s = (unat (mr_base r) + 4095) div 4096 * 4096;
          e = unat (MemoryRegion_end r) div 4096 * 4096
      in if mr_kind r = Usable \<and> s < e then Some (s, e) else None)"

definition spans_of :: "MemoryRegion list \<Rightarrow> (nat \<times> nat) list" where
  "spans_of rs = List.map_filter span_of rs"

definition range_of_span :: "nat \<times> nat \<Rightarrow> UsableFrameRange" where
  "range_of_span p = UsableFrameRange_new (word_of_nat (fst p)) (word_of_nat (snd p))"

definition span_frames :: "nat \<times> nat \<Rightarrow> nat" where
  "span_frames p = (snd p - fst p) div 4096"

text \<open>No usable region of a page or more may start in the last page of the address space.\<close>

definition region_ok :: "MemoryRegion \<Rightarrow> bool" where
  "region_ok r \<longleftrightarrow> (mr_kind r = Usable \<and> 4096 \<le> unat (mr_length r) \<longrightarrow>
     unat (mr_base r) \<le> 18446744073709547520)"

definition padded :: "UsableFrameRange list \<Rightarrow> UsableFrameRange list" where
  "padded rs = rs @ replicate (MAX_USABLE_RANGES - length rs) UsableFrameRange_EMPTY"

lemma spans_of_simps [simp]:
  "spans_of [] = []"
  "spans_of (r # rs) = (case span_of r of None \<Rightarrow> spans_of rs | Some p \<Rightarrow> p # spans_of rs)"
  by (simp_all add: spans_of_def map_filter_simps split: option.split)

lemma span_of_SomeD:
  assumes "span_of r = Some p"
  shows "fst p < snd p" "4096 dvd fst p" "4096 dvd snd p" "snd p \<le> 18446744073709547520"
    "mr_kind r = Usable" "unat (mr_base r) \<le> fst p" "snd p \<le> unat (mr_base r) + unat (mr_length r)"
proof -
  let ?s = "(unat (mr_base r) + 4095) div 4096 * 4096"
  let ?e = "unat (MemoryRegion_end r) div 4096 * 4096"
  have p: "p = (?s, ?e)" and k: "mr_kind r = Usable" "?s < ?e"
    using assms by (auto simp: span_of_def Let_def split: if_splits)
  show "fst p < snd p" "4096 dvd fst p" "4096 dvd snd p" "mr_kind r = Usable" using p k by auto
  show "snd p \<le> 18446744073709547520" using p unat_u64_bound [of "MemoryRegion_end r"] by simp
  show "unat (mr_base r) \<le> fst p" using p by simp
  have "?e \<le> unat (MemoryRegion_end r)" by simp
  then show "snd p \<le> unat (mr_base r) + unat (mr_length r)"
    using p unat_MemoryRegion_end [of r] by simp
qed

text \<open>The explicit length test of the code never changes the outcome.\<close>

lemma span_of_short: "unat (mr_length r) < 4096 \<Longrightarrow> span_of r = None"
proof (rule ccontr)
  assume len: "unat (mr_length r) < 4096" and "span_of r \<noteq> None"
  then obtain p where p: "span_of r = Some p" by blast
  note d = span_of_SomeD [OF p]
  obtain a b where ab: "fst p = 4096 * a" "snd p = 4096 * b" using d(2,3) by (auto elim!: dvdE)
  with d(1) have "fst p + 4096 \<le> snd p" by simp
  with d(6,7) len show False by simp
qed

lemma padded_update:
  "length rs < MAX_USABLE_RANGES \<Longrightarrow> (padded rs)[length rs := r] = padded (rs @ [r])"
proof -
  assume "length rs < MAX_USABLE_RANGES"
  then obtain k where "MAX_USABLE_RANGES - length rs = Suc k"
    "MAX_USABLE_RANGES - Suc (length rs) = k" by (metis Suc_diff_Suc)
  then show ?thesis by (simp add: padded_def)
qed

lemma length_padded: "length rs \<le> MAX_USABLE_RANGES \<Longrightarrow> length (padded rs) = MAX_USABLE_RANGES"
  by (simp add: padded_def)

lemma push_range_padded:
  assumes "length rs \<le> MAX_USABLE_RANGES"
  shows "push_range (padded rs, length rs) s e =
    Inr (padded (take MAX_USABLE_RANGES (rs @ [UsableFrameRange_new s e])),
         min MAX_USABLE_RANGES (Suc (length rs)))"
  using assms
  by (cases "length rs = MAX_USABLE_RANGES")
    (auto simp: push_range_def panic_free length_padded padded_update)

lemma frames_in_range_u64:
  assumes "span_of r = Some p"
  shows "span_frames p \<le> 4503599627370496"
  using span_of_SomeD(4) [OF assms] by (simp add: span_frames_def)

lemma scan_one:
  assumes "region_ok r" and "mr_kind r = Usable" and "4096 \<le> unat (mr_length r)"
  obtains s e where "align_up (mr_base r) FRAME_SIZE = Inr s"
    and "align_down (MemoryRegion_end r) FRAME_SIZE = Inr e"
    and "span_of r = (if s < e then Some (unat s, unat e) else None)"
proof -
  from assms have "unat (mr_base r) \<le> 18446744073709547520" by (simp add: region_ok_def)
  from align_up_frame [OF this] obtain s where
    s: "align_up (mr_base r) FRAME_SIZE = Inr s" "unat s = (unat (mr_base r) + 4095) div 4096 * 4096"
    by blast
  from align_down_frame obtain e where
    e: "align_down (MemoryRegion_end r) FRAME_SIZE = Inr e"
      "unat e = unat (MemoryRegion_end r) div 4096 * 4096"
    by blast
  have "span_of r = (if s < e then Some (unat s, unat e) else None)"
    using assms(2) by (simp add: span_of_def Let_def s(2) e(2) word_less_nat_alt)
  with s(1) e(1) show thesis by (rule that)
qed

lemma scan_regions_spec:
  assumes "list_all region_ok regions" and "length L \<le> MAX_USABLE_RANGES"
    and "unat t + length regions * 4503599627370496 < 18446744073709551616"
  shows "\<exists>t'. scan_regions regions (padded L, length L) t =
      Inr ((padded (take MAX_USABLE_RANGES (L @ map range_of_span (spans_of regions))),
            min MAX_USABLE_RANGES (length L + length (spans_of regions))), t') \<and>
    unat t' = unat t + sum_list (map span_frames (spans_of regions))"
  using assms
proof (induction regions arbitrary: L t)
  case Nil
  then show ?case by simp
next
  case (Cons r rest)
  from Cons.prems(1) have ok: "region_ok r" "list_all region_ok rest" by simp_all
  have bound: "unat t + length rest * 4503599627370496 < 18446744073709551616"
    using Cons.prems(3) by simp
  show ?case
  proof (cases "mr_kind r = Usable \<and> 4096 \<le> unat (mr_length r)")
    case False
    then have "span_of r = None" using span_of_short [of r] by (auto simp: span_of_def Let_def)
    moreover have "mr_kind r \<noteq> Usable \<or> mr_length r < FRAME_SIZE"
      using False by (auto simp: word_less_nat_alt)
    ultimately show ?thesis using Cons.IH [OF ok(2) Cons.prems(2) bound] by simp
  next
    case True
    then have live: "\<not> (mr_kind r \<noteq> Usable \<or> mr_length r < FRAME_SIZE)"
      by (simp add: word_less_nat_alt)
    obtain s e where se: "align_up (mr_base r) FRAME_SIZE = Inr s"
      "align_down (MemoryRegion_end r) FRAME_SIZE = Inr e"
      "span_of r = (if s < e then Some (unat s, unat e) else None)"
      using True by (blast intro: scan_one [OF ok(1)])
    show ?thesis
    proof (cases "s < e")
      case False
      then have "e \<le> s" by simp
      with False se live Cons.IH [OF ok(2) Cons.prems(2) bound] show ?thesis by simp
    next
      case True
      let ?L = "take MAX_USABLE_RANGES (L @ [UsableFrameRange_new s e])"
      let ?d = "(e - s) div FRAME_SIZE"
      have d: "unat ?d = span_frames (unat s, unat e)"
        using True by (simp add: span_frames_def unat_div_distrib unat_sub less_imp_le)
      have dle: "span_frames (unat s, unat e) \<le> 4503599627370496"
        using frames_in_range_u64 [of r] se(3) True by simp
      have t1: "add_chk t ?d = Inr (t + ?d)" and ut1: "unat (t + ?d) = unat t + unat ?d"
        using Cons.prems(3) d dle by (simp_all add: add_chk_def unat_plus_exact)
      have len: "length ?L = min MAX_USABLE_RANGES (Suc (length L))" "length ?L \<le> MAX_USABLE_RANGES"
        by simp_all
      have b1: "unat (t + ?d) + length rest * 4503599627370496 < 18446744073709551616"
        using Cons.prems(3) d dle ut1 by simp
      have "\<not> e \<le> s" "s \<le> e" using True by simp_all
      then have step: "scan_regions (r # rest) (padded L, length L) t =
          scan_regions rest (padded ?L, length ?L) (t + ?d)"
        using live se(1,2) t1 push_range_padded [OF Cons.prems(2), of s e] len(1)
        by (simp add: sub_chk_def del: take_append length_take)
      have "UsableFrameRange_new s e = range_of_span (unat s, unat e)"
        by (simp add: range_of_span_def)
      then have takes: "take MAX_USABLE_RANGES (?L @ map range_of_span (spans_of rest)) =
          take MAX_USABLE_RANGES (L @ map range_of_span (spans_of (r # rest)))"
        using se(3) True Cons.prems(2)
        by (cases "length L = MAX_USABLE_RANGES") simp_all
      have counts: "min MAX_USABLE_RANGES (length ?L + length (spans_of rest)) =
          min MAX_USABLE_RANGES (length L + length (spans_of (r # rest)))"
        using se(3) True by auto
      show ?thesis
        using Cons.IH [OF ok(2) len(2) b1] se(3) True
        unfolding step takes counts ut1 d by auto
    qed
  qed
qed

section \<open>The allocator as a list of frames\<close>

definition frames_of :: "u64 \<Rightarrow> u64 \<Rightarrow> u64 list" where
  "frames_of s e = map (\<lambda>k. word_of_nat (unat s + 4096 * k)) [0..<(unat e - unat s) div 4096]"

definition range_frames :: "UsableFrameRange \<Rightarrow> u64 list" where
  "range_frames r = frames_of (ufr_start r) (ufr_end r)"

definition remaining :: "FrameAllocator \<Rightarrow> u64 list" where
  "remaining a =
     (if current_range a < range_count a then
        frames_of (current_frame a) (ufr_end (ranges a ! current_range a)) @
        concat (map range_frames (drop (Suc (current_range a)) (take (range_count a) (ranges a))))
      else [])"

definition range_wf :: "UsableFrameRange \<Rightarrow> bool" where
  "range_wf r \<longleftrightarrow> 4096 dvd unat (ufr_start r) \<and> 4096 dvd unat (ufr_end r) \<and> ufr_start r < ufr_end r"

definition alloc_wf :: "FrameAllocator \<Rightarrow> bool" where
  "alloc_wf a \<longleftrightarrow> range_count a \<le> length (ranges a) \<and>
     list_all range_wf (take (range_count a) (ranges a)) \<and>
     (current_range a < range_count a \<longrightarrow>
        4096 dvd unat (current_frame a) \<and>
        ufr_start (ranges a ! current_range a) \<le> current_frame a \<and>
        current_frame a \<le> ufr_end (ranges a ! current_range a))"

lemma frames_of_refl [simp]: "frames_of s s = []"
  by (simp add: frames_of_def)

lemma aligned_less_gap:
  assumes "4096 dvd (m::nat)" and "4096 dvd n" and "m < n"
  shows "m + 4096 \<le> n"
proof -
  obtain a b where "m = 4096 * a" "n = 4096 * b" using assms(1,2) by (auto elim!: dvdE)
  with assms(3) show ?thesis by simp
qed

lemma frames_of_step:
  assumes "4096 dvd unat s" and "4096 dvd unat e" and "s < e"
  shows "frames_of s e = s # frames_of (s + FRAME_SIZE) e"
    and "add_chk s FRAME_SIZE = Inr (s + FRAME_SIZE)"
    and "s + FRAME_SIZE \<le> e"
    and "4096 dvd unat (s + FRAME_SIZE)"
proof -
  have gap: "unat s + 4096 \<le> unat e"
    using aligned_less_gap [OF assms(1,2)] assms(3) by (simp add: word_less_nat_alt)
  have lt: "unat s + 4096 < 18446744073709551616" using gap unat_u64_bound [of e] by simp
  then show "add_chk s FRAME_SIZE = Inr (s + FRAME_SIZE)" by (simp add: add_chk_def)
  have us: "unat (s + FRAME_SIZE) = unat s + 4096" using lt by (simp add: unat_plus_exact)
  then show "s + FRAME_SIZE \<le> e" using gap by (simp add: word_le_nat_alt)
  show "4096 dvd unat (s + FRAME_SIZE)" using us assms(1) by simp
  have "(unat e - unat s) div 4096 = Suc ((unat e - (unat s + 4096)) div 4096)"
    using gap by (simp add: div_if [of "unat e - unat s"])
  then have "frames_of s e = map (\<lambda>k. word_of_nat (unat s + 4096 * k))
      (0 # map Suc [0..<(unat e - (unat s + 4096)) div 4096])"
    by (simp only: frames_of_def upt_conv_Cons zero_less_Suc map_Suc_upt)
  then show "frames_of s e = s # frames_of (s + FRAME_SIZE) e"
    by (simp add: frames_of_def us add.assoc)
qed

lemma alloc_wf_range:
  assumes "alloc_wf a" and "i < range_count a"
  shows "range_wf (ranges a ! i)" and "i < length (ranges a)"
  using assms by (auto simp: alloc_wf_def list_all_length)

lemma remaining_advance:
  assumes "Suc i < range_count a" and "range_count a \<le> length (ranges a)"
  shows "concat (map range_frames (drop (Suc i) (take (range_count a) (ranges a)))) =
    remaining (a\<lparr>current_range := Suc i, current_frame := ufr_start (ranges a ! Suc i)\<rparr>)"
proof -
  have "drop (Suc i) (take (range_count a) (ranges a)) =
      ranges a ! Suc i # drop (Suc (Suc i)) (take (range_count a) (ranges a))"
    using assms by (metis Cons_nth_drop_Suc length_take min.absorb2 nth_take)
  with assms show ?thesis by (simp add: remaining_def range_frames_def)
qed

text \<open>
  One call pops the head of \<open>remaining\<close>, and reports \<open>None\<close> exactly when nothing remains.
\<close>

lemma FrameAllocator_allocate_frame_spec:
  "alloc_wf a \<Longrightarrow> \<exists>a'. FrameAllocator_allocate_frame a = Inr (first_of (remaining a), a') \<and>
     alloc_wf a' \<and> remaining a' = tl (remaining a) \<and>
     ranges a' = ranges a \<and> range_count a' = range_count a"
proof (induction a rule: FrameAllocator_allocate_frame.induct)
  case (1 a)
  let ?i = "current_range a" and ?c = "current_frame a"
  let ?r = "ranges a ! ?i"
  show ?case
  proof (cases "?i < range_count a")
    case False
    then show ?thesis using "1.prems"
      by (subst FrameAllocator_allocate_frame.simps) (simp add: remaining_def)
  next
    case live: True
    note r = alloc_wf_range [OF "1.prems" live]
    have c: "4096 dvd unat ?c" "ufr_start ?r \<le> ?c" "?c \<le> ufr_end ?r"
      using "1.prems" live by (auto simp: alloc_wf_def)
    show ?thesis
    proof (cases "?c < ufr_end ?r")
      case inside: True
      have e: "4096 dvd unat (ufr_end ?r)" using r(1) by (simp add: range_wf_def)
      note f = frames_of_step [OF c(1) e inside]
      have "FrameAllocator_allocate_frame a = Inr (Some ?c, a\<lparr>current_frame := ?c + FRAME_SIZE\<rparr>)"
        using live r(2) leD [OF c(2)] leD [OF f(3)] f(2) 
        by (subst FrameAllocator_allocate_frame.simps)
          (simp add: Let_def index_chk_def inside [THEN not_le [THEN iffD2]])
      moreover have "alloc_wf (a\<lparr>current_frame := ?c + FRAME_SIZE\<rparr>)"
      proof -
        have "?c \<le> ?c + FRAME_SIZE"
          using add_chk_unat [OF f(2)] by (simp add: word_le_nat_alt)
        then show ?thesis using "1.prems" live c f(3,4) by (auto simp: alloc_wf_def)
      qed
      moreover have "remaining a = ?c # remaining (a\<lparr>current_frame := ?c + FRAME_SIZE\<rparr>)"
        using live f(1) by (simp add: remaining_def)
      ultimately show ?thesis by simp
    next
      case False
      then have end_reached: "ufr_end ?r \<le> ?c" "?c = ufr_end ?r" using c(3) by simp_all
      show ?thesis
      proof (cases "Suc ?i < range_count a")
        case False
        then have "remaining a = []" using live end_reached by (simp add: remaining_def)
        moreover have "FrameAllocator_allocate_frame a = Inr (None, a\<lparr>current_range := range_count a\<rparr>)"
          using live r(2) end_reached False
          by (subst FrameAllocator_allocate_frame.simps)
            (simp add: Let_def index_chk_def advance_range_def)
        ultimately show ?thesis using "1.prems" by (simp add: alloc_wf_def remaining_def)
      next
        case more: True
        let ?a' = "a\<lparr>current_range := Suc ?i, current_frame := ufr_start (ranges a ! Suc ?i)\<rparr>"
        note r' = alloc_wf_range [OF "1.prems" more]
        have adv: "advance_range a ?i = Inr (True, ?a')"
          using more r'(2) by (simp add: advance_range_def index_chk_def)
        have "FrameAllocator_allocate_frame a = FrameAllocator_allocate_frame ?a'"
          using live r(2) end_reached adv
          by (subst FrameAllocator_allocate_frame.simps) (simp add: Let_def index_chk_def)
        moreover have "remaining a = remaining ?a'"
          using live end_reached remaining_advance [OF more] "1.prems"
          by (simp add: remaining_def alloc_wf_def)
        moreover have wf': "alloc_wf ?a'"
          using "1.prems" more r'(1) by (auto simp: alloc_wf_def range_wf_def)
        moreover have "\<exists>a''. FrameAllocator_allocate_frame ?a' = Inr (first_of (remaining ?a'), a'') \<and>
            alloc_wf a'' \<and> remaining a'' = tl (remaining ?a') \<and>
            ranges a'' = ranges ?a' \<and> range_count a'' = range_count ?a'"
          using "1.IH"(1) [of ?i ?r ?c "(True, ?a')" True ?a'] live r(2) end_reached adv wf'
          by (simp add: index_chk_def)
        ultimately show ?thesis by auto
      qed
    qed
  qed
qed

section \<open>The module's contract\<close>

definition frame_contents :: "frame_state \<Rightarrow> u64 list" where
  "frame_contents st = (case ALLOCATOR st of None \<Rightarrow> [] | Some a \<Rightarrow> remaining a)"

definition frame_wf :: "frame_state \<Rightarrow> bool" where
  "frame_wf st \<longleftrightarrow> (case ALLOCATOR st of None \<Rightarrow> True | Some a \<Rightarrow> alloc_wf a)"

text \<open>The frames the boot memory map makes available: those of its first 32 usable spans.\<close>

definition boot_regions :: "BootInfo \<Rightarrow> MemoryRegion list" where
  "boot_regions b = take (memory_map_entries b) (memory_regions b)"

definition boot_frames :: "BootInfo \<Rightarrow> u64 list" where
  "boot_frames b =
     concat (map range_frames (map range_of_span (take MAX_USABLE_RANGES (spans_of (boot_regions b)))))"

lemma allocate_frame_spec:
  assumes "frame_wf st"
  shows "\<exists>st'. allocate_frame st = Inr (first_of (frame_contents st), st') \<and> frame_wf st' \<and>
    frame_contents st' = tl (frame_contents st)"
proof (cases "ALLOCATOR st")
  case None
  with assms show ?thesis by (simp add: allocate_frame_def frame_contents_def frame_wf_def)
next
  case (Some a)
  with assms have "alloc_wf a" by (simp add: frame_wf_def)
  from FrameAllocator_allocate_frame_spec [OF this] Some show ?thesis
    by (auto simp: allocate_frame_def frame_contents_def frame_wf_def)
qed

interpretation frame_list: list_source allocate_frame frame_wf frame_contents
  by unfold_locales (rule allocate_frame_spec)

lemma frames_of_word_of_nat:
  assumes "n \<le> unat e" and "4096 dvd n"
  shows "set (frames_of (word_of_nat n) e) = word_of_nat ` {f. 4096 dvd f \<and> n \<le> f \<and> f + 4096 \<le> unat e}"
proof -
  have un: "unat (word_of_nat n :: u64) = n"
    using assms(1) unat_u64_bound [of e] by (simp add: unat_of_nat)
  have "{f. 4096 dvd f \<and> n \<le> f \<and> f + 4096 \<le> unat e} =
      (\<lambda>k. n + 4096 * k) ` {0..<(unat e - n) div 4096}" (is "?A = ?B")
  proof (intro set_eqI iffI)
    fix f assume "f \<in> ?A"
    then obtain a b where ab: "f = 4096 * a" "n = 4096 * b" "b \<le> a" "f + 4096 \<le> unat e"
      using assms(2) by (auto elim!: dvdE)
    then have "f = n + 4096 * (a - b)" "4096 * Suc (a - b) \<le> unat e - n" by auto
    moreover from this(2) have "Suc (a - b) \<le> (unat e - n) div 4096"
      by (simp add: less_eq_div_iff_mult_less_eq mult.commute)
    ultimately show "f \<in> ?B" by (intro image_eqI [of _ _ "a - b"]) auto
  next
    fix f assume "f \<in> ?B"
    then obtain k where k: "f = n + 4096 * k" "Suc k \<le> (unat e - n) div 4096" by auto
    then have "Suc k * 4096 \<le> unat e - n" by (simp add: less_eq_div_iff_mult_less_eq)
    with k(1) assms show "f \<in> ?A" by auto
  qed
  then show ?thesis by (simp add: frames_of_def un image_image)
qed

lemma span_in_spans_of: "p \<in> set (spans_of rs) \<longleftrightarrow> (\<exists>r\<in>set rs. span_of r = Some p)"
  by (induction rs) (auto split: option.splits)

lemma unat_span_end: "span_of r = Some p \<Longrightarrow> unat (word_of_nat (snd p) :: u64) = snd p"
  using span_of_SomeD(4) by (fastforce simp: unat_of_nat)

lemma unat_span_start: "span_of r = Some p \<Longrightarrow> unat (word_of_nat (fst p) :: u64) = fst p"
  using span_of_SomeD(1,4) by (fastforce simp: unat_of_nat)

lemma range_of_span_wf: "span_of r = Some p \<Longrightarrow> range_wf (range_of_span p)"
  using span_of_SomeD(1,2,3) [of r p]
  by (simp add: range_wf_def range_of_span_def UsableFrameRange_new_def word_less_nat_alt
      unat_span_start unat_span_end)

lemma set_range_frames:
  assumes "span_of r = Some p"
  shows "set (range_frames (range_of_span p)) =
    word_of_nat ` {f. 4096 dvd f \<and> fst p \<le> f \<and> f + 4096 \<le> snd p}"
  using frames_of_word_of_nat [of "fst p" "word_of_nat (snd p)"] span_of_SomeD(1,2) [OF assms]
  by (simp add: range_frames_def range_of_span_def UsableFrameRange_new_def unat_span_end [OF assms])

lemma length_range_frames:
  "span_of r = Some p \<Longrightarrow> length (range_frames (range_of_span p)) = span_frames p"
  by (simp add: range_frames_def range_of_span_def UsableFrameRange_new_def frames_of_def
      span_frames_def unat_span_start unat_span_end)

text \<open>Initialisation reaches the state that the scan describes.\<close>

lemma boot_regions_take:
  "take (min (memory_map_entries b) (length (memory_regions b))) (memory_regions b) = boot_regions b"
  by (simp add: boot_regions_def min_def)

lemma length_boot_regions: "boot_info_wf b \<Longrightarrow> length (boot_regions b) \<le> 64"
  by (simp add: boot_regions_def boot_info_wf_def MAX_MEMORY_REGIONS_def)

lemma padded_Nil: "padded [] = replicate MAX_USABLE_RANGES UsableFrameRange_EMPTY"
  by (simp add: padded_def)

lemma scan_boot_regions:
  assumes "boot_info_wf b" and "list_all region_ok (boot_regions b)"
  shows "\<exists>total. scan_regions (boot_regions b)
      (replicate MAX_USABLE_RANGES UsableFrameRange_EMPTY, 0) 0 =
      Inr ((padded (map range_of_span (take MAX_USABLE_RANGES (spans_of (boot_regions b)))),
            min MAX_USABLE_RANGES (length (spans_of (boot_regions b)))), total) \<and>
    unat total = sum_list (map span_frames (spans_of (boot_regions b)))"
  using scan_regions_spec [OF assms(2), of "[]" 0] length_boot_regions [OF assms(1)]
  by (simp add: padded_Nil take_map)

lemma FrameAllocator_new_wf:
  assumes "list_all range_wf L" and "length L \<le> MAX_USABLE_RANGES"
  shows "\<exists>a. FrameAllocator_new (padded L) (length L) = Inr a \<and> alloc_wf a \<and>
    remaining a = concat (map range_frames L)"
proof (cases L)
  case Nil
  then show ?thesis by (simp add: FrameAllocator_new_def alloc_wf_def remaining_def)
next
  case (Cons r rs)
  have takes: "take (length L) (padded L) = L" by (simp add: padded_def)
  have hd: "padded L ! 0 = r" "0 < length (padded L)"
    using Cons by (simp_all add: padded_def)
  let ?a = "\<lparr>ranges = padded L, range_count = length L, current_range = 0,
    current_frame = ufr_start r\<rparr>"
  have "FrameAllocator_new (padded L) (length L) = Inr ?a"
    using Cons hd by (simp add: FrameAllocator_new_def index_chk_def)
  moreover have "alloc_wf ?a"
    using Cons assms takes hd
    by (auto simp: alloc_wf_def range_wf_def length_padded)
  moreover have "remaining ?a = concat (map range_frames L)"
    using Cons takes hd by (simp add: remaining_def range_frames_def)
  ultimately show ?thesis by blast
qed

lemma spans_range_wf: "list_all range_wf (map range_of_span (take n (spans_of rs)))"
  by (auto simp: list_all_iff span_in_spans_of dest!: in_set_takeD intro: range_of_span_wf)

lemma frame_allocator_initialize_spec:
  assumes "boot_info_wf b" and "list_all region_ok (boot_regions b)"
  shows "\<exists>st. frame_allocator_initialize frame_state_init b = Inr st \<and> frame_wf st \<and>
    frame_contents st = boot_frames b \<and>
    unat (usable_frame_count st) = sum_list (map span_frames (spans_of (boot_regions b))) \<and>
    usable_range_count st = min MAX_USABLE_RANGES (length (spans_of (boot_regions b)))"
proof -
  let ?L = "map range_of_span (take MAX_USABLE_RANGES (spans_of (boot_regions b)))"
  have len: "length ?L = min MAX_USABLE_RANGES (length (spans_of (boot_regions b)))"
    by (simp add: min.commute)
  from scan_boot_regions [OF assms] obtain total where
    scan: "scan_regions (boot_regions b) (replicate MAX_USABLE_RANGES UsableFrameRange_EMPTY, 0) 0 =
      Inr ((padded ?L, length ?L), total)"
    and total: "unat total = sum_list (map span_frames (spans_of (boot_regions b)))"
    unfolding len by blast
  have "length ?L \<le> MAX_USABLE_RANGES" by simp
  from FrameAllocator_new_wf [OF spans_range_wf this] obtain a where
    a: "FrameAllocator_new (padded ?L) (length ?L) = Inr a" "alloc_wf a"
      "remaining a = concat (map range_frames ?L)" by blast
  have "frame_allocator_initialize frame_state_init b =
      Inr \<lparr>ALLOCATOR = Some a, USABLE_FRAME_COUNT = total, USABLE_RANGE_COUNT = length ?L\<rparr>"
    unfolding frame_allocator_initialize_def boot_regions_take scan
    by (simp only: rbind_Inr case_prod_conv Let_def frame_state_init_def frame_state.simps
        frame_state.update_convs option.case a(1))
  then show ?thesis
    using a(2,3) total len
    by (simp add: frame_wf_def frame_contents_def boot_frames_def usable_frame_count_def
        usable_range_count_def)
qed

text \<open>A region that starts in the last page of the address space makes the scan panic.\<close>

lemma scan_regions_overflow:
  assumes "\<not> list_all region_ok regions" and "length L \<le> MAX_USABLE_RANGES"
    and "unat t + length regions * 4503599627370496 < 18446744073709551616"
  shows "scan_regions regions (padded L, length L) t = Inl ArithmeticOverflow"
proof -
  let ?pre = "takeWhile region_ok regions" and ?bad = "dropWhile region_ok regions"
  have "\<exists>r\<in>set regions. \<not> region_ok r" using assms(1) by (auto simp: list_all_iff)
  then obtain r rest where bad: "?bad = r # rest" "\<not> region_ok r"
    by (metis dropWhile_eq_Cons_conv dropWhile_eq_Nil_conv list.exhaust)
  have split: "regions = ?pre @ r # rest" using bad(1) by (metis takeWhile_dropWhile_id)
  have pre: "list_all region_ok ?pre" by (auto simp: list_all_iff dest: set_takeWhileD)
  have append: "scan_regions (xs @ ys) acc u = rbind (scan_regions xs acc u) (\<lambda>(acc', u'). scan_regions ys acc' u')"
    for xs ys acc u
    by (induction xs arbitrary: acc u) (auto simp: rbind_def split: sum.splits)
  have "length ?pre \<le> length regions" by (rule length_takeWhile_le)
  then have "unat t + length ?pre * 4503599627370496 < 18446744073709551616" using assms(3) by linarith
  from scan_regions_spec [OF pre assms(2) this] obtain acc t' where
    "scan_regions ?pre (padded L, length L) t = Inr (acc, t')" by blast
  moreover have "scan_regions (r # rest) acc t' = Inl ArithmeticOverflow"
    using bad(2) align_up_overflow [of "mr_base r"]
    by (simp add: region_ok_def word_less_nat_alt not_less)
  ultimately show ?thesis by (subst split) (simp add: append)
qed

section \<open>Frames of separate regions are distinct\<close>

definition region_apart :: "MemoryRegion \<Rightarrow> MemoryRegion \<Rightarrow> bool" where
  "region_apart r q \<longleftrightarrow> (mr_kind r = Usable \<and> mr_kind q = Usable \<longrightarrow>
     unat (mr_base r) + unat (mr_length r) \<le> unat (mr_base q) \<or>
     unat (mr_base q) + unat (mr_length q) \<le> unat (mr_base r))"

lemma span_frame_bounds:
  assumes "span_of r = Some p" and "f \<in> set (range_frames (range_of_span p))"
  shows "4096 dvd unat f" "fst p \<le> unat f" "unat f + 4096 \<le> snd p"
proof -
  from assms(2) obtain n where n: "f = word_of_nat n" "4096 dvd n" "fst p \<le> n" "n + 4096 \<le> snd p"
    unfolding set_range_frames [OF assms(1)] by blast
  moreover have "n < 18446744073709551616" using n(4) span_of_SomeD(4) [OF assms(1)] by simp
  then have "unat f = n" using n(1) by (simp add: unat_of_nat)
  ultimately show "4096 dvd unat f" "fst p \<le> unat f" "unat f + 4096 \<le> snd p" by simp_all
qed

lemma distinct_range_frames: "span_of r = Some p \<Longrightarrow> distinct (range_frames (range_of_span p))"
proof -
  assume p: "span_of r = Some p"
  have "inj_on (\<lambda>k. word_of_nat (fst p + 4096 * k) :: u64) {0..<(snd p - fst p) div 4096}"
  proof (rule inj_onI)
    fix i j assume ij: "i \<in> {0..<(snd p - fst p) div 4096}" "j \<in> {0..<(snd p - fst p) div 4096}"
      and eq: "(word_of_nat (fst p + 4096 * i) :: u64) = word_of_nat (fst p + 4096 * j)"
    have lt: "fst p + 4096 * k < 18446744073709551616" if "k < (snd p - fst p) div 4096" for k
    proof -
      have "4096 * k \<le> snd p - fst p" using that by (simp add: less_mult_imp_div_less flip: less_eq_div_iff_mult_less_eq)
      then show ?thesis using span_of_SomeD(1,4) [OF p] by simp
    qed
    from eq have "unat (word_of_nat (fst p + 4096 * i) :: u64) = unat (word_of_nat (fst p + 4096 * j) :: u64)"
      by simp
    then show "i = j" using lt [of i] lt [of j] ij
      by (simp add: unat_of_nat del: of_nat_add of_nat_mult)
  qed
  then show ?thesis
    by (simp add: range_frames_def range_of_span_def UsableFrameRange_new_def frames_of_def
        distinct_map unat_span_start [OF p] unat_span_end [OF p])
qed

lemma distinct_spans_frames:
  assumes "sorted_wrt region_apart rs"
  shows "distinct (concat (map range_frames (map range_of_span (take n (spans_of rs)))))"
  using assms
proof (induction rs arbitrary: n)
  case Nil
  then show ?case by simp
next
  case (Cons r rs)
  then have IH: "\<And>n. distinct (concat (map range_frames (map range_of_span (take n (spans_of rs)))))"
    by simp
  show ?case
  proof (cases "span_of r")
    case None
    with IH show ?thesis by simp
  next
    case (Some p)
    show ?thesis
    proof (cases n)
      case 0
      then show ?thesis by simp
    next
      case (Suc m)
      have "set (range_frames (range_of_span p)) \<inter> set (range_frames (range_of_span q)) = {}"
        if q: "q \<in> set (take m (spans_of rs))" for q
      proof -
        from q obtain r' where r': "r' \<in> set rs" "span_of r' = Some q"
          by (meson in_set_takeD span_in_spans_of)
        with Cons.prems have "region_apart r r'" by simp
        then have "snd p \<le> fst q \<or> snd q \<le> fst p"
          using span_of_SomeD(5,6,7) [OF Some] span_of_SomeD(5,6,7) [OF r'(2)]
          by (auto simp: region_apart_def)
        then show ?thesis
          using span_frame_bounds(2,3) [OF Some] span_frame_bounds(2,3) [OF r'(2)] by fastforce
      qed
      then show ?thesis
        using Some Suc IH [of m] distinct_range_frames [OF Some] by auto
    qed
  qed
qed

lemma boot_frames_distinct: "sorted_wrt region_apart (boot_regions b) \<Longrightarrow> distinct (boot_frames b)"
  unfolding boot_frames_def by (rule distinct_spans_frames)

lemma boot_frame_origin:
  assumes "f \<in> set (boot_frames b)"
  obtains r where "r \<in> set (boot_regions b)" and "mr_kind r = Usable" and "4096 dvd unat f"
    and "unat (mr_base r) \<le> unat f" and "unat f + 4096 \<le> unat (mr_base r) + unat (mr_length r)"
proof -
  from assms obtain p where p: "p \<in> set (spans_of (boot_regions b))"
    "f \<in> set (range_frames (range_of_span p))"
    by (auto simp: boot_frames_def dest: in_set_takeD)
  then obtain r where r: "r \<in> set (boot_regions b)" "span_of r = Some p"
    by (auto simp: span_in_spans_of)
  show thesis
    using r(1) span_of_SomeD(5,6,7) [OF r(2)] span_frame_bounds [OF r(2) p(2)]
    by (intro that [of r]) simp_all
qed

lemma boot_frames_length:
  assumes "length (spans_of (boot_regions b)) \<le> MAX_USABLE_RANGES"
  shows "length (boot_frames b) = sum_list (map span_frames (spans_of (boot_regions b)))"
proof -
  have "map (\<lambda>p. length (range_frames (range_of_span p))) (spans_of (boot_regions b)) =
      map span_frames (spans_of (boot_regions b))"
    by (auto simp: span_in_spans_of length_range_frames)
  with assms show ?thesis
    by (simp add: boot_frames_def length_concat comp_def del: map_eq_conv)
qed

text \<open>The page frames of the memory map, without reference to the scan: aligned, and inside a region the loader reports as
  usable.  The table of the allocator has room for 32 ranges; when the map has no more, all of them are handed out.\<close>

definition usable_frame :: "BootInfo \<Rightarrow> u64 \<Rightarrow> bool" where
  "usable_frame b f \<longleftrightarrow> 4096 dvd unat f \<and> list_ex (\<lambda>r. mr_kind r = Usable \<and>
     unat (mr_base r) \<le> unat f \<and> unat f + 4096 \<le> unat (MemoryRegion_end r)) (boot_regions b)"

lemma span_of_frame:
  assumes "mr_kind r = Usable" and "4096 dvd unat f" "unat (mr_base r) \<le> unat f" "unat f + 4096 \<le> unat (MemoryRegion_end r)"
  obtains p where "span_of r = Some p" and "f \<in> set (range_frames (range_of_span p))"
proof -
  let ?s = "(unat (mr_base r) + 4095) div 4096 * 4096" and ?e = "unat (MemoryRegion_end r) div 4096 * 4096"
  obtain k where k: "unat f = 4096 * k" using assms(2) by (elim dvdE)
  have "(unat (mr_base r) + 4095) div 4096 \<le> k" using assms(3) k by linarith
  then have s: "?s \<le> unat f" using k by simp
  have "Suc k \<le> unat (MemoryRegion_end r) div 4096" using assms(4) k by linarith
  then have e: "unat f + 4096 \<le> ?e" using k by simp
  have p: "span_of r = Some (?s, ?e)" using assms(1) s e by (simp add: span_of_def Let_def)
  have "f \<in> set (range_frames (range_of_span (?s, ?e)))"
    unfolding set_range_frames [OF p] using assms(2) s e by (intro image_eqI [of _ _ "unat f"]) simp_all
  with p show thesis by (rule that)
qed

lemma boot_frames_usable: "f \<in> set (boot_frames b) \<Longrightarrow> usable_frame b f"
proof -
  assume "f \<in> set (boot_frames b)"
  then obtain p where "p \<in> set (spans_of (boot_regions b))" "f \<in> set (range_frames (range_of_span p))"
    by (auto simp: boot_frames_def dest: in_set_takeD)
  then obtain r where r: "r \<in> set (boot_regions b)" "span_of r = Some p" "f \<in> set (range_frames (range_of_span p))"
    by (auto simp: span_in_spans_of)
  have "snd p \<le> unat (MemoryRegion_end r)" using r(2) by (auto simp: span_of_def Let_def split: if_splits)
  then show ?thesis
    unfolding usable_frame_def list_ex_iff
    using r(1) span_of_SomeD(5,6) [OF r(2)] span_frame_bounds [OF r(2,3)] by fastforce
qed

lemma usable_frame_in_boot_frames:
  assumes "usable_frame b f" and "length (spans_of (boot_regions b)) \<le> MAX_USABLE_RANGES"
  shows "f \<in> set (boot_frames b)"
proof -
  obtain r where r: "r \<in> set (boot_regions b)" "mr_kind r = Usable" "4096 dvd unat f" "unat (mr_base r) \<le> unat f"
    "unat f + 4096 \<le> unat (MemoryRegion_end r)"
    using assms(1) by (auto simp: usable_frame_def list_ex_iff)
  obtain p where "span_of r = Some p" "f \<in> set (range_frames (range_of_span p))" by (rule span_of_frame [OF r(2-5)])
  then show ?thesis using r(1) assms(2) span_in_spans_of [of p "boot_regions b"] by (auto simp: boot_frames_def)
qed

definition frame_pool_inv :: "frame_state \<Rightarrow> bool" where
  "frame_pool_inv st \<longleftrightarrow> frame_wf st \<and> distinct (frame_contents st) \<and>
     (\<forall>f\<in>set (frame_contents st). 4096 dvd unat f)"

interpretation frame_pages: frame_pool allocate_frame frame_pool_inv frame_contents
proof unfold_locales
  fix s assume s: "frame_pool_inv s"
  from s allocate_frame_spec obtain s' where
    "allocate_frame s = Inr (first_of (frame_contents s), s')" "frame_wf s'"
    "frame_contents s' = tl (frame_contents s)"
    unfolding frame_pool_inv_def by blast
  with s show "\<exists>s'. allocate_frame s = Inr (first_of (frame_contents s), s') \<and>
      frame_pool_inv s' \<and> frame_contents s' = tl (frame_contents s)"
    unfolding frame_pool_inv_def by (metis distinct_tl list.set_sel(2) list.sel(2))
qed (simp_all add: frame_pool_inv_def)

lemma initialize_frame_pool_inv:
  assumes "boot_info_wf b" and "list_all region_ok (boot_regions b)"
    and "sorted_wrt region_apart (boot_regions b)"
    and "frame_allocator_initialize frame_state_init b = Inr st"
  shows "frame_pool_inv st"
  using frame_allocator_initialize_spec [OF assms(1,2)] assms(3,4) boot_frames_distinct
  by (auto simp: frame_pool_inv_def elim: boot_frame_origin)

section \<open>A small memory map\<close>

text \<open>Two usable regions, the second one not a whole number of pages.\<close>

definition example_boot_info :: BootInfo where
  "example_boot_info = BootInfo_new 0xffff800000000000 2 None
     ([MemoryRegion_new 0x1000 0x2000 Usable, MemoryRegion_new 0x10000 0x1800 Usable] @
      replicate 62 MemoryRegion_EMPTY)"

lemma example_boot_regions: "boot_regions example_boot_info =
    [MemoryRegion_new 0x1000 0x2000 Usable, MemoryRegion_new 0x10000 0x1800 Usable]"
  by (simp add: boot_regions_def example_boot_info_def BootInfo_new_def)

lemma example_boot_info_wf: "boot_info_wf example_boot_info"
  by (simp add: boot_info_wf_def example_boot_info_def BootInfo_new_def layout_simps)

lemma example_regions_ok: "list_all region_ok (boot_regions example_boot_info)"
  by (simp add: example_boot_regions region_ok_def MemoryRegion_new_def)

lemma example_regions_apart: "sorted_wrt region_apart (boot_regions example_boot_info)"
  by (simp add: example_boot_regions region_apart_def MemoryRegion_new_def)

lemma example_spans: "spans_of (boot_regions example_boot_info) = [(0x1000, 0x3000), (0x10000, 0x11000)]"
  by (simp add: example_boot_regions span_of_def MemoryRegion_new_def MemoryRegion_end_def
      saturating_add_def)

lemma example_boot_frames: "boot_frames example_boot_info = [0x1000, 0x2000, 0x10000]"
  by (simp add: boot_frames_def example_spans layout_simps range_frames_def range_of_span_def
      UsableFrameRange_new_def frames_of_def upt_rec)

lemma example_initialize:
  "\<exists>st. frame_allocator_initialize frame_state_init example_boot_info = Inr st \<and> frame_wf st \<and>
     frame_contents st = [0x1000, 0x2000, 0x10000]"
  using frame_allocator_initialize_spec [OF example_boot_info_wf example_regions_ok]
  by (auto simp: example_boot_frames)

lemma example_take_many:
  "frame_wf st \<Longrightarrow> frame_contents st = [0x1000, 0x2000, 0x10000] \<Longrightarrow>
   \<exists>st'. take_many allocate_frame 4 st = Inr ([Some 0x1000, Some 0x2000, Some 0x10000, None], st')"
  using frame_list.take_many_spec [of st 4] by (auto simp: eval_nat_numeral)

text \<open>A map with more than 32 usable spans: single pages with gaps between them.\<close>

definition fragmented_region :: "nat \<Rightarrow> MemoryRegion" where
  "fragmented_region i = MemoryRegion_new (word_of_nat (8192 * i)) 0x1000 Usable"

definition fragmented_boot_info :: BootInfo where
  "fragmented_boot_info = BootInfo_new 0xffff800000000000 33 None
     (map fragmented_region [0..<33] @ replicate 31 MemoryRegion_EMPTY)"

lemma fragmented_boot_regions: "boot_regions fragmented_boot_info = map fragmented_region [0..<33]"
  by (simp add: boot_regions_def fragmented_boot_info_def BootInfo_new_def)

lemma fragmented_boot_info_wf: "boot_info_wf fragmented_boot_info"
  by (simp add: boot_info_wf_def fragmented_boot_info_def BootInfo_new_def layout_simps)

lemma unat_fragment_base: "i < 33 \<Longrightarrow> unat (word_of_nat (8192 * i) :: u64) = 8192 * i"
  by (simp add: unat_of_nat del: of_nat_mult)

lemma fragmented_regions_ok: "list_all region_ok (boot_regions fragmented_boot_info)"
  by (auto simp: fragmented_boot_regions list_all_iff region_ok_def fragmented_region_def
      MemoryRegion_new_def unat_fragment_base simp del: of_nat_mult)

lemma fragmented_span: "i < 33 \<Longrightarrow> span_of (fragmented_region i) = Some (8192 * i, 8192 * i + 4096)"
proof -
  assume i: "i < 33"
  let ?r = "fragmented_region i"
  have b: "unat (mr_base ?r) = 8192 * i" "unat (mr_length ?r) = 4096" "mr_kind ?r = Usable"
    using unat_fragment_base [OF i] by (simp_all add: fragmented_region_def MemoryRegion_new_def)
  have e: "unat (MemoryRegion_end ?r) = 8192 * i + 4096"
    using i by (simp add: unat_MemoryRegion_end b)
  have "(8192 * i + 4095) div 4096 * 4096 = 8192 * i" "(8192 * i + 4096) div 4096 * 4096 = 8192 * i + 4096"
    by (simp_all add: div_add1_eq)
  then show ?thesis by (simp add: span_of_def Let_def b e)
qed

lemma spans_of_map: "\<forall>i\<in>set is. span_of (f i) = Some (g i) \<Longrightarrow> spans_of (map f is) = map g is"
  by (induction "is") auto

lemma fragmented_spans:
  "spans_of (boot_regions fragmented_boot_info) = map (\<lambda>i. (8192 * i, 8192 * i + 4096)) [0..<33]"
  unfolding fragmented_boot_regions by (rule spans_of_map) (simp add: fragmented_span)

lemma fragmented_boot_frames: "length (boot_frames fragmented_boot_info) = 32"
proof -
  have "length (range_frames (range_of_span (8192 * i, 8192 * i + 4096))) = 1" if "i < 33" for i
    using length_range_frames [OF fragmented_span [OF that]] by (simp add: span_frames_def)
  then have "map (\<lambda>i. length (range_frames (range_of_span (8192 * i, 8192 * i + 4096)))) [0..<32] =
      map (\<lambda>_. 1) [0..<32]"
    by auto
  then show ?thesis
    by (simp add: boot_frames_def fragmented_spans layout_simps take_map length_concat comp_def
        sum_list_triv del: map_eq_conv)
qed

section \<open>Properties\<close>

text \<open>(C8) Functional correctness of the frame allocator.  If no usable region starts in the last
  page of the address space, initialisation succeeds and any number of calls of \<open>allocate_frame\<close>
  returns the frames of a list one after the other and then \<open>None\<close> forever.  The list holds only page frames of
  usable regions, all of them when the memory map has at most 32 usable ranges (the size of the allocator's table; the
  frames of further ranges are not handed out), and each once when the usable regions do not overlap.\<close>

theorem allocate_frame_enumerates_boot_frames:
  assumes "boot_info_wf b" and "list_all region_ok (boot_regions b)"
  shows "\<exists>st fs. frame_allocator_initialize frame_state_init b = Inr st \<and> fs = boot_frames b \<and>
    (\<forall>n. \<exists>st'. take_many allocate_frame n st = Inr (map Some (take n fs) @ replicate (n - length fs) None, st')) \<and>
    (\<forall>f \<in> set fs. usable_frame b f) \<and>
    (length (spans_of (boot_regions b)) \<le> MAX_USABLE_RANGES \<longrightarrow> (\<forall>f. usable_frame b f \<longrightarrow> f \<in> set fs)) \<and>
    (sorted_wrt region_apart (boot_regions b) \<longrightarrow> distinct fs)"
proof -
  obtain st where st: "frame_allocator_initialize frame_state_init b = Inr st" "frame_wf st" "frame_contents st = boot_frames b"
    using frame_allocator_initialize_spec [OF assms] by blast
  moreover have "\<forall>n. \<exists>st'. take_many allocate_frame n st =
      Inr (map Some (take n (boot_frames b)) @ replicate (n - length (boot_frames b)) None, st')"
    using frame_list.take_many_spec [OF st(2)] st(3) by metis
  ultimately show ?thesis
    by (intro exI [of _ st] exI [of _ "boot_frames b"] conjI refl)
      (simp_all add: boot_frames_usable usable_frame_in_boot_frames boot_frames_distinct)
qed

theorem allocate_frame_enumerates_boot_frames_witness:
  "\<exists>st st'. frame_allocator_initialize frame_state_init example_boot_info = Inr st \<and>
     take_many allocate_frame 4 st = Inr ([Some 0x1000, Some 0x2000, Some 0x10000, None], st') \<and>
     (\<forall>f. usable_frame example_boot_info f \<longleftrightarrow> f \<in> {0x1000, 0x2000, 0x10000})"
proof -
  have few: "length (spans_of (boot_regions example_boot_info)) \<le> MAX_USABLE_RANGES"
    by (simp add: example_spans MAX_USABLE_RANGES_def)
  obtain st where st: "frame_allocator_initialize frame_state_init example_boot_info = Inr st"
    "\<exists>st'. take_many allocate_frame 4 st = Inr (map Some (take 4 [0x1000, 0x2000, 0x10000]) @ replicate (4 - 3) None, st')"
    "\<forall>f. usable_frame example_boot_info f \<longleftrightarrow> f \<in> set [0x1000, 0x2000, 0x10000]"
    using allocate_frame_enumerates_boot_frames [OF example_boot_info_wf example_regions_ok] few unfolding example_boot_frames
    by (metis One_nat_def length_Cons list.size(3) numeral_3_eq_3)
  then show ?thesis by auto
qed

text \<open>Page frames never overlap: when the usable regions of the memory map are disjoint, two
  different successful calls of \<open>allocate_frame\<close> return frames with no address in common.\<close>

theorem allocated_frames_disjoint:
  fixes rs :: "unit list"
  assumes "boot_info_wf b" and "list_all region_ok (boot_regions b)"
    and "sorted_wrt region_apart (boot_regions b)"
    and "frame_allocator_initialize frame_state_init b = Inr st"
    and "run_requests (\<lambda>_. allocate_frame) rs st = Inr (bs, st')"
    and "i < j" and "j < length bs" and "bs ! i = (ri, Some f)" and "bs ! j = (rj, Some g)"
  shows "frame_extent (unat f) \<inter> frame_extent (unat g) = {}"
  using frame_pages.run_disjoint [OF assms(5) initialize_frame_pool_inv [OF assms(1-4)] _ assms(6-9)]
  by (simp add: list.pred_True)

theorem allocated_frames_disjoint_witness:
  "\<exists>st st'. frame_allocator_initialize frame_state_init example_boot_info = Inr st \<and>
     run_requests (\<lambda>_. allocate_frame) [(), (), (), ()] st =
       Inr ([((), Some 0x1000), ((), Some 0x2000), ((), Some 0x10000), ((), None)], st') \<and>
     frame_extent (unat (0x1000 :: u64)) \<inter> frame_extent (unat (0x2000 :: u64)) = {}"
proof -
  obtain st where st: "frame_allocator_initialize frame_state_init example_boot_info = Inr st"
    "frame_wf st" "frame_contents st = [0x1000, 0x2000, 0x10000]"
    using example_initialize by blast
  from example_take_many [OF st(2,3)] obtain st' where
    run: "run_requests (\<lambda>_. allocate_frame) [(), (), (), ()] st =
       Inr ([((), Some 0x1000), ((), Some 0x2000), ((), Some 0x10000), ((), None)], st')"
    by (auto simp: run_requests_uniform eval_nat_numeral)
  from allocated_frames_disjoint [OF example_boot_info_wf example_regions_ok example_regions_apart
      st(1) run, of 0 1] st(1) run
  show ?thesis by simp
qed

text \<open>(C29) Every frame handed out is page aligned and lies completely inside a region that the
  bootloader reported as usable.\<close>

theorem allocated_frame_is_usable_memory:
  assumes "boot_info_wf b" and "list_all region_ok (boot_regions b)"
    and "frame_allocator_initialize frame_state_init b = Inr st"
    and "take_many allocate_frame n st = Inr (fs, st')" and "Some f \<in> set fs"
  shows "4096 dvd unat f \<and> (\<exists>r\<in>set (boot_regions b). mr_kind r = Usable \<and>
    unat (mr_base r) \<le> unat f \<and> unat f + 4096 \<le> unat (mr_base r) + unat (mr_length r))"
proof -
  from frame_allocator_initialize_spec [OF assms(1,2)] assms(3)
  have "frame_wf st" "frame_contents st = boot_frames b" by auto
  from frame_list.take_many_spec [OF this(1), of n] this(2) assms(4,5)
  have "f \<in> set (boot_frames b)" by (auto dest: in_set_takeD split: if_splits)
  then show ?thesis by (auto elim!: boot_frame_origin)
qed

theorem allocated_frame_is_usable_memory_witness:
  "4096 dvd unat (0x10000 :: u64) \<and> (\<exists>r\<in>set (boot_regions example_boot_info). mr_kind r = Usable \<and>
     unat (mr_base r) \<le> unat (0x10000 :: u64) \<and>
     unat (0x10000 :: u64) + 4096 \<le> unat (mr_base r) + unat (mr_length r))"
proof -
  obtain st where st: "frame_allocator_initialize frame_state_init example_boot_info = Inr st"
    "frame_wf st" "frame_contents st = [0x1000, 0x2000, 0x10000]"
    using example_initialize by blast
  from example_take_many [OF st(2,3)] obtain st' where
    "take_many allocate_frame 4 st = Inr ([Some 0x1000, Some 0x2000, Some 0x10000, None], st')" by blast
  from allocated_frame_is_usable_memory [OF example_boot_info_wf example_regions_ok st(1) this,
      of "0x10000"]
  show ?thesis by simp
qed

text \<open>The initialisation panics (on the overflowing \<open>align_up\<close>) exactly when one of the
  reported usable regions of at least a page starts in the last, incomplete page of the 64-bit
  address space.\<close>

theorem frame_allocator_initialize_panics_iff:
  assumes "boot_info_wf b"
  shows "frame_allocator_initialize frame_state_init b = Inl ArithmeticOverflow \<longleftrightarrow>
    \<not> list_all region_ok (boot_regions b)"
proof (cases "list_all region_ok (boot_regions b)")
  case True
  with frame_allocator_initialize_spec [OF assms True] show ?thesis by auto
next
  case False
  from scan_regions_overflow [OF False, of "[]" 0] length_boot_regions [OF assms]
  have "frame_allocator_initialize frame_state_init b = Inl ArithmeticOverflow"
    unfolding frame_allocator_initialize_def boot_regions_take by (simp add: padded_Nil)
  with False show ?thesis by simp
qed

theorem frame_allocator_initialize_panics_iff_witness:
  "frame_allocator_initialize frame_state_init
     (BootInfo_new 0 1 None (MemoryRegion_new (- 1) 0x1000 Usable # replicate 63 MemoryRegion_EMPTY)) =
   Inl ArithmeticOverflow"
  by (subst frame_allocator_initialize_panics_iff)
    (simp_all add: boot_info_wf_def BootInfo_new_def boot_regions_def region_ok_def
      MemoryRegion_new_def layout_simps unsigned_minus_1_eq_mask mask_eq_exp_minus_1)

text \<open>The published frame count is the number of frames the allocator can hand out as long as
  the map has at most 32 usable spans.\<close>

theorem usable_frame_count_exact:
  assumes "boot_info_wf b" and "list_all region_ok (boot_regions b)"
    and "length (spans_of (boot_regions b)) \<le> MAX_USABLE_RANGES"
    and "frame_allocator_initialize frame_state_init b = Inr st"
  shows "unat (usable_frame_count st) = length (boot_frames b)"
  using frame_allocator_initialize_spec [OF assms(1,2)] assms(4) boot_frames_length [OF assms(3)]
  by auto

theorem usable_frame_count_exact_witness:
  "\<exists>st. frame_allocator_initialize frame_state_init example_boot_info = Inr st \<and>
     unat (usable_frame_count st) = 3"
proof -
  obtain st where "frame_allocator_initialize frame_state_init example_boot_info = Inr st"
    using example_initialize by blast
  with usable_frame_count_exact [OF example_boot_info_wf example_regions_ok _ this]
  show ?thesis by (simp add: example_spans example_boot_frames layout_simps)
qed

text \<open>The published frame count overstates the allocator: a map of 33 disjoint usable pages is
  counted as 33 frames, but the allocator keeps only 32 ranges and runs dry after 32 frames.\<close>

theorem usable_frame_count_overstates:
  "\<exists>b st. boot_info_wf b \<and> frame_allocator_initialize frame_state_init b = Inr st \<and>
     unat (usable_frame_count st) = 33 \<and>
     (\<exists>fs st'. take_many allocate_frame 33 st = Inr (map Some fs @ [None], st') \<and> length fs = 32)"
proof -
  from frame_allocator_initialize_spec [OF fragmented_boot_info_wf fragmented_regions_ok]
  obtain st where st: "frame_allocator_initialize frame_state_init fragmented_boot_info = Inr st"
    "frame_wf st" "frame_contents st = boot_frames fragmented_boot_info"
    "unat (usable_frame_count st) = sum_list (map span_frames (spans_of (boot_regions fragmented_boot_info)))"
    by blast
  have "sum_list (map span_frames (spans_of (boot_regions fragmented_boot_info))) = 33"
    by (simp add: fragmented_spans span_frames_def comp_def sum_list_triv)
  moreover have "\<exists>st'. take_many allocate_frame 33 st =
      Inr (map Some (boot_frames fragmented_boot_info) @ [None], st')"
    using frame_list.take_many_spec [OF st(2), of 33] st(3) fragmented_boot_frames by auto
  ultimately show ?thesis
    using st(1,4) fragmented_boot_info_wf fragmented_boot_frames by metis
qed

end
