(* ===== verification/Frame_Concurrency.thy ===== *)
theory Frame_Concurrency
  imports Frame_Allocator
begin

text \<open>
  Several callers in \<open>FrameAllocator::allocate_frame\<close> at once.  Every access to one of the two
  atomics (\<open>current_range\<close>, \<open>current_frame\<close>) of \<^verbatim>\<open>kernel/src/memory/frame_allocator.rs\<close> is one step
  of one caller, and the steps of the callers interleave in any order, with sequentially consistent
  memory.  The two atomics are not updated together: a caller that has won the
  compare-exchange on \<open>current_range\<close> still has to store the first frame of the new range.  Between
  the two steps the other callers see the new range with the old frame.  The results say when this
  is harmless and what it costs otherwise.
\<close>

section \<open>Model\<close>

datatype frame_pc =
    FrameIdle
  | FrameLoadRange
  | FrameLoadFrame nat
  | FrameAdvance nat "u64 option"
  | FrameStoreStart nat
  | FrameCas u64 u64
  | FrameReturn "u64 option"
  | FramePanicked panic

record frame_system =
  shared_frames :: FrameAllocator
  frame_callers :: "nat \<Rightarrow> frame_pc"
  handed_out :: "u64 list"

text \<open>The code between two atomic accesses.\<close>

definition after_load_range :: "FrameAllocator \<Rightarrow> nat \<Rightarrow> frame_pc" where
  "after_load_range a range_index =
     (if range_count a \<le> range_index then FrameReturn None
      else case index_chk (ranges a) range_index of
        Inl e \<Rightarrow> FramePanicked e
      | Inr _ \<Rightarrow> FrameLoadFrame range_index)"

definition after_load_frame :: "FrameAllocator \<Rightarrow> nat \<Rightarrow> u64 \<Rightarrow> frame_pc" where
  "after_load_frame a range_index current =
     (case index_chk (ranges a) range_index of
        Inl e \<Rightarrow> FramePanicked e
      | Inr rng \<Rightarrow>
          if current < ufr_start rng \<or> ufr_end rng \<le> current then FrameAdvance range_index None
          else (case add_chk current FRAME_SIZE of
                  Inl e \<Rightarrow> FramePanicked e
                | Inr next \<Rightarrow>
                    if ufr_end rng < next then
                      FrameAdvance range_index (if next \<le> ufr_end rng then Some current else None)
                    else FrameCas current next))"

definition set_frame_caller :: "frame_system \<Rightarrow> nat \<Rightarrow> frame_pc \<Rightarrow> frame_system" where
  "set_frame_caller s t pc = s\<lparr>frame_callers := (frame_callers s)(t := pc)\<rparr>"

definition hand_out :: "u64 option \<Rightarrow> frame_system \<Rightarrow> frame_system" where
  "hand_out r s = (case r of None \<Rightarrow> s | Some f \<Rightarrow> s\<lparr>handed_out := f # handed_out s\<rparr>)"

definition set_shared :: "(FrameAllocator \<Rightarrow> FrameAllocator) \<Rightarrow> frame_system \<Rightarrow> frame_system" where
  "set_shared g s = s\<lparr>shared_frames := g (shared_frames s)\<rparr>"

inductive frame_step :: "frame_system \<Rightarrow> frame_system \<Rightarrow> bool" where
  call: "frame_callers s t = FrameIdle \<Longrightarrow> frame_step s (set_frame_caller s t FrameLoadRange)"
| load_range: "frame_callers s t = FrameLoadRange \<Longrightarrow>
    frame_step s (set_frame_caller s t (after_load_range (shared_frames s) (current_range (shared_frames s))))"
| load_frame: "frame_callers s t = FrameLoadFrame i \<Longrightarrow>
    frame_step s (set_frame_caller s t (after_load_frame (shared_frames s) i (current_frame (shared_frames s))))"
| advance_last: "frame_callers s t = FrameAdvance i r \<Longrightarrow> range_count (shared_frames s) \<le> i + 1 \<Longrightarrow>
    frame_step s (set_frame_caller
      (hand_out r (set_shared (\<lambda>a. a\<lparr>current_range := range_count a\<rparr>) s)) t (FrameReturn r))"
| advance_won: "frame_callers s t = FrameAdvance i r \<Longrightarrow> i + 1 < range_count (shared_frames s) \<Longrightarrow>
    current_range (shared_frames s) = i \<Longrightarrow>
    frame_step s (set_frame_caller (set_shared (\<lambda>a. a\<lparr>current_range := i + 1\<rparr>) s) t (FrameStoreStart (i + 1)))"
| advance_lost: "frame_callers s t = FrameAdvance i r \<Longrightarrow> i + 1 < range_count (shared_frames s) \<Longrightarrow>
    current_range (shared_frames s) \<noteq> i \<Longrightarrow> frame_step s (set_frame_caller s t FrameLoadRange)"
| store_start: "frame_callers s t = FrameStoreStart j \<Longrightarrow> index_chk (ranges (shared_frames s)) j = Inr rng \<Longrightarrow>
    frame_step s (set_frame_caller (set_shared (\<lambda>a. a\<lparr>current_frame := ufr_start rng\<rparr>) s) t FrameLoadRange)"
| store_panic: "frame_callers s t = FrameStoreStart j \<Longrightarrow> index_chk (ranges (shared_frames s)) j = Inl e \<Longrightarrow>
    frame_step s (set_frame_caller s t (FramePanicked e))"
| cas_won: "frame_callers s t = FrameCas current next \<Longrightarrow> current_frame (shared_frames s) = current \<Longrightarrow>
    frame_step s (set_frame_caller
      (hand_out (Some current) (set_shared (\<lambda>a. a\<lparr>current_frame := next\<rparr>) s)) t (FrameReturn (Some current)))"
| cas_lost: "frame_callers s t = FrameCas current next \<Longrightarrow> current_frame (shared_frames s) \<noteq> current \<Longrightarrow>
    frame_step s (set_frame_caller s t FrameLoadRange)"
| return: "frame_callers s t = FrameReturn r \<Longrightarrow> frame_step s (set_frame_caller s t FrameIdle)"

definition frame_system_init :: "FrameAllocator \<Rightarrow> frame_system" where
  "frame_system_init a = \<lparr>shared_frames = a, frame_callers = (\<lambda>_. FrameIdle), handed_out = []\<rparr>"

lemmas frame_system_simps = set_frame_caller_def hand_out_def set_shared_def

section \<open>Invariant\<close>

text \<open>
  \<open>in_range\<close>: the frame may be handed out from range \<open>i\<close>; \<open>on_range\<close>: the value \<open>current_frame\<close> may have
  while range \<open>i\<close> is walked, which includes the end.  Two ranges are \<open>separated\<close> when not even the end
  of one is in the other.
\<close>

definition in_range :: "FrameAllocator \<Rightarrow> nat \<Rightarrow> u64 \<Rightarrow> bool" where
  "in_range a i f \<longleftrightarrow> i < range_count a \<and> ufr_start (ranges a ! i) \<le> f \<and> f < ufr_end (ranges a ! i)"

definition on_range :: "FrameAllocator \<Rightarrow> nat \<Rightarrow> u64 \<Rightarrow> bool" where
  "on_range a i f \<longleftrightarrow> i < range_count a \<and> ufr_start (ranges a ! i) \<le> f \<and> f \<le> ufr_end (ranges a ! i)"

definition separated :: "UsableFrameRange \<Rightarrow> UsableFrameRange \<Rightarrow> bool" where
  "separated r q \<longleftrightarrow> ufr_end r < ufr_start q \<or> ufr_end q < ufr_start r"

definition ranges_separated :: "FrameAllocator \<Rightarrow> bool" where
  "ranges_separated a \<longleftrightarrow> range_count a \<le> length (ranges a) \<and>
     list_all range_wf (take (range_count a) (ranges a)) \<and>
     sorted_wrt separated (take (range_count a) (ranges a))"

fun frame_caller_ok :: "FrameAllocator \<Rightarrow> frame_pc \<Rightarrow> bool" where
  "frame_caller_ok a (FrameLoadFrame i) = (i < range_count a)"
| "frame_caller_ok a (FrameAdvance i r) = (i < range_count a \<and> r = None)"
| "frame_caller_ok a (FrameStoreStart j) = (j < range_count a \<and> j \<le> current_range a)"
| "frame_caller_ok a (FrameCas c n) =
     (4096 dvd unat c \<and> n = c + FRAME_SIZE \<and> (\<exists>i. in_range a i c))"
| "frame_caller_ok a (FramePanicked e) = False"
| "frame_caller_ok a _ = True"

text \<open>
  The ghost data: \<open>S\<close> are the ranges whose first frame has been stored in \<open>current_frame\<close>, \<open>k\<close> is
  the one stored last.  Frames of range \<open>k\<close> below \<open>current_frame\<close> and frames of the other ranges of
  \<open>S\<close> may have been handed out.
\<close>

definition handed_ok :: "FrameAllocator \<Rightarrow> nat set \<Rightarrow> nat \<Rightarrow> u64 \<Rightarrow> bool" where
  "handed_ok a S k f \<longleftrightarrow> 4096 dvd unat f \<and> (\<exists>i\<in>S. in_range a i f \<and> (i = k \<longrightarrow> f < current_frame a))"

definition frame_sys_inv :: "nat set \<Rightarrow> nat \<Rightarrow> frame_system \<Rightarrow> bool" where
  "frame_sys_inv S k s \<longleftrightarrow>
     (let a = shared_frames s; pc = frame_callers s in
      ranges_separated a \<and> current_range a \<le> range_count a \<and>
      (0 < range_count a \<longrightarrow> k \<in> S \<and> on_range a k (current_frame a) \<and> 4096 dvd unat (current_frame a)) \<and>
      (\<forall>i\<in>S. i \<le> current_range a) \<and>
      (\<forall>t. frame_caller_ok a (pc t)) \<and>
      (\<forall>t j. pc t = FrameStoreStart j \<longrightarrow> j \<notin> S) \<and>
      (\<forall>t u j. pc t = FrameStoreStart j \<and> pc u = FrameStoreStart j \<longrightarrow> t = u) \<and>
      (\<forall>f\<in>set (handed_out s). handed_ok a S k f) \<and> distinct (handed_out s))"

lemmas frame_invD = frame_sys_inv_def [THEN iffD1, unfolded Let_def]

lemma separated_range_unique:
  assumes "ranges_separated a" and "on_range a j f" and "in_range a i f"
  shows "i = j"
proof (rule ccontr)
  assume "i \<noteq> j"
  have sep: "separated (ranges a ! x) (ranges a ! y)" if "x < y" "y < range_count a" for x y
    using assms(1) that sorted_wrt_nth_less [of separated "take (range_count a) (ranges a)" x y]
    by (simp add: ranges_separated_def)
  from \<open>i \<noteq> j\<close> have "separated (ranges a ! i) (ranges a ! j) \<or> separated (ranges a ! j) (ranges a ! i)"
    using sep assms(2,3) by (auto simp: on_range_def in_range_def nat_neq_iff)
  with assms(2,3) show False by (auto simp: separated_def on_range_def in_range_def)
qed

lemma ranges_separatedD:
  assumes "ranges_separated a" and "i < range_count a"
  shows "range_wf (ranges a ! i)" and "index_chk (ranges a) i = Inr (ranges a ! i)"
  using assms by (auto simp: ranges_separated_def list_all_length index_chk_def)

lemma ranges_separated_cong [simp]:
  "ranges_separated (a\<lparr>current_range := n\<rparr>) = ranges_separated a"
  "ranges_separated (a\<lparr>current_frame := f\<rparr>) = ranges_separated a"
  "in_range (a\<lparr>current_range := n\<rparr>) i = in_range a i" "in_range (a\<lparr>current_frame := f\<rparr>) i = in_range a i"
  "on_range (a\<lparr>current_range := n\<rparr>) i = on_range a i" "on_range (a\<lparr>current_frame := f\<rparr>) i = on_range a i"
  by (simp_all add: ranges_separated_def in_range_def on_range_def fun_eq_iff)

lemma frame_caller_ok_frame [simp]:
  "frame_caller_ok (a\<lparr>current_frame := f\<rparr>) pc = frame_caller_ok a pc"
  by (cases "(a, pc)" rule: frame_caller_ok.cases) auto

lemma frame_caller_ok_range:
  "frame_caller_ok a pc \<Longrightarrow> current_range a \<le> n \<Longrightarrow> frame_caller_ok (a\<lparr>current_range := n\<rparr>) pc"
  by (cases "(a, pc)" rule: frame_caller_ok.cases) auto

lemma after_load_range_ok:
  assumes "ranges_separated a" and "i \<le> range_count a"
  shows "frame_caller_ok a (after_load_range a i)" and "after_load_range a i \<noteq> FrameStoreStart j"
  using assms ranges_separatedD(2) [of a i] by (auto simp: after_load_range_def)

lemma after_load_frame_ok:
  assumes "ranges_separated a" and "i < range_count a" and "4096 dvd unat c"
  shows "frame_caller_ok a (after_load_frame a i c)" and "after_load_frame a i c \<noteq> FrameStoreStart j"
proof -
  note r = ranges_separatedD [OF assms(1,2)]
  have in_rng: "frame_caller_ok a (after_load_frame a i c) \<and> after_load_frame a i c \<noteq> FrameStoreStart j"
    if "ufr_start (ranges a ! i) \<le> c" "c < ufr_end (ranges a ! i)"
  proof -
    have "4096 dvd unat (ufr_end (ranges a ! i))" using r(1) by (simp add: range_wf_def)
    note f = frames_of_step(2,3) [OF assms(3) this that(2)]
    with that r(2) assms show ?thesis
      by (auto simp: after_load_frame_def in_range_def not_less not_le)
  qed
  then show "frame_caller_ok a (after_load_frame a i c)" "after_load_frame a i c \<noteq> FrameStoreStart j"
    using r(2) assms(2) by (cases "c < ufr_start (ranges a ! i) \<or> ufr_end (ranges a ! i) \<le> c",
        auto simp: after_load_frame_def not_less not_le)+
qed

text \<open>How the invariant moves through the atomic updates.\<close>

lemma inv_set_caller:
  assumes "frame_sys_inv S k s" and "frame_caller_ok (shared_frames s) pc" and "\<And>j. pc \<noteq> FrameStoreStart j"
  shows "frame_sys_inv S k (set_frame_caller s t pc)"
  using assms unfolding frame_sys_inv_def Let_def
  by (auto simp: set_frame_caller_def)

lemma inv_set_range:
  assumes "frame_sys_inv S k s" and "current_range (shared_frames s) \<le> n" and "n \<le> range_count (shared_frames s)"
  shows "frame_sys_inv S k (set_shared (\<lambda>a. a\<lparr>current_range := n\<rparr>) s)"
  using assms frame_caller_ok_range [of "shared_frames s" _ n]
  unfolding frame_sys_inv_def Let_def by (auto simp: set_shared_def handed_ok_def intro: order.trans)

lemma inv_win_range:
  assumes inv: "frame_sys_inv S k s" and c: "current_range (shared_frames s) = i" "i + 1 < range_count (shared_frames s)"
  shows "frame_sys_inv S k
    (set_frame_caller (set_shared (\<lambda>a. a\<lparr>current_range := i + 1\<rparr>) s) t (FrameStoreStart (i + 1)))"
proof -
  let ?s = "set_shared (\<lambda>a. a\<lparr>current_range := i + 1\<rparr>) s"
  have inv': "frame_sys_inv S k ?s" using inv_set_range [OF inv, of "i + 1"] c by simp
  have "i + 1 \<notin> S" using frame_invD [OF inv] c(1) by auto
  moreover have "frame_callers s u \<noteq> FrameStoreStart (i + 1)" for u
  proof
    assume "frame_callers s u = FrameStoreStart (i + 1)"
    moreover have "frame_caller_ok (shared_frames s) (frame_callers s u)" using frame_invD [OF inv] by blast
    ultimately show False using c(1) by simp
  qed
  moreover have "frame_caller_ok (shared_frames ?s) (FrameStoreStart (i + 1))"
    using c by (simp add: set_shared_def)
  ultimately show ?thesis
    using inv' unfolding frame_sys_inv_def Let_def by (auto simp: frame_system_simps)
qed

lemma inv_store_start:
  assumes inv: "frame_sys_inv S k s" and pc: "frame_callers s t = FrameStoreStart j"
  shows "index_chk (ranges (shared_frames s)) j = Inr (ranges (shared_frames s) ! j) \<and>
    frame_sys_inv (insert j S) j (set_frame_caller
      (set_shared (\<lambda>a. a\<lparr>current_frame := ufr_start (ranges (shared_frames s) ! j)\<rparr>) s) t FrameLoadRange)"
proof -
  note d = frame_invD [OF inv]
  have ok: "j < range_count (shared_frames s)" "j \<le> current_range (shared_frames s)"
    using conjunct1 [OF conjunct2 [OF conjunct2 [OF conjunct2 [OF conjunct2 [OF d]]]]] pc
    by (auto dest: spec [of _ t])
  have j: "j \<notin> S" using d pc by blast
  note r = ranges_separatedD [OF conjunct1 [OF d] ok(1)]
  have st: "on_range (shared_frames s) j (ufr_start (ranges (shared_frames s) ! j))"
    "4096 dvd unat (ufr_start (ranges (shared_frames s) ! j))"
    using r(1) ok(1) by (auto simp: on_range_def range_wf_def)
  have "frame_callers s u \<noteq> FrameStoreStart j" if "u \<noteq> t" for u using d pc that by blast
  then show ?thesis
    using d st j ok r(2) unfolding frame_sys_inv_def Let_def
    by (auto simp: frame_system_simps handed_ok_def)
qed

lemma inv_hand_out:
  assumes inv: "frame_sys_inv S k s" and pc: "frame_callers s t = FrameCas c n" "current_frame (shared_frames s) = c"
  shows "frame_sys_inv S k (set_frame_caller
    (hand_out (Some c) (set_shared (\<lambda>a. a\<lparr>current_frame := n\<rparr>) s)) t (FrameReturn (Some c)))"
proof -
  let ?a = "shared_frames s"
  note d = frame_invD [OF inv]
  have "frame_caller_ok ?a (FrameCas c n)" using d pc(1) by metis
  then obtain i where i: "4096 dvd unat c" "n = c + FRAME_SIZE" "in_range ?a i c" by auto
  then have "0 < range_count ?a" by (auto simp: in_range_def)
  then have k: "k \<in> S" "on_range ?a k c" using d pc(2) by auto
  with i(3) have ik: "i = k" using separated_range_unique d by blast
  have w: "4096 dvd unat (ufr_end (ranges ?a ! k))"
    using ranges_separatedD(1) [OF conjunct1 [OF d]] k(2) by (simp add: on_range_def range_wf_def)
  have lt: "c < ufr_end (ranges ?a ! k)" using i(3) ik by (simp add: in_range_def)
  note f = frames_of_step(2-4) [OF i(1) w lt]
  then have up: "c < n" using i(2) by (auto simp: add_chk_def unat_plus_exact word_less_nat_alt split: if_splits)
  have on: "on_range ?a k n" using k(2) f i(2) up by (auto simp: on_range_def)
  have new: "handed_ok (?a\<lparr>current_frame := n\<rparr>) S k c"
    using i k(1) ik up by (auto simp: handed_ok_def)
  have old: "handed_ok (?a\<lparr>current_frame := n\<rparr>) S k x \<and> x \<noteq> c" if "x \<in> set (handed_out s)" for x
  proof -
    from that d have x: "handed_ok ?a S k x" by blast
    then obtain j where j: "j \<in> S" "in_range ?a j x" "j = k \<longrightarrow> x < c" by (auto simp: handed_ok_def pc(2))
    have "x \<noteq> c" using separated_range_unique [of ?a k c j] d k(2) j(2,3) by auto
    moreover have "handed_ok (?a\<lparr>current_frame := n\<rparr>) S k x"
      using x j up by (auto simp: handed_ok_def)
    ultimately show ?thesis by blast
  qed
  show ?thesis
    using d k(1) on new old f(3) i(2) unfolding frame_sys_inv_def Let_def
    by (auto simp: frame_system_simps)
qed

lemma frame_step_inv:
  assumes "\<exists>S k. frame_sys_inv S k s" and step: "frame_step s s'"
  shows "\<exists>S k. frame_sys_inv S k s'"
proof -
  from assms(1) obtain S k where inv: "frame_sys_inv S k s" by blast
  note d = frame_invD [OF inv]
  have ok: "frame_caller_ok (shared_frames s) (frame_callers s t)" for t using d by blast
  have cr: "current_range (shared_frames s) \<le> range_count (shared_frames s)" using d by blast
  from step show ?thesis
  proof (cases rule: frame_step.cases)
    case (load_range t)
    then show ?thesis using inv_set_caller [OF inv after_load_range_ok(1,2)] d by blast
  next
    case (load_frame t i)
    then have "i < range_count (shared_frames s)" using ok [of t] by simp
    moreover from this have "4096 dvd unat (current_frame (shared_frames s))" using d by auto
    ultimately show ?thesis
      using load_frame inv_set_caller [OF inv after_load_frame_ok(1,2)] d by blast
  next
    case (advance_last t i r)
    then have "r = None" using ok [of t] by simp
    with advance_last inv_set_caller [OF inv_set_range [OF inv cr order.refl], of "FrameReturn None" t]
    show ?thesis by (auto simp: hand_out_def set_shared_def)
  next
    case (advance_won t i r)
    then show ?thesis using inv_win_range [OF inv] by blast
  next
    case (store_start t j rng)
    then show ?thesis using inv_store_start [OF inv] by auto
  next
    case (store_panic t j e)
    then show ?thesis using inv_store_start [OF inv] by auto
  next
    case (cas_won t c n)
    then show ?thesis using inv_hand_out [OF inv] by blast
  next
    case (call t)
    then show ?thesis using inv_set_caller [OF inv, of FrameLoadRange t] by auto
  next
    case (advance_lost t i r)
    then show ?thesis using inv_set_caller [OF inv, of FrameLoadRange t] by auto
  next
    case (cas_lost t c n)
    then show ?thesis using inv_set_caller [OF inv, of FrameLoadRange t] by auto
  next
    case (return t r)
    then show ?thesis using inv_set_caller [OF inv, of FrameIdle t] by auto
  qed
qed

definition same_ranges :: "FrameAllocator \<Rightarrow> FrameAllocator \<Rightarrow> bool" where
  "same_ranges a b \<longleftrightarrow> ranges a = ranges b \<and> range_count a = range_count b"

lemma frame_step_same_ranges:
  "frame_step s s' \<Longrightarrow> same_ranges (shared_frames s) (shared_frames s')"
  by (cases rule: frame_step.cases)
    (auto simp: frame_system_simps same_ranges_def split: option.splits)

interpretation frame_callers_safe: invariant_system frame_step
  "\<lambda>s. (\<exists>S k. frame_sys_inv S k s) \<and> same_ranges a (shared_frames s)" for a :: FrameAllocator
  using frame_step_inv frame_step_same_ranges
  by unfold_locales (simp add: same_ranges_def, blast)

text \<open>The callers start from the allocator that initialisation builds.\<close>

definition boot_ranges :: "BootInfo \<Rightarrow> UsableFrameRange list" where
  "boot_ranges b = map range_of_span (take MAX_USABLE_RANGES (spans_of (boot_regions b)))"

lemma boot_ranges_wf: "list_all range_wf (boot_ranges b)" "length (boot_ranges b) \<le> MAX_USABLE_RANGES"
  by (simp_all add: boot_ranges_def spans_range_wf)

definition allocator_of :: "UsableFrameRange list \<Rightarrow> FrameAllocator" where
  "allocator_of L = \<lparr>ranges = padded L, range_count = length L, current_range = 0,
     current_frame = (case L of [] \<Rightarrow> 0 | r # _ \<Rightarrow> ufr_start r)\<rparr>"

lemma initialize_allocator_of:
  assumes "boot_info_wf b" and "list_all region_ok (boot_regions b)"
  shows "\<exists>st. frame_allocator_initialize frame_state_init b = Inr st \<and> ALLOCATOR st = Some (allocator_of (boot_ranges b))"
proof -
  have len: "length (boot_ranges b) = min MAX_USABLE_RANGES (length (spans_of (boot_regions b)))"
    by (simp add: boot_ranges_def min.commute)
  from scan_boot_regions [OF assms] obtain total where
    scan: "scan_regions (boot_regions b) (replicate MAX_USABLE_RANGES UsableFrameRange_EMPTY, 0) 0 =
      Inr ((padded (boot_ranges b), length (boot_ranges b)), total)"
    unfolding len by (auto simp: boot_ranges_def)
  have "FrameAllocator_new (padded (boot_ranges b)) (length (boot_ranges b)) = Inr (allocator_of (boot_ranges b))"
    by (cases "boot_ranges b") (simp_all add: FrameAllocator_new_def allocator_of_def index_chk_def padded_def)
  then show ?thesis
    unfolding frame_allocator_initialize_def boot_regions_take scan
    by (simp add: frame_state_init_def Let_def)
qed

lemma initialize_allocator:
  assumes "boot_info_wf b" and "list_all region_ok (boot_regions b)"
    and "frame_allocator_initialize frame_state_init b = Inr st" and "ALLOCATOR st = Some a"
  shows "a = allocator_of (boot_ranges b)"
  using initialize_allocator_of [OF assms(1,2)] assms(3,4) by auto

lemma frame_system_init_inv:
  assumes "list_all range_wf L" and "length L \<le> MAX_USABLE_RANGES" and "sorted_wrt separated L"
  shows "frame_sys_inv {0} 0 (frame_system_init (allocator_of L))"
proof -
  let ?a = "allocator_of L"
  have t: "take (range_count ?a) (ranges ?a) = L" by (simp add: padded_def allocator_of_def)
  have "ranges_separated ?a"
    using assms t by (simp add: ranges_separated_def allocator_of_def length_padded)
  with assms(1) show ?thesis
    by (cases L) (auto simp: frame_sys_inv_def frame_system_init_def on_range_def range_wf_def allocator_of_def padded_def)
qed

lemma in_boot_range:
  assumes "i < length (boot_ranges b)" and "4096 dvd unat f"
    and "ufr_start (boot_ranges b ! i) \<le> f" and "f < ufr_end (boot_ranges b ! i)"
  shows "f \<in> set (boot_frames b)"
proof -
  let ?p = "take MAX_USABLE_RANGES (spans_of (boot_regions b)) ! i"
  have p: "?p \<in> set (take MAX_USABLE_RANGES (spans_of (boot_regions b)))" and i: "boot_ranges b ! i = range_of_span ?p"
    using assms(1) nth_mem [of i "take MAX_USABLE_RANGES (spans_of (boot_regions b))"]
    by (simp_all add: boot_ranges_def del: nth_take)
  then obtain r where r: "span_of r = Some ?p" using span_in_spans_of [of ?p] by (auto dest: in_set_takeD)
  have b: "fst ?p \<le> unat f" "unat f < snd ?p"
    using assms(3,4) unat_span_start [OF r] unat_span_end [OF r]
    by (simp_all add: i range_of_span_def UsableFrameRange_new_def word_le_nat_alt word_less_nat_alt)
  then have "unat f + 4096 \<le> snd ?p"
    using aligned_less_gap assms(2) span_of_SomeD(3) [OF r] by blast
  then have "f \<in> set (range_frames (range_of_span ?p))"
    using set_range_frames [OF r] assms(2) b(1) by (auto intro: image_eqI [of _ _ "unat f"])
  with p show ?thesis by (auto simp: boot_frames_def)
qed

section \<open>Schedules\<close>

text \<open>A caller's next step is determined by the state, so a run is given by the order in which the
  callers move.\<close>

definition step_caller :: "nat \<Rightarrow> frame_system \<Rightarrow> frame_system" where
  "step_caller t s =
     (let a = shared_frames s in
      case frame_callers s t of
        FrameIdle \<Rightarrow> set_frame_caller s t FrameLoadRange
      | FrameLoadRange \<Rightarrow> set_frame_caller s t (after_load_range a (current_range a))
      | FrameLoadFrame i \<Rightarrow> set_frame_caller s t (after_load_frame a i (current_frame a))
      | FrameAdvance i r \<Rightarrow>
          if range_count a \<le> i + 1 then
            set_frame_caller (hand_out r (set_shared (\<lambda>a. a\<lparr>current_range := range_count a\<rparr>) s)) t (FrameReturn r)
          else if current_range a = i then
            set_frame_caller (set_shared (\<lambda>a. a\<lparr>current_range := i + 1\<rparr>) s) t (FrameStoreStart (i + 1))
          else set_frame_caller s t FrameLoadRange
      | FrameStoreStart j \<Rightarrow>
          (case index_chk (ranges a) j of
             Inl e \<Rightarrow> set_frame_caller s t (FramePanicked e)
           | Inr rng \<Rightarrow> set_frame_caller (set_shared (\<lambda>a. a\<lparr>current_frame := ufr_start rng\<rparr>) s) t FrameLoadRange)
      | FrameCas c n \<Rightarrow>
          if current_frame a = c then
            set_frame_caller (hand_out (Some c) (set_shared (\<lambda>a. a\<lparr>current_frame := n\<rparr>) s)) t (FrameReturn (Some c))
          else set_frame_caller s t FrameLoadRange
      | FrameReturn r \<Rightarrow> set_frame_caller s t FrameIdle
      | FramePanicked e \<Rightarrow> s)"

lemma step_caller_step:
  "\<nexists>e. frame_callers s t = FramePanicked e \<Longrightarrow> frame_step s (step_caller t s)"
  by (cases "frame_callers s t")
    (auto simp: step_caller_def Let_def not_le
      intro: frame_step.intros frame_step.advance_won [simplified] split: sum.splits)

definition run_schedule :: "nat list \<Rightarrow> frame_system \<Rightarrow> frame_system" where
  "run_schedule ts s = fold step_caller ts s"

lemma run_schedule_steps: "frame_step\<^sup>*\<^sup>* s (run_schedule ts s)"
proof (induction ts arbitrary: s)
  case (Cons t ts)
  have "frame_step\<^sup>*\<^sup>* s (step_caller t s)"
  proof (cases "\<exists>e. frame_callers s t = FramePanicked e")
    case True
    then show ?thesis by (auto simp: step_caller_def)
  next
    case False
    then show ?thesis using step_caller_step by blast
  qed
  with Cons [of "step_caller t s"] show ?case by (simp add: run_schedule_def)
qed (simp add: run_schedule_def)

section \<open>Two memory maps\<close>

text \<open>Two adjacent regions of one page each.\<close>

definition adjacent_boot_info :: BootInfo where
  "adjacent_boot_info = BootInfo_new 0xffff800000000000 2 None
     ([MemoryRegion_new 0x1000 0x1000 Usable, MemoryRegion_new 0x2000 0x1000 Usable] @
      replicate 62 MemoryRegion_EMPTY)"

lemma adjacent_boot_regions: "boot_regions adjacent_boot_info =
    [MemoryRegion_new 0x1000 0x1000 Usable, MemoryRegion_new 0x2000 0x1000 Usable]"
  by (simp add: boot_regions_def adjacent_boot_info_def BootInfo_new_def)

lemma adjacent_boot_info_wf:
  "boot_info_wf adjacent_boot_info" "list_all region_ok (boot_regions adjacent_boot_info)"
  "sorted_wrt region_apart (boot_regions adjacent_boot_info)"
  by (simp_all add: adjacent_boot_regions region_ok_def region_apart_def MemoryRegion_new_def)
    (simp add: boot_info_wf_def adjacent_boot_info_def BootInfo_new_def MAX_MEMORY_REGIONS_def)

lemma adjacent_ranges: "boot_ranges adjacent_boot_info =
    [UsableFrameRange_new 0x1000 0x2000, UsableFrameRange_new 0x2000 0x3000]"
  by (simp add: boot_ranges_def adjacent_boot_regions span_of_def MemoryRegion_new_def MemoryRegion_end_def
      range_of_span_def MAX_USABLE_RANGES_def saturating_add_def)

lemma example_ranges: "boot_ranges example_boot_info =
    [UsableFrameRange_new 0x1000 0x3000, UsableFrameRange_new 0x10000 0x11000]"
  by (simp add: boot_ranges_def example_spans range_of_span_def MAX_USABLE_RANGES_def)

lemmas schedule_simps = run_schedule_def step_caller_def frame_system_init_def allocator_of_def
  frame_system_simps after_load_range_def after_load_frame_def index_chk_def padded_def
  UsableFrameRange_new_def FRAME_SIZE_def add_chk_def

lemma adjacent_race:
  "handed_out (run_schedule [0, 0, 0, 0, 0,  0, 0, 0, 0,  1, 1, 1, 1,  0, 0, 0, 0]
     (frame_system_init (allocator_of (boot_ranges adjacent_boot_info)))) = [0x2000, 0x2000, 0x1000]"
  by (simp add: adjacent_ranges schedule_simps)

lemma lost_range_race:
  assumes "s = run_schedule [0, 0, 0, 0, 0,  0, 0, 0, 0, 0,  0, 0, 0, 0,  1, 1, 1, 1, 1,  0, 0, 0]
     (frame_system_init (allocator_of (boot_ranges example_boot_info)))"
  shows "handed_out s = [0x2000, 0x1000]" and "current_range (shared_frames s) = range_count (shared_frames s)"
    and "frame_callers s = (\<lambda>_. FrameIdle)"
  unfolding assms by (simp_all add: example_ranges schedule_simps fun_eq_iff)

text \<open>Once \<open>current_range\<close> is at the end and nobody is on the way, nothing is ever handed out again.\<close>

definition exhausted :: "u64 list \<Rightarrow> frame_system \<Rightarrow> bool" where
  "exhausted out s \<longleftrightarrow> handed_out s = out \<and> current_range (shared_frames s) = range_count (shared_frames s) \<and>
     (\<forall>t. frame_callers s t \<in> {FrameIdle, FrameLoadRange, FrameReturn None})"

interpretation exhausted_for_good: invariant_system frame_step "exhausted out" for out :: "u64 list"
proof
  fix s t assume e: "exhausted out s" and "frame_step s t"
  have pc: "frame_callers s u \<in> {FrameIdle, FrameLoadRange, FrameReturn None}" for u
    using e by (simp add: exhausted_def)
  then have "frame_callers s u \<noteq> FrameLoadFrame i" "frame_callers s u \<noteq> FrameAdvance i r"
    "frame_callers s u \<noteq> FrameStoreStart i" "frame_callers s u \<noteq> FrameCas c n" for u i r c n
    by (metis frame_pc.distinct insertE singletonD)+
  with \<open>frame_step s t\<close> e pc show "exhausted out t"
    by (cases rule: frame_step.cases) (auto simp: exhausted_def frame_system_simps after_load_range_def)
qed

section \<open>Properties\<close>

text \<open>(C10) The frame allocator is safe under concurrency when the usable ranges are separated (no
  range ends where another begins): whatever the interleaving of any number of callers, no frame is
  handed out twice, every frame is a page frame of the boot memory map, and no caller panics.\<close>

theorem frames_concurrent_distinct:
  assumes "boot_info_wf b" and "list_all region_ok (boot_regions b)" and "sorted_wrt separated (boot_ranges b)"
    and "frame_allocator_initialize frame_state_init b = Inr st" and "ALLOCATOR st = Some a"
    and "frame_step\<^sup>*\<^sup>* (frame_system_init a) s"
  shows "distinct (handed_out s) \<and> set (handed_out s) \<subseteq> set (boot_frames b) \<and>
    (\<nexists>t e. frame_callers s t = FramePanicked e)"
proof -
  have a: "a = allocator_of (boot_ranges b)" using initialize_allocator [OF assms(1,2,4,5)] .
  have "same_ranges a (shared_frames (frame_system_init a))" by (simp add: same_ranges_def frame_system_init_def)
  with frame_callers_safe.steps_inv [OF assms(6)] frame_system_init_inv [OF boot_ranges_wf assms(3)] a
  obtain S k where inv: "frame_sys_inv S k s" and same: "same_ranges a (shared_frames s)" by blast
  have "f \<in> set (boot_frames b)" if "f \<in> set (handed_out s)" for f
  proof -
    have "handed_ok (shared_frames s) S k f" using frame_invD [OF inv] that by blast
    then obtain i where "4096 dvd unat f" "in_range a i f"
      using same by (auto simp: handed_ok_def in_range_def same_ranges_def)
    then show ?thesis using in_boot_range [of i b f] by (auto simp: a in_range_def allocator_of_def padded_def nth_append)
  qed
  moreover have "frame_callers s t \<noteq> FramePanicked e" for t e
    using frame_invD [OF inv] by (metis frame_caller_ok.simps(5))
  moreover have "distinct (handed_out s)" using frame_invD [OF inv] by blast
  ultimately show ?thesis by blast
qed

theorem frames_concurrent_distinct_witness:
  "\<exists>st a s. frame_allocator_initialize frame_state_init example_boot_info = Inr st \<and> ALLOCATOR st = Some a \<and>
     frame_step\<^sup>*\<^sup>* (frame_system_init a) s \<and> handed_out s = [0x2000, 0x1000] \<and> distinct (handed_out s)"
proof -
  obtain st where st: "frame_allocator_initialize frame_state_init example_boot_info = Inr st"
    "ALLOCATOR st = Some (allocator_of (boot_ranges example_boot_info))"
    using initialize_allocator_of [OF example_boot_info_wf example_regions_ok] by blast
  have sep: "sorted_wrt separated (boot_ranges example_boot_info)"
    by (simp add: example_ranges separated_def UsableFrameRange_new_def)
  note run = run_schedule_steps [of "frame_system_init (allocator_of (boot_ranges example_boot_info))"
      "[0, 0, 0, 0, 0,  0, 0, 0, 0, 0,  0, 0, 0, 0,  1, 1, 1, 1, 1,  0, 0, 0]"]
  from frames_concurrent_distinct [OF example_boot_info_wf example_regions_ok sep st run]
    st run lost_range_race(1) [OF refl] show ?thesis by metis
qed

text \<open>The two atomics can be seen in between.  With two adjacent one-page regions there is an
  interleaving of two callers that hands out the same frame twice, although the regions of the
  memory map are disjoint.  With separated regions the same window loses a range: there is an
  interleaving after which a frame of the memory map that nobody got is never handed out.\<close>

theorem frame_advance_race:
  "(\<exists>s. sorted_wrt region_apart (boot_regions adjacent_boot_info) \<and>
      frame_step\<^sup>*\<^sup>* (frame_system_init (allocator_of (boot_ranges adjacent_boot_info))) s \<and>
      \<not> distinct (handed_out s)) \<and>
   (\<exists>s f. frame_step\<^sup>*\<^sup>* (frame_system_init (allocator_of (boot_ranges example_boot_info))) s \<and>
      f \<in> set (boot_frames example_boot_info) \<and> (\<nexists>s'. frame_step\<^sup>*\<^sup>* s s' \<and> f \<in> set (handed_out s')))"
proof (intro conjI)
  show "\<exists>s. sorted_wrt region_apart (boot_regions adjacent_boot_info) \<and>
      frame_step\<^sup>*\<^sup>* (frame_system_init (allocator_of (boot_ranges adjacent_boot_info))) s \<and>
      \<not> distinct (handed_out s)"
    using run_schedule_steps adjacent_race adjacent_boot_info_wf(3) by (metis distinct_length_2_or_more)
  define s where "s = run_schedule [0, 0, 0, 0, 0,  0, 0, 0, 0, 0,  0, 0, 0, 0,  1, 1, 1, 1, 1,  0, 0, 0]
      (frame_system_init (allocator_of (boot_ranges example_boot_info)))"
  have "exhausted [0x2000, 0x1000] s" using lost_range_race [OF s_def] by (simp add: exhausted_def)
  then have "0x10000 \<notin> set (handed_out s')" if "frame_step\<^sup>*\<^sup>* s s'" for s'
    using exhausted_for_good.steps_inv [OF that] by (auto simp: exhausted_def)
  moreover have "0x10000 \<in> set (boot_frames example_boot_info)" by (simp add: example_boot_frames)
  moreover have "frame_step\<^sup>*\<^sup>* (frame_system_init (allocator_of (boot_ranges example_boot_info))) s"
    unfolding s_def by (rule run_schedule_steps)
  ultimately show "\<exists>s f. frame_step\<^sup>*\<^sup>* (frame_system_init (allocator_of (boot_ranges example_boot_info))) s \<and>
      f \<in> set (boot_frames example_boot_info) \<and> (\<nexists>s'. frame_step\<^sup>*\<^sup>* s s' \<and> f \<in> set (handed_out s'))" by blast
qed

end
