(* ===== verification/Rust_Str.thy ===== *)
theory Rust_Str
  imports Aether_Prelude "HOL-Library.Char_ord"
begin

text \<open>
  The strings of the standard library that the kernel uses.  A \<open>str\<close> is a list of Unicode scalar
  values (\<open>rstr\<close>, with the type invariant \<open>valid_str\<close>); its bytes are the UTF-8 encoding
  \<open>as_bytes\<close>, and \<open>from_utf8\<close> is the validating decoder of \<^verbatim>\<open>core::str\<close>.  The main result is that
  \<open>from_utf8\<close> accepts exactly the encodings and inverts them.  The other definitions are the
  \<open>str\<close> methods the shell and the file system call, and the \<open>Display\<close> formatting of integers.
\<close>

section \<open>Scalar values and UTF-8\<close>

type_synonym rchar = nat
type_synonym rstr = "nat list"

definition scalar :: "rchar \<Rightarrow> bool" where
  "scalar c \<longleftrightarrow> c < 0xD800 \<or> 0xE000 \<le> c \<and> c < 0x110000"

definition valid_str :: "rstr \<Rightarrow> bool" where
  "valid_str s = list_all scalar s"

definition lit :: "string \<Rightarrow> rstr" where
  "lit s = map of_char s"

fun encode_char :: "rchar \<Rightarrow> nat list" where
  "encode_char c =
     (if c < 0x80 then [c]
      else if c < 0x800 then [0xC0 + c div 0x40, 0x80 + c mod 0x40]
      else if c < 0x10000 then [0xE0 + c div 0x1000, 0x80 + c div 0x40 mod 0x40, 0x80 + c mod 0x40]
      else [0xF0 + c div 0x40000, 0x80 + c div 0x1000 mod 0x40, 0x80 + c div 0x40 mod 0x40,
            0x80 + c mod 0x40])"

definition cont_byte :: "nat \<Rightarrow> bool" where
  "cont_byte b \<longleftrightarrow> 0x80 \<le> b \<and> b < 0xC0"

text \<open>One scalar value from the front of a byte sequence, with the ranges of the validation table
  of \<^verbatim>\<open>core::str::validations\<close> (no overlong forms, no surrogates, nothing above U+10FFFF).\<close>

fun decode_char :: "nat list \<Rightarrow> (rchar \<times> nat list) option" where
  "decode_char (b0 # b1 # b2 # b3 # bs) =
     (if b0 < 0x80 then Some (b0, b1 # b2 # b3 # bs)
      else if 0xC2 \<le> b0 \<and> b0 < 0xE0 \<and> cont_byte b1 then
        Some ((b0 - 0xC0) * 0x40 + (b1 - 0x80), b2 # b3 # bs)
      else if 0xE0 \<le> b0 \<and> b0 < 0xF0 \<and> cont_byte b1 \<and> cont_byte b2 \<and>
          (b0 = 0xE0 \<longrightarrow> 0xA0 \<le> b1) \<and> (b0 = 0xED \<longrightarrow> b1 < 0xA0) then
        Some ((b0 - 0xE0) * 0x1000 + (b1 - 0x80) * 0x40 + (b2 - 0x80), b3 # bs)
      else if 0xF0 \<le> b0 \<and> b0 < 0xF5 \<and> cont_byte b1 \<and> cont_byte b2 \<and> cont_byte b3 \<and>
          (b0 = 0xF0 \<longrightarrow> 0x90 \<le> b1) \<and> (b0 = 0xF4 \<longrightarrow> b1 < 0x90) then
        Some ((b0 - 0xF0) * 0x40000 + (b1 - 0x80) * 0x1000 + (b2 - 0x80) * 0x40 + (b3 - 0x80), bs)
      else None)"
| "decode_char [b0, b1, b2] =
     (if b0 < 0x80 then Some (b0, [b1, b2])
      else if 0xC2 \<le> b0 \<and> b0 < 0xE0 \<and> cont_byte b1 then
        Some ((b0 - 0xC0) * 0x40 + (b1 - 0x80), [b2])
      else if 0xE0 \<le> b0 \<and> b0 < 0xF0 \<and> cont_byte b1 \<and> cont_byte b2 \<and>
          (b0 = 0xE0 \<longrightarrow> 0xA0 \<le> b1) \<and> (b0 = 0xED \<longrightarrow> b1 < 0xA0) then
        Some ((b0 - 0xE0) * 0x1000 + (b1 - 0x80) * 0x40 + (b2 - 0x80), [])
      else None)"
| "decode_char [b0, b1] =
     (if b0 < 0x80 then Some (b0, [b1])
      else if 0xC2 \<le> b0 \<and> b0 < 0xE0 \<and> cont_byte b1 then
        Some ((b0 - 0xC0) * 0x40 + (b1 - 0x80), [])
      else None)"
| "decode_char [b0] = (if b0 < 0x80 then Some (b0, []) else None)"
| "decode_char [] = None"

lemma decode_char_shorter: "decode_char bs = Some (c, rest) \<Longrightarrow> length rest < length bs"
  by (cases bs rule: decode_char.cases) (auto split: if_splits)

function decode_bytes :: "nat list \<Rightarrow> rstr option" where
  "decode_bytes bs =
     (if bs = [] then Some []
      else case decode_char bs of
             None \<Rightarrow> None
           | Some (c, rest) \<Rightarrow> map_option (Cons c) (decode_bytes rest))"
  by pat_completeness auto
termination
  by (relation "measure length") (auto dest: decode_char_shorter)

declare decode_bytes.simps [simp del]

definition as_bytes :: "rstr \<Rightarrow> u8 list" where
  "as_bytes s = map word_of_nat (concat (map encode_char s))"

definition from_utf8 :: "u8 list \<Rightarrow> rstr option" where
  "from_utf8 bs = decode_bytes (map unat bs)"

definition str_len :: "rstr \<Rightarrow> nat" where
  "str_len s = length (as_bytes s)"

section \<open>The methods of str\<close>

text \<open>\<open>char::is_whitespace\<close>: the Unicode \<open>White_Space\<close> property.\<close>

definition is_whitespace :: "rchar \<Rightarrow> bool" where
  "is_whitespace c \<longleftrightarrow> 0x9 \<le> c \<and> c \<le> 0xD \<or> c = 0x20 \<or> c = 0x85 \<or> c = 0xA0 \<or> c = 0x1680 \<or>
     0x2000 \<le> c \<and> c \<le> 0x200A \<or> c = 0x2028 \<or> c = 0x2029 \<or> c = 0x202F \<or> c = 0x205F \<or> c = 0x3000"

definition trim :: "rstr \<Rightarrow> rstr" where
  "trim s = rev (dropWhile is_whitespace (rev (dropWhile is_whitespace s)))"

definition starts_with :: "rstr \<Rightarrow> rchar \<Rightarrow> bool" where
  "starts_with s c = (case s of [] \<Rightarrow> False | x # _ \<Rightarrow> x = c)"

function split_whitespace :: "rstr \<Rightarrow> rstr list" where
  "split_whitespace s =
     (let t = dropWhile is_whitespace s in
      if t = [] then []
      else takeWhile (\<lambda>c. \<not> is_whitespace c) t #
           split_whitespace (dropWhile (\<lambda>c. \<not> is_whitespace c) t))"
  by pat_completeness auto
termination
proof (relation "measure length", simp, goal_cases)
  case (1 s t)
  then have "t \<noteq> []" "\<not> is_whitespace (hd t)" by (metis, metis dropWhile_eq_Nil_conv hd_dropWhile)
  then have "length (dropWhile (\<lambda>c. \<not> is_whitespace c) t) < length t"
    by (cases t) (auto simp: le_imp_less_Suc length_dropWhile_le)
  moreover have "length t \<le> length s" using 1 by (simp add: length_dropWhile_le)
  ultimately show ?case by simp
qed

declare split_whitespace.simps [simp del]

definition strip_prefix :: "rstr \<Rightarrow> rstr \<Rightarrow> rstr option" where
  "strip_prefix p s = (if take (length p) s = p then Some (drop (length p) s) else None)"

definition split_once :: "rchar \<Rightarrow> rstr \<Rightarrow> (rstr \<times> rstr) option" where
  "split_once c s =
     (case dropWhile (\<lambda>x. x \<noteq> c) s of
        [] \<Rightarrow> None
      | _ # rest \<Rightarrow> Some (takeWhile (\<lambda>x. x \<noteq> c) s, rest))"

text \<open>\<open>Display\<close> of an unsigned integer, \<open>{:#x}\<close>, and \<open>Display\<close> of a boolean.\<close>

fun display_nat :: "nat \<Rightarrow> rstr" where
  "display_nat n = (if n < 10 then [0x30 + n] else display_nat (n div 10) @ [0x30 + n mod 10])"

definition hex_digit :: "nat \<Rightarrow> rchar" where
  "hex_digit d = (if d < 10 then 0x30 + d else 0x57 + d)"

fun hex_digits :: "nat \<Rightarrow> rstr" where
  "hex_digits n = (if n < 16 then [hex_digit n] else hex_digits (n div 16) @ [hex_digit (n mod 16)])"

definition display_hex :: "nat \<Rightarrow> rstr" where
  "display_hex n = lit ''0x'' @ hex_digits n"

definition display_bool :: "bool \<Rightarrow> rstr" where
  "display_bool b = (if b then lit ''true'' else lit ''false'')"

declare display_nat.simps [simp del] hex_digits.simps [simp del]

section \<open>Encoding and decoding are inverse\<close>

text \<open>What the file system relies on: texts stored as bytes are read back as they were written.\<close>

locale byte_codec =
  fixes encode :: "'t \<Rightarrow> 'b list"
    and decode :: "'b list \<Rightarrow> 't option"
    and valid :: "'t \<Rightarrow> bool"
  assumes decode_iff: "decode bs = Some t \<longleftrightarrow> valid t \<and> encode t = bs"
begin

lemma decode_encode: "valid t \<Longrightarrow> decode (encode t) = Some t"
  by (simp add: decode_iff)

lemma encode_inject: "valid s \<Longrightarrow> valid t \<Longrightarrow> encode s = encode t \<longleftrightarrow> s = t"
  by (metis decode_encode option.inject)

end

text \<open>Base-64 digits of a scalar value.\<close>

lemma two_digits:
  assumes "(y::nat) < 64"
  shows "(x * 64 + y) div 64 = x" "(x * 64 + y) mod 64 = y"
  using assms by (simp_all add: div_nat_eqI mult.commute)

lemma three_digits:
  assumes "(y::nat) < 64" and "z < 64"
  shows "(x * 4096 + y * 64 + z) div 4096 = x" "(x * 4096 + y * 64 + z) div 64 mod 64 = y"
    "(x * 4096 + y * 64 + z) mod 64 = z"
proof -
  have e: "x * 4096 + y * 64 + z = (x * 64 + y) * 64 + z" by simp
  have d: "(x * 4096 + y * 64 + z) div 64 = x * 64 + y" unfolding e by (rule two_digits(1) [OF assms(2)])
  then show "(x * 4096 + y * 64 + z) div 64 mod 64 = y" using two_digits(2) [OF assms(1)] by simp
  have "(x * 4096 + y * 64 + z) div 4096 = (x * 4096 + y * 64 + z) div 64 div 64"
    by (simp add: div_mult2_eq [symmetric])
  then show "(x * 4096 + y * 64 + z) div 4096 = x" using d two_digits(1) [OF assms(1)] by simp
  show "(x * 4096 + y * 64 + z) mod 64 = z" unfolding e by (rule two_digits(2) [OF assms(2)])
qed

lemma four_digits:
  assumes "(y::nat) < 64" and "z < 64" and "w < 64"
  shows "(x * 262144 + y * 4096 + z * 64 + w) div 262144 = x"
    "(x * 262144 + y * 4096 + z * 64 + w) div 4096 mod 64 = y"
    "(x * 262144 + y * 4096 + z * 64 + w) div 64 mod 64 = z"
    "(x * 262144 + y * 4096 + z * 64 + w) mod 64 = w"
proof -
  let ?c = "x * 262144 + y * 4096 + z * 64 + w"
  have e: "?c = (x * 4096 + y * 64 + z) * 64 + w" by simp
  have d: "?c div 64 = x * 4096 + y * 64 + z" unfolding e by (rule two_digits(1) [OF assms(3)])
  show "?c div 64 mod 64 = z" using d three_digits(3) [OF assms(1,2)] by simp
  show "?c mod 64 = w" unfolding e by (rule two_digits(2) [OF assms(3)])
  have "?c div 4096 = ?c div 64 div 64" by (simp add: div_mult2_eq [symmetric])
  then show "?c div 4096 mod 64 = y" using d three_digits(2) [OF assms(1,2)] by simp
  have "?c div 262144 = ?c div 64 div 4096" by (simp add: div_mult2_eq [symmetric])
  then show "?c div 262144 = x" using d three_digits(1) [OF assms(1,2)] by simp
qed

text \<open>The four forms of an encoded scalar value.\<close>

lemma encode_two:
  "2 \<le> x \<Longrightarrow> x < 32 \<Longrightarrow> y < 64 \<Longrightarrow> encode_char (x * 64 + y) = [0xC0 + x, 0x80 + y]"
  by (simp add: two_digits)

lemma encode_three:
  "x < 16 \<Longrightarrow> y < 64 \<Longrightarrow> z < 64 \<Longrightarrow> 0x800 \<le> x * 4096 + y * 64 + z \<Longrightarrow>
   encode_char (x * 4096 + y * 64 + z) = [0xE0 + x, 0x80 + y, 0x80 + z]"
  by (simp add: three_digits)

lemma encode_four:
  "y < 64 \<Longrightarrow> z < 64 \<Longrightarrow> w < 64 \<Longrightarrow> 0x10000 \<le> x * 262144 + y * 4096 + z * 64 + w \<Longrightarrow>
   encode_char (x * 262144 + y * 4096 + z * 64 + w) = [0xF0 + x, 0x80 + y, 0x80 + z, 0x80 + w]"
  by (simp add: four_digits)

declare encode_char.simps [simp del]

lemma decode_one: "b0 < 0x80 \<Longrightarrow> decode_char (b0 # bs) = Some (b0, bs)"
  by (cases "b0 # bs" rule: decode_char.cases) auto

lemma decode_two:
  "2 \<le> x \<Longrightarrow> x < 32 \<Longrightarrow> y < 64 \<Longrightarrow> decode_char ((0xC0 + x) # (0x80 + y) # bs) = Some (x * 64 + y, bs)"
  by (cases "(0xC0 + x) # (0x80 + y) # bs" rule: decode_char.cases) (auto simp: cont_byte_def)

lemma decode_three:
  "x < 16 \<Longrightarrow> y < 64 \<Longrightarrow> z < 64 \<Longrightarrow> 0x800 \<le> x * 4096 + y * 64 + z \<Longrightarrow> scalar (x * 4096 + y * 64 + z) \<Longrightarrow>
   decode_char ((0xE0 + x) # (0x80 + y) # (0x80 + z) # bs) = Some (x * 4096 + y * 64 + z, bs)"
  by (cases "(0xE0 + x) # (0x80 + y) # (0x80 + z) # bs" rule: decode_char.cases)
    (auto simp: cont_byte_def scalar_def)

lemma decode_four:
  "x < 5 \<Longrightarrow> y < 64 \<Longrightarrow> z < 64 \<Longrightarrow> w < 64 \<Longrightarrow> 0x10000 \<le> x * 262144 + y * 4096 + z * 64 + w \<Longrightarrow>
   x * 262144 + y * 4096 + z * 64 + w < 0x110000 \<Longrightarrow>
   decode_char ((0xF0 + x) # (0x80 + y) # (0x80 + z) # (0x80 + w) # bs) =
     Some (x * 262144 + y * 4096 + z * 64 + w, bs)"
  by (auto simp: cont_byte_def)

lemma scalar_cases:
  assumes "scalar c"
  obtains (one) "c < 0x80"
  | (two) x y where "c = x * 64 + y" "2 \<le> x" "x < 32" "y < 64"
  | (three) x y z where "c = x * 4096 + y * 64 + z" "x < 16" "y < 64" "z < 64" "0x800 \<le> c"
  | (four) x y z w where "c = x * 262144 + y * 4096 + z * 64 + w" "x < 5" "y < 64" "z < 64" "w < 64"
      "0x10000 \<le> c" "c < 0x110000"
proof -
  have e1: "c = c div 64 * 64 + c mod 64" by simp
  have e2: "c div 64 = c div 4096 * 64 + c div 64 mod 64"
    using div_mult_mod_eq [of "c div 64" 64] by (simp add: div_mult2_eq [symmetric])
  have e3: "c div 4096 = c div 262144 * 64 + c div 4096 mod 64"
    using div_mult_mod_eq [of "c div 4096" 64] by (simp add: div_mult2_eq [symmetric])
  have lt: "c div 64 mod 64 < 64" "c mod 64 < 64" "c div 4096 mod 64 < 64" by simp_all
  have "c < 0x110000" using assms by (auto simp: scalar_def)
  then consider "c < 0x80" | "0x80 \<le> c" "c < 0x800" | "0x800 \<le> c" "c < 0x10000"
    | "0x10000 \<le> c" "c < 0x110000"
    by linarith
  then show thesis
  proof cases
    case 1
    then show thesis by (rule one)
  next
    case 2
    have "2 \<le> c div 64" "c div 64 < 32" using 2 e1 lt(2) by linarith+
    with e1 lt(2) show thesis by (intro two [of "c div 64" "c mod 64"]) auto
  next
    case 3
    have d: "c = c div 4096 * 4096 + c div 64 mod 64 * 64 + c mod 64" using e1 e2 by linarith
    moreover have "c div 4096 < 16" using 3 d by linarith
    ultimately show thesis
      using lt 3 by (intro three [of "c div 4096" "c div 64 mod 64" "c mod 64"]) auto
  next
    case 4
    have d: "c = c div 262144 * 262144 + c div 4096 mod 64 * 4096 + c div 64 mod 64 * 64 + c mod 64"
      using e1 e2 e3 by linarith
    moreover have "c div 262144 < 5" using 4 d by linarith
    ultimately show thesis
      using lt 4 by (intro four [of "c div 262144" "c div 4096 mod 64" "c div 64 mod 64" "c mod 64"]) auto
  qed
qed

lemma decode_encode_char:
  assumes "scalar c"
  shows "decode_char (encode_char c @ rest) = Some (c, rest)"
  using assms
proof (cases c rule: scalar_cases)
  case one
  then show ?thesis by (simp add: encode_char.simps decode_one)
next
  case (two x y)
  then show ?thesis using decode_two [of x y rest] by (simp add: encode_two)
next
  case (three x y z)
  then have "0x800 \<le> x * 4096 + y * 64 + z" "scalar (x * 4096 + y * 64 + z)" using assms by auto
  with three show ?thesis
    using encode_three [of x y z] decode_three [of x y z rest] by simp
next
  case (four x y z w)
  then have "0x10000 \<le> x * 262144 + y * 4096 + z * 64 + w"
    "x * 262144 + y * 4096 + z * 64 + w < 0x110000" by auto
  with four show ?thesis
    using encode_four [of y z w x] decode_four [of x y z w rest] by simp
qed

text \<open>Conversely, whatever the decoder accepts is an encoding.\<close>

lemma encode_char_neq_Nil [simp]: "encode_char c \<noteq> []"
  by (simp add: encode_char.simps)

lemma encode_char_byte: "c < 0x110000 \<Longrightarrow> b \<in> set (encode_char c) \<Longrightarrow> b < 256"
  using mod_less_divisor [of 64 c] mod_less_divisor [of 64 "c div 64"]
    mod_less_divisor [of 64 "c div 4096"] div_mult_mod_eq [of c 64] div_mult_mod_eq [of c 4096]
    div_mult_mod_eq [of c 262144]
  by (auto simp: encode_char.simps split: if_splits)

lemma encode_decoded_two:
  assumes "0xC2 \<le> b0" "b0 < 0xE0" "cont_byte b1"
  shows "scalar ((b0 - 0xC0) * 0x40 + (b1 - 0x80)) \<and>
         encode_char ((b0 - 0xC0) * 0x40 + (b1 - 0x80)) = [b0, b1]"
proof -
  have "(b0 - 0xC0) * 0x40 + (b1 - 0x80) < 0x800" using assms by (auto simp: cont_byte_def)
  then show ?thesis
    using assms encode_two [of "b0 - 0xC0" "b1 - 0x80"] by (auto simp: cont_byte_def scalar_def)
qed

lemma encode_decoded_three:
  assumes "0xE0 \<le> b0" "b0 < 0xF0" "cont_byte b1" "cont_byte b2"
    "b0 = 0xE0 \<longrightarrow> 0xA0 \<le> b1" "b0 = 0xED \<longrightarrow> b1 < 0xA0"
  shows "scalar ((b0 - 0xE0) * 0x1000 + (b1 - 0x80) * 0x40 + (b2 - 0x80)) \<and>
         encode_char ((b0 - 0xE0) * 0x1000 + (b1 - 0x80) * 0x40 + (b2 - 0x80)) = [b0, b1, b2]"
proof -
  let ?c = "(b0 - 0xE0) * 0x1000 + (b1 - 0x80) * 0x40 + (b2 - 0x80)"
  have b: "0x80 \<le> b1" "b1 < 0xC0" "0x80 \<le> b2" "b2 < 0xC0" using assms by (auto simp: cont_byte_def)
  have low: "0x800 \<le> ?c" using assms b by (cases "b0 = 0xE0") auto
  have "scalar ?c"
  proof (cases b0 "0xED :: nat" rule: linorder_cases)
    case less
    then have "b0 - 0xE0 \<le> 12" using assms by linarith
    then show ?thesis using b unfolding scalar_def by linarith
  next
    case equal
    then have "b0 - 0xE0 = 13" "b1 - 0x80 < 0x20" using assms b by auto
    then show ?thesis using b unfolding scalar_def by linarith
  next
    case greater
    then have "14 \<le> b0 - 0xE0" "b0 - 0xE0 < 16" using assms by auto
    then show ?thesis using b unfolding scalar_def by linarith
  qed
  then show ?thesis using encode_three [of "b0 - 0xE0" "b1 - 0x80" "b2 - 0x80"] low b assms by simp
qed

lemma encode_decoded_four:
  assumes "0xF0 \<le> b0" "b0 < 0xF5" "cont_byte b1" "cont_byte b2" "cont_byte b3"
    "b0 = 0xF0 \<longrightarrow> 0x90 \<le> b1" "b0 = 0xF4 \<longrightarrow> b1 < 0x90"
  shows "scalar ((b0 - 0xF0) * 0x40000 + (b1 - 0x80) * 0x1000 + (b2 - 0x80) * 0x40 + (b3 - 0x80)) \<and>
         encode_char ((b0 - 0xF0) * 0x40000 + (b1 - 0x80) * 0x1000 + (b2 - 0x80) * 0x40 + (b3 - 0x80)) =
           [b0, b1, b2, b3]"
proof -
  let ?c = "(b0 - 0xF0) * 0x40000 + (b1 - 0x80) * 0x1000 + (b2 - 0x80) * 0x40 + (b3 - 0x80)"
  have b: "0x80 \<le> b1" "b1 < 0xC0" "0x80 \<le> b2" "b2 < 0xC0" "0x80 \<le> b3" "b3 < 0xC0"
    using assms by (auto simp: cont_byte_def)
  have low: "0x10000 \<le> ?c" using assms b by (cases "b0 = 0xF0") auto
  have "?c < 0x110000"
  proof (cases "b0 = 0xF4")
    case True
    then have "b0 - 0xF0 = 4" "b1 - 0x80 < 0x10" using assms b by auto
    then show ?thesis using b by linarith
  next
    case False
    then have "b0 - 0xF0 < 4" using assms by auto
    then show ?thesis using b by linarith
  qed
  then show ?thesis
    using encode_four [of "b1 - 0x80" "b2 - 0x80" "b3 - 0x80" "b0 - 0xF0"] low b assms
    by (simp add: scalar_def)
qed

lemma encode_one: "c < 0x80 \<Longrightarrow> scalar c \<and> encode_char c = [c]"
  by (simp add: encode_char.simps scalar_def)

lemmas encode_decoded = encode_one encode_decoded_two encode_decoded_three encode_decoded_four

lemma if_SomeE:
  assumes "(if b then Some x else m) = Some y"
  obtains "b" and "x = y" | "\<not> b" and "m = Some y"
  using assms by (auto split: if_splits)

lemma decode_char_SomeD:
  assumes "decode_char bs = Some (c, rest)"
  shows "scalar c \<and> bs = encode_char c @ rest"
  using assms
proof (cases bs rule: decode_char.cases)
  case (1 b0 b1 b2 b3 bs')
  show ?thesis
    using assms unfolding 1 decode_char.simps
    by (elim if_SomeE; clarsimp simp: encode_decoded)
next
  case (2 b0 b1 b2)
  show ?thesis
    using assms unfolding 2 decode_char.simps
    by (elim if_SomeE; clarsimp simp: encode_decoded)
next
  case (3 b0 b1)
  show ?thesis
    using assms unfolding 3 decode_char.simps
    by (elim if_SomeE; clarsimp simp: encode_decoded)
qed (auto simp: encode_decoded split: if_splits)

lemma decode_bytes_encode:
  "valid_str s \<Longrightarrow> decode_bytes (concat (map encode_char s)) = Some s"
proof (induction s)
  case Nil
  then show ?case by (simp add: decode_bytes.simps)
next
  case (Cons c s)
  then show ?case
    using decode_encode_char [of c "concat (map encode_char s)"]
    by (simp add: decode_bytes.simps [of "encode_char c @ _"] valid_str_def)
qed

lemma decode_bytes_SomeD:
  "decode_bytes bs = Some s \<Longrightarrow> valid_str s \<and> bs = concat (map encode_char s)"
proof (induction bs arbitrary: s rule: decode_bytes.induct)
  case (1 bs)
  show ?case
  proof (cases "decode_char bs")
    case None
    with 1 show ?thesis
      by (cases "bs = []") (simp_all add: decode_bytes.simps [of bs] decode_bytes.simps [of "[]"] valid_str_def)
  next
    case (Some p)
    obtain c rest where p: "p = (c, rest)" by (cases p)
    show ?thesis
    proof (cases "bs = []")
      case True
      with 1 show ?thesis by (simp add: decode_bytes.simps [of "[]"] valid_str_def)
    next
      case False
      with 1 Some p obtain t where t: "decode_bytes rest = Some t" "s = c # t"
        by (auto simp: decode_bytes.simps [of bs])
      with 1(1) [OF False Some] p decode_char_SomeD [of bs c rest] Some
      show ?thesis by (simp add: valid_str_def)
    qed
  qed
qed

lemma encoded_bytes_small:
  assumes "valid_str s" and "b \<in> set (concat (map encode_char s))"
  shows "b < 256"
proof -
  obtain c where "c \<in> set s" "b \<in> set (encode_char c)" using assms(2) by auto
  with assms(1) encode_char_byte [of c b] show ?thesis
    by (auto simp: valid_str_def list_all_iff scalar_def)
qed

lemma unat_as_bytes: "valid_str s \<Longrightarrow> map unat (as_bytes s) = concat (map encode_char s)"
  unfolding as_bytes_def map_map
  by (rule map_idI) (auto simp: unat_of_nat dest: encoded_bytes_small simp del: set_concat)

lemma from_utf8_iff: "from_utf8 bs = Some s \<longleftrightarrow> valid_str s \<and> as_bytes s = bs"
proof
  assume "from_utf8 bs = Some s"
  then have d: "valid_str s" "map unat bs = concat (map encode_char s)"
    using decode_bytes_SomeD by (auto simp: from_utf8_def)
  moreover have "as_bytes s = bs" unfolding as_bytes_def d(2) [symmetric] by (simp add: o_def)
  ultimately show "valid_str s \<and> as_bytes s = bs" by simp
next
  assume a: "valid_str s \<and> as_bytes s = bs"
  then show "from_utf8 bs = Some s"
    using unat_as_bytes [of s] decode_bytes_encode [of s] by (auto simp: from_utf8_def)
qed

interpretation utf8: byte_codec as_bytes from_utf8 valid_str
  by unfold_locales (rule from_utf8_iff)

lemmas from_utf8_as_bytes [simp] = utf8.decode_encode

lemma as_bytes_append [simp]: "as_bytes (s @ t) = as_bytes s @ as_bytes t"
  by (simp add: as_bytes_def)

lemma as_bytes_Nil [simp]: "as_bytes [] = []"
  by (simp add: as_bytes_def)

lemma as_bytes_ascii: "\<forall>c\<in>set s. c < 0x80 \<Longrightarrow> as_bytes s = map word_of_nat s"
  by (induction s) (auto simp: as_bytes_def encode_one)

lemma str_len_ascii: "\<forall>c\<in>set s. c < 0x80 \<Longrightarrow> str_len s = length s"
  by (simp add: str_len_def as_bytes_ascii)

lemma str_len_Nil [simp]: "str_len [] = 0"
  by (simp add: str_len_def)

lemma str_len_append [simp]: "str_len (s @ t) = str_len s + str_len t"
  by (simp add: str_len_def)

lemma str_len_eq_0 [simp]: "str_len s = 0 \<longleftrightarrow> s = []"
  by (cases s) (auto simp: str_len_def as_bytes_def)

section \<open>Validity of the strings the methods return\<close>

lemma valid_str_simps [simp]:
  "valid_str []" "valid_str (c # s) \<longleftrightarrow> scalar c \<and> valid_str s"
  "valid_str (s @ t) \<longleftrightarrow> valid_str s \<and> valid_str t"
  by (auto simp: valid_str_def)

lemma valid_str_sub: "valid_str s \<Longrightarrow> set t \<subseteq> set s \<Longrightarrow> valid_str t"
  by (auto simp: valid_str_def list_all_iff)

lemma valid_str_lit [simp]: "valid_str (lit s)"
proof -
  have "of_char c < (0xD800 :: nat)" for c
    using nat_of_char_less_256 [of c] by linarith
  then show ?thesis by (auto simp: valid_str_def lit_def list_all_iff scalar_def)
qed

lemma lit_inject [simp]: "lit s = lit t \<longleftrightarrow> s = t"
proof -
  have "inj (of_char :: char \<Rightarrow> nat)" by (rule inj_of_char)
  then show ?thesis unfolding lit_def by simp
qed

lemma trim_subset: "set (trim s) \<subseteq> set s"
  by (auto simp: trim_def dest!: set_dropWhileD)

lemma valid_str_trim [simp]: "valid_str s \<Longrightarrow> valid_str (trim s)"
  by (erule valid_str_sub) (rule trim_subset)

lemma trim_ends:
  assumes "trim s \<noteq> []"
  shows "\<not> is_whitespace (hd (trim s))" and "\<not> is_whitespace (last (trim s))"
proof -
  let ?t = "dropWhile is_whitespace s"
  have ne: "dropWhile is_whitespace (rev ?t) \<noteq> []" using assms by (simp add: trim_def)
  show "\<not> is_whitespace (last (trim s))"
    using hd_dropWhile [OF ne] by (simp add: trim_def last_rev del: dropWhile_eq_Nil_conv)
  obtain pre where pre: "rev ?t = pre @ dropWhile is_whitespace (rev ?t)"
    by (metis takeWhile_dropWhile_id)
  then have "?t = trim s @ rev pre" unfolding trim_def by (metis rev_append rev_rev_ident)
  moreover from this assms have "?t \<noteq> []" by (cases ?t) auto
  ultimately show "\<not> is_whitespace (hd (trim s))"
    using hd_dropWhile [of is_whitespace s] assms by (metis hd_append2)
qed

lemma trim_fixed:
  assumes "\<not> is_whitespace (hd s)" and "\<not> is_whitespace (last s)"
  shows "trim s = s"
proof (cases "s = []")
  case True
  then show ?thesis by (simp add: trim_def)
next
  case False
  then have "dropWhile is_whitespace s = s" using assms(1) by (cases s) auto
  moreover have "dropWhile is_whitespace (rev s) = rev s"
    using False assms(2) by (cases "rev s") (auto simp: last_rev [symmetric])
  ultimately show ?thesis by (simp add: trim_def)
qed

lemma trim_trim [simp]: "trim (trim s) = trim s"
proof (cases "trim s = []")
  case True
  then show ?thesis by (simp add: trim_def [of "[]"])
next
  case False
  then show ?thesis using trim_ends by (intro trim_fixed)
qed

lemma split_whitespace_words:
  "w \<in> set (split_whitespace s) \<Longrightarrow>
   w \<noteq> [] \<and> (\<forall>c\<in>set w. \<not> is_whitespace c) \<and> set w \<subseteq> set s"
proof (induction s rule: split_whitespace.induct)
  case (1 s)
  let ?t = "dropWhile is_whitespace s"
  show ?case
  proof (cases "?t = []")
    case True
    with 1 show ?thesis by (simp add: split_whitespace.simps [of s])
  next
    case False
    then have h: "\<not> is_whitespace (hd ?t)" by (rule hd_dropWhile)
    have sub: "set ?t \<subseteq> set s" by (auto dest: set_dropWhileD)
    have "w = takeWhile (\<lambda>c. \<not> is_whitespace c) ?t \<or>
          w \<in> set (split_whitespace (dropWhile (\<lambda>c. \<not> is_whitespace c) ?t))"
      using 1(2) False unfolding split_whitespace.simps [of s] Let_def by (simp only: if_False list.set) blast
    then show ?thesis
    proof
      assume "w = takeWhile (\<lambda>c. \<not> is_whitespace c) ?t"
      then show ?thesis using False h sub by (cases ?t) (auto dest: set_takeWhileD)
    next
      assume "w \<in> set (split_whitespace (dropWhile (\<lambda>c. \<not> is_whitespace c) ?t))"
      with 1(1) [OF refl False] sub show ?thesis by (auto dest: set_dropWhileD)
    qed
  qed
qed

lemma split_whitespace_Cons: "is_whitespace c \<Longrightarrow> split_whitespace (c # s) = split_whitespace s"
  by (subst (1 2) split_whitespace.simps) simp

lemma split_whitespace_word:
  assumes "w \<noteq> []" and "\<forall>c\<in>set w. \<not> is_whitespace c"
  shows "split_whitespace w = [w]"
    and "is_whitespace c \<Longrightarrow> split_whitespace (w @ c # s) = w # split_whitespace s"
proof -
  have drop: "dropWhile is_whitespace (w @ x) = w @ x" for x
    using assms by (cases w) auto
  have take: "takeWhile (\<lambda>c. \<not> is_whitespace c) w = w" "dropWhile (\<lambda>c. \<not> is_whitespace c) w = []"
    using assms(2) by auto
  have "split_whitespace [] = []" by (subst split_whitespace.simps) simp
  then show "split_whitespace w = [w]"
    using drop [of "[]"] assms(1)
    unfolding split_whitespace.simps [of w] Let_def append_Nil2 by (simp add: take del: dropWhile_eq_Nil_conv)
  assume c: "is_whitespace c"
  have "takeWhile (\<lambda>c. \<not> is_whitespace c) (w @ c # s) = w"
    "dropWhile (\<lambda>c. \<not> is_whitespace c) (w @ c # s) = c # s"
    using assms(2) c by (simp_all add: takeWhile_append2 dropWhile_append2)
  then show "split_whitespace (w @ c # s) = w # split_whitespace s"
    using drop [of "c # s"] assms(1) split_whitespace_Cons [OF c]
    by (subst split_whitespace.simps) (simp add: Let_def)
qed

lemma strip_prefix_append [simp]: "strip_prefix p (p @ s) = Some s"
  by (simp add: strip_prefix_def)

lemma split_once_append:
  assumes "c \<notin> set a"
  shows "split_once c (a @ c # b) = Some (a, b)"
proof -
  have "\<forall>x\<in>set a. x \<noteq> c" using assms by auto
  then have "dropWhile (\<lambda>x. x \<noteq> c) (a @ c # b) = c # b" "takeWhile (\<lambda>x. x \<noteq> c) (a @ c # b) = a"
    by (simp_all add: dropWhile_append2 takeWhile_append2)
  then show ?thesis by (simp add: split_once_def)
qed

end
