(* ===== verification/Host.thy ===== *)
theory Host
  imports Rust_Str "HOL-Library.Sublist"
begin

text \<open>
  The computer on which the build tool \<^verbatim>\<open>tools/xtask\<close> runs, as far as its calls of \<^verbatim>\<open>std\<close> go:
  environment variables, paths, the file system, child processes, the clock and the output.

  What other programs do is not under the control of the tool and is the argument \<open>machine\<close>.  All of
  its fields that depend on time are functions of the number of operating system calls made so far:
  \<open>fault\<close> says whether the \<open>n\<close>-th call fails (and with which message), \<open>run_program\<close> what a
  program that is run to completion does to the file system (\<open>None\<close> when it never ends), \<open>progress\<close> what a running QEMU has done
  to it when the \<open>n\<close>-th call is made, \<open>exited\<close> whether QEMU has ended by then, and \<open>clock\<close> the time in
  nanoseconds.  The texts that \<^verbatim>\<open>std\<close> makes of floating-point numbers, of \<open>Debug\<close> values and of
  operating system errors are fields too, since the tool only prints them.
\<close>

section \<open>Strings\<close>

text \<open>\<open>str::contains\<close>, \<open>str::lines\<close>, \<open>join\<close>, \<open>format!("{:x}")\<close> of a digest, and \<open>str::parse\<close> for an
  unsigned integer below \<open>bound\<close>.\<close>

definition str_contains :: "rstr \<Rightarrow> rstr \<Rightarrow> bool" where
  "str_contains t pat = sublist pat t"

definition strip_cr :: "rstr \<Rightarrow> rstr" where
  "strip_cr l = (if l \<noteq> [] \<and> last l = 0x0D then butlast l else l)"

function str_lines :: "rstr \<Rightarrow> rstr list" where
  "str_lines s =
     (if s = [] then []
      else case dropWhile (\<lambda>c. c \<noteq> 0x0A) s of
        [] \<Rightarrow> [s]
      | _ # rest \<Rightarrow> strip_cr (takeWhile (\<lambda>c. c \<noteq> 0x0A) s) # str_lines rest)"
  by pat_completeness auto
termination
proof (relation "measure length", simp, goal_cases)
  case (1 s c rest)
  then have "length (c # rest) \<le> length s" using length_dropWhile_le [of "\<lambda>c. c \<noteq> 0x0A" s] by simp
  then show ?case by simp
qed

declare str_lines.simps [simp del]

fun str_join :: "rstr \<Rightarrow> rstr list \<Rightarrow> rstr" where
  "str_join sep [] = []"
| "str_join sep [l] = l"
| "str_join sep (l # m # ls) = l @ sep @ str_join sep (m # ls)"

definition hex_bytes :: "u8 list \<Rightarrow> rstr" where
  "hex_bytes bs = concat (map (\<lambda>b. [hex_digit (unat b div 16), hex_digit (unat b mod 16)]) bs)"

definition is_digit :: "rchar \<Rightarrow> bool" where
  "is_digit c \<longleftrightarrow> 0x30 \<le> c \<and> c \<le> 0x39"

definition digits_value :: "rstr \<Rightarrow> nat" where
  "digits_value ds = foldl (\<lambda>n c. n * 10 + (c - 0x30)) 0 ds"

definition parse_uint :: "nat \<Rightarrow> rstr \<Rightarrow> nat option" where
  "parse_uint bound s =
     (let ds = (case s of c # cs \<Rightarrow> if c = 0x2B then cs else s | [] \<Rightarrow> [])
      in if ds = [] \<or> \<not> list_all is_digit ds \<or> bound \<le> digits_value ds then None
         else Some (digits_value ds))"

section \<open>Operating system strings and paths\<close>

text \<open>An \<open>OsString\<close> is text in which some bytes may not be Unicode.\<close>

datatype os_char = Scalar rchar | IllFormed "u8 list"

type_synonym os_str = "os_char list"
type_synonym path = os_str

definition os :: "rstr \<Rightarrow> os_str" where
  "os s = map Scalar s"

abbreviation os_lit :: "string \<Rightarrow> os_str" where
  "os_lit s \<equiv> os (lit s)"

fun lossy_char :: "os_char \<Rightarrow> rchar" where
  "lossy_char (Scalar c) = c"
| "lossy_char (IllFormed _) = 0xFFFD"

definition to_string_lossy :: "os_str \<Rightarrow> rstr" where
  "to_string_lossy p = map lossy_char p"

fun is_scalar :: "os_char \<Rightarrow> bool" where
  "is_scalar (Scalar _) = True"
| "is_scalar (IllFormed _) = False"

definition to_str :: "os_str \<Rightarrow> rstr option" where
  "to_str p = (if list_all is_scalar p then Some (to_string_lossy p) else None)"

text \<open>Separators, \<open>Path::join\<close> with a relative path, \<open>Path::parent\<close> (of a path without trailing or repeated
  separators), and \<open>env::split_paths\<close>.\<close>

definition is_separator :: "bool \<Rightarrow> os_char \<Rightarrow> bool" where
  "is_separator windows c \<longleftrightarrow> c = Scalar 0x2F \<or> windows \<and> c = Scalar 0x5C"

definition main_separator :: "bool \<Rightarrow> os_char" where
  "main_separator windows = (if windows then Scalar 0x5C else Scalar 0x2F)"

definition is_drive :: "path \<Rightarrow> bool" where
  "is_drive p = (case p of
     [Scalar d, Scalar c] \<Rightarrow> c = 0x3A \<and> (0x41 \<le> d \<and> d \<le> 0x5A \<or> 0x61 \<le> d \<and> d \<le> 0x7A) | _ \<Rightarrow> False)"

definition path_join :: "bool \<Rightarrow> path \<Rightarrow> path \<Rightarrow> path" where
  "path_join windows base name =
     (if base = [] then name
      else if is_separator windows (last base) \<or> windows \<and> is_drive base then base @ name
      else base @ main_separator windows # name)"

definition path_parent :: "bool \<Rightarrow> path \<Rightarrow> path option" where
  "path_parent windows p =
     (case dropWhile (\<lambda>c. \<not> is_separator windows c) (rev p) of
        [] \<Rightarrow> if p = [] then None else Some []
      | c # up \<Rightarrow> if up = [] then (if length p = 1 then None else Some [c]) else Some (rev up))"

fun split_unix :: "os_str \<Rightarrow> os_str \<Rightarrow> path list" where
  "split_unix acc [] = [rev acc]"
| "split_unix acc (c # cs) =
     (if c = Scalar 0x3A then rev acc # split_unix [] cs else split_unix (c # acc) cs)"

fun split_windows :: "bool \<Rightarrow> os_str \<Rightarrow> os_str \<Rightarrow> path list" where
  "split_windows quoted acc [] = [rev acc]"
| "split_windows quoted acc (c # cs) =
     (if c = Scalar 0x22 then split_windows (\<not> quoted) acc cs
      else if c = Scalar 0x3B \<and> \<not> quoted then rev acc # split_windows quoted [] cs
      else split_windows quoted (c # acc) cs)"

definition split_paths :: "bool \<Rightarrow> os_str \<Rightarrow> path list" where
  "split_paths windows p = (if windows then split_windows False [] p else split_unix [] p)"

text \<open>The paths \<open>create_dir_all\<close> makes sure of, and the paths inside a directory.\<close>

definition ancestors :: "bool \<Rightarrow> path \<Rightarrow> path list" where
  "ancestors windows p = map (\<lambda>i. take i p) (filter (\<lambda>i. is_separator windows (p ! i)) [1..<length p]) @ [p]"

definition inside :: "bool \<Rightarrow> path \<Rightarrow> path \<Rightarrow> bool" where
  "inside windows d p \<longleftrightarrow> length d < length p \<and> take (length d) p = d \<and> is_separator windows (p ! length d)"

section \<open>The machine and its state\<close>

datatype node = Dir | File "u8 list"

type_synonym file_system = "path \<Rightarrow> node option"

fun is_file :: "node option \<Rightarrow> bool" where
  "is_file (Some (File _)) = True"
| "is_file (Some Dir) = False"
| "is_file None = False"

record Command =
  program_name :: os_str
  arguments :: "os_str list"
  current_dir :: "path option"

definition Command_new :: "os_str \<Rightarrow> Command" where
  "Command_new p = \<lparr>program_name = p, arguments = [], current_dir = None\<rparr>"

definition add_args :: "os_str list \<Rightarrow> Command \<Rightarrow> Command" where
  "add_args as c = c\<lparr>arguments := arguments c @ as\<rparr>"

record ExitStatus =
  exit_success :: bool
  exit_text :: rstr

datatype os_error = NotFoundError | NotADirectoryError | IsADirectoryError | InvalidDataError

record machine =
  cfg_windows :: bool
  manifest_dir :: path
  cli_args :: "rstr list"
  env :: "rstr \<Rightarrow> os_str option"
  fault :: "nat \<Rightarrow> rstr option"
  run_program :: "nat \<Rightarrow> Command \<Rightarrow> file_system \<Rightarrow> (ExitStatus \<times> file_system) option"
  progress :: "nat \<Rightarrow> file_system \<Rightarrow> file_system"
  exited :: "nat \<Rightarrow> ExitStatus option"
  clock :: "nat \<Rightarrow> nat"
  qemu_stderr :: "u8 list"
  sha256 :: "u8 list \<Rightarrow> u8 list"
  error_text :: "os_error \<Rightarrow> rstr"
  seconds_text :: "nat \<Rightarrow> rstr"
  debug_path :: "path \<Rightarrow> rstr"
  debug_key :: "rchar \<Rightarrow> rstr"

datatype child_state = NoChild | Unreaped | Reaped

record host =
  calls :: nat
  h_files :: file_system
  h_stdout :: "rstr list"
  h_stderr :: "rstr list"
  started :: "(Command \<times> file_system) list"
  child :: child_state
  child_killed :: bool
  stderr_taken :: bool
  monitor :: "u8 list"

section \<open>Calls of the operating system\<close>

text \<open>A call returns a value or an error; one that waits for another program may also never return (\<open>None\<close>).\<close>

type_synonym 'a io = "host \<Rightarrow> (rstr + 'a) \<times> host"
type_synonym 'a waiting = "host \<Rightarrow> ((rstr + 'a) \<times> host) option"

text \<open>Time passes with every call; a running QEMU may have changed the file system.\<close>

definition pass :: "machine \<Rightarrow> host \<Rightarrow> host" where
  "pass m h = h\<lparr>calls := Suc (calls h),
     h_files := (if child h = Unreaped then progress m (calls h) (h_files h) else h_files h)\<rparr>"

definition os_call :: "machine \<Rightarrow> (host \<Rightarrow> (rstr + 'a) \<times> host) \<Rightarrow> 'a io" where
  "os_call m op h = (case fault m (calls h) of Some e \<Rightarrow> (Inl e, pass m h) | None \<Rightarrow> op (pass m h))"

definition path_exists :: "machine \<Rightarrow> path \<Rightarrow> host \<Rightarrow> bool \<times> host" where
  "path_exists m p h = (fault m (calls h) = None \<and> h_files (pass m h) p \<noteq> None, pass m h)"

definition read_file :: "machine \<Rightarrow> path \<Rightarrow> u8 list io" where
  "read_file m p = os_call m (\<lambda>h. case h_files h p of
     None \<Rightarrow> (Inl (error_text m NotFoundError), h)
   | Some Dir \<Rightarrow> (Inl (error_text m IsADirectoryError), h)
   | Some (File bs) \<Rightarrow> (Inr bs, h))"

definition io_bind :: "'a io \<Rightarrow> ('a \<Rightarrow> 'b io) \<Rightarrow> 'b io" where
  "io_bind op f h = (case op h of (Inl e, h') \<Rightarrow> (Inl e, h') | (Inr x, h') \<Rightarrow> f x h')"

definition read_to_string :: "machine \<Rightarrow> path \<Rightarrow> rstr io" where
  "read_to_string m p = io_bind (read_file m p) (\<lambda>bs h.
     case from_utf8 bs of None \<Rightarrow> (Inl (error_text m InvalidDataError), h) | Some t \<Rightarrow> (Inr t, h))"

definition parent_is_dir :: "machine \<Rightarrow> path \<Rightarrow> file_system \<Rightarrow> bool" where
  "parent_is_dir m p fs \<longleftrightarrow>
     (case path_parent (cfg_windows m) p of None \<Rightarrow> False | Some d \<Rightarrow> d = [] \<or> fs d = Some Dir)"

definition copy_file :: "machine \<Rightarrow> path \<Rightarrow> path \<Rightarrow> unit io" where
  "copy_file m src dst = os_call m (\<lambda>h. case h_files h src of
     None \<Rightarrow> (Inl (error_text m NotFoundError), h)
   | Some Dir \<Rightarrow> (Inl (error_text m IsADirectoryError), h)
   | Some (File bs) \<Rightarrow>
       if h_files h dst = Some Dir then (Inl (error_text m IsADirectoryError), h)
       else if \<not> parent_is_dir m dst (h_files h) then (Inl (error_text m NotFoundError), h)
       else (Inr (), h\<lparr>h_files := (h_files h)(dst \<mapsto> File bs)\<rparr>))"

definition remove_file :: "machine \<Rightarrow> path \<Rightarrow> unit io" where
  "remove_file m p = os_call m (\<lambda>h. case h_files h p of
     None \<Rightarrow> (Inl (error_text m NotFoundError), h)
   | Some Dir \<Rightarrow> (Inl (error_text m IsADirectoryError), h)
   | Some (File _) \<Rightarrow> (Inr (), h\<lparr>h_files := (h_files h)(p := None)\<rparr>))"

definition remove_dir_all :: "machine \<Rightarrow> path \<Rightarrow> unit io" where
  "remove_dir_all m d = os_call m (\<lambda>h. case h_files h d of
     None \<Rightarrow> (Inl (error_text m NotFoundError), h)
   | Some (File _) \<Rightarrow> (Inl (error_text m NotADirectoryError), h)
   | Some Dir \<Rightarrow> (Inr (), h\<lparr>h_files :=
       (\<lambda>p. if p = d \<or> inside (cfg_windows m) d p then None else h_files h p)\<rparr>))"

definition create_dir_all :: "machine \<Rightarrow> path \<Rightarrow> unit io" where
  "create_dir_all m d = os_call m (\<lambda>h.
     if list_ex (\<lambda>p. is_file (h_files h p)) (ancestors (cfg_windows m) d)
     then (Inl (error_text m NotADirectoryError), h)
     else (Inr (), h\<lparr>h_files :=
       (\<lambda>p. if p \<in> set (ancestors (cfg_windows m) d) then Some Dir else h_files h p)\<rparr>))"

text \<open>Programs: \<open>Command::status\<close> runs one to completion and waits for its end, \<open>Command::spawn\<close> starts QEMU.\<close>

definition command_status :: "machine \<Rightarrow> Command \<Rightarrow> ExitStatus waiting" where
  "command_status m c h =
     (case fault m (calls h) of
        Some e \<Rightarrow> Some (Inl e, pass m h)
      | None \<Rightarrow>
          (case run_program m (calls h) c (h_files (pass m h)) of
             None \<Rightarrow> None
           | Some (status, fs) \<Rightarrow>
               Some (Inr status, (pass m h)\<lparr>h_files := fs, started := started h @ [(c, h_files (pass m h))]\<rparr>)))"

definition command_spawn :: "machine \<Rightarrow> Command \<Rightarrow> unit io" where
  "command_spawn m c = os_call m (\<lambda>h.
     (Inr (), h\<lparr>started := started h @ [(c, h_files h)], child := Unreaped, child_killed := False, stderr_taken := False\<rparr>))"

definition child_try_wait :: "machine \<Rightarrow> ExitStatus option io" where
  "child_try_wait m h = os_call m (\<lambda>h'. case exited m (calls h) of
     None \<Rightarrow> (Inr None, h') | Some s \<Rightarrow> (Inr (Some s), h'\<lparr>child := Reaped\<rparr>)) h"

definition child_kill :: "machine \<Rightarrow> unit io" where
  "child_kill m = os_call m (\<lambda>h. (Inr (), h\<lparr>child_killed := True\<rparr>))"

text \<open>\<open>Child::wait\<close> blocks while time passes until the child has been killed or has ended by itself.\<close>

partial_function (option) child_exit :: "machine \<Rightarrow> host \<Rightarrow> host option" where
  "child_exit m h =
     (if child h \<noteq> Unreaped \<or> child_killed h \<or> exited m (calls h) \<noteq> None then Some (h\<lparr>child := Reaped\<rparr>)
      else child_exit m (pass m h))"

definition child_wait :: "machine \<Rightarrow> unit waiting" where
  "child_wait m h =
     (case fault m (calls h) of
        Some e \<Rightarrow> Some (Inl e, pass m h)
      | None \<Rightarrow> map_option (\<lambda>h'. (Inr (), h')) (child_exit m (pass m h)))"

definition connect_port :: "machine \<Rightarrow> unit io" where
  "connect_port m = os_call m (\<lambda>h. (Inr (), h))"

definition stream_write_all :: "machine \<Rightarrow> u8 list \<Rightarrow> unit io" where
  "stream_write_all m bs = os_call m (\<lambda>h. (Inr (), h\<lparr>monitor := monitor h @ bs\<rparr>))"

text \<open>What QEMU has written to its standard error; the tool reads it after \<open>try_wait\<close> has reported QEMU's end, when the
  pipe is closed.\<close>

definition read_stderr :: "machine \<Rightarrow> rstr io" where
  "read_stderr m = os_call m (\<lambda>h. case from_utf8 (qemu_stderr m) of
     None \<Rightarrow> (Inl (error_text m InvalidDataError), h) | Some t \<Rightarrow> (Inr t, h))"

definition env_var :: "machine \<Rightarrow> rstr \<Rightarrow> rstr option" where
  "env_var m name = Option.bind (env m name) to_str"

section \<open>The tool's computations\<close>

text \<open>A function of the tool returns a value or an error message (\<open>Result<_, String>\<close>), may panic, and
  may wait forever (\<open>None\<close>).\<close>

datatype xerror = Err rstr | Panicked rstr

type_synonym 'a xm = "host \<Rightarrow> ((xerror + 'a) \<times> host) option"

definition xok :: "'a \<Rightarrow> 'a xm" where
  "xok x h = Some (Inr x, h)"

definition xerr :: "rstr \<Rightarrow> 'a xm" where
  "xerr e h = Some (Inl (Err e), h)"

definition xpanic :: "rstr \<Rightarrow> 'a xm" where
  "xpanic e h = Some (Inl (Panicked e), h)"

definition xbind :: "'a xm \<Rightarrow> ('a \<Rightarrow> 'b xm) \<Rightarrow> 'b xm" where
  "xbind c f h = (case c h of
     None \<Rightarrow> None
   | Some (r, h') \<Rightarrow> (case r of Inl e \<Rightarrow> Some (Inl e, h') | Inr x \<Rightarrow> f x h'))"

definition xthen :: "'a xm \<Rightarrow> 'b xm \<Rightarrow> 'b xm" where
  "xthen c d = xbind c (\<lambda>_. d)"

text \<open>\<open>op.map_err(msg)?\<close>, the same for a call that waits, a call that cannot fail, and \<open>println!\<close>.\<close>

definition xtry :: "(rstr \<Rightarrow> rstr) \<Rightarrow> 'a io \<Rightarrow> 'a xm" where
  "xtry msg op h = (case op h of (Inl e, h') \<Rightarrow> Some (Inl (Err (msg e)), h') | (Inr x, h') \<Rightarrow> Some (Inr x, h'))"

definition xwait :: "(rstr \<Rightarrow> rstr) \<Rightarrow> 'a waiting \<Rightarrow> 'a xm" where
  "xwait msg op h = (case op h of None \<Rightarrow> None | Some r \<Rightarrow> xtry msg (\<lambda>_. r) h)"

definition xpure :: "(host \<Rightarrow> 'a \<times> host) \<Rightarrow> 'a xm" where
  "xpure op h = (case op h of (x, h') \<Rightarrow> Some (Inr x, h'))"

definition xprint :: "rstr \<Rightarrow> unit xm" where
  "xprint l h = Some (Inr (), h\<lparr>h_stdout := h_stdout h @ [l]\<rparr>)"

text \<open>\<open>Instant::now\<close> and \<open>thread::sleep\<close>; a sleep ends when other calls have been made.\<close>

definition instant_now :: "machine \<Rightarrow> nat xm" where
  "instant_now m = xpure (\<lambda>h. (clock m (calls h), pass m h))"

definition sleep :: "machine \<Rightarrow> unit xm" where
  "sleep m = xpure (\<lambda>h. ((), pass m h))"

text \<open>A \<open>loop\<close> whose body returns (\<open>Some\<close>) or goes round again (\<open>None\<close>).\<close>

partial_function (option) xloop :: "'a option xm \<Rightarrow> 'a xm" where
  "xloop body h =
     (case body h of
        None \<Rightarrow> None
      | Some (r, h') \<Rightarrow>
          (case r of
             Inl e \<Rightarrow> Some (Inl e, h')
           | Inr again \<Rightarrow> (case again of Some x \<Rightarrow> Some (Inr x, h') | None \<Rightarrow> xloop body h')))"

definition xlift :: "rstr + 'a \<Rightarrow> 'a xm" where
  "xlift r = (case r of Inl e \<Rightarrow> xerr e | Inr x \<Rightarrow> xok x)"

fun xfor :: "('a \<Rightarrow> unit xm) \<Rightarrow> 'a list \<Rightarrow> unit xm" where
  "xfor f [] = xok ()"
| "xfor f (x # xs) = xthen (f x) (xfor f xs)"

fun xfind_existing :: "machine \<Rightarrow> path list \<Rightarrow> path option xm" where
  "xfind_existing m [] = xok None"
| "xfind_existing m (p # ps) =
     xbind (xpure (path_exists m p)) (\<lambda>e. if e then xok (Some p) else xfind_existing m ps)"

section \<open>Successful runs\<close>

lemma xok_simp [simp]: "xok x h = Some (Inr x, h)"
  by (simp add: xok_def)

lemma xerr_simp [simp]: "xerr e h = Some (Inl (Err e), h)"
  by (simp add: xerr_def)

lemma xpanic_simp [simp]: "xpanic e h = Some (Inl (Panicked e), h)"
  by (simp add: xpanic_def)

lemma xprint_simp [simp]: "xprint l h = Some (Inr (), h\<lparr>h_stdout := h_stdout h @ [l]\<rparr>)"
  by (simp add: xprint_def)

lemma xpure_simp: "xpure op h = Some (Inr (fst (op h)), snd (op h))"
  by (simp add: xpure_def split: prod.split)

lemma xbind_InrE:
  assumes "xbind c f h = Some (Inr y, h')"
  obtains x h1 where "c h = Some (Inr x, h1)" and "f x h1 = Some (Inr y, h')"
  using assms by (auto simp: xbind_def split: option.splits sum.splits)

lemma xthen_InrE:
  assumes "xthen c d h = Some (Inr y, h')"
  obtains x h1 where "c h = Some (Inr x, h1)" and "d h1 = Some (Inr y, h')"
  using assms unfolding xthen_def by (rule xbind_InrE)

lemma xtry_Inr_iff [simp]: "xtry msg op h = Some (Inr x, h') \<longleftrightarrow> op h = (Inr x, h')"
  by (auto simp: xtry_def split: prod.splits sum.splits)

lemma xwait_Inr_iff [simp]: "xwait msg op h = Some (Inr x, h') \<longleftrightarrow> op h = Some (Inr x, h')"
  by (auto simp: xwait_def xtry_def split: option.splits prod.splits sum.splits)

lemma xwait_state: "xwait msg op h = Some (r, h') \<Longrightarrow> \<exists>r'. op h = Some (r', h')"
  by (auto simp: xwait_def xtry_def split: option.splits prod.splits sum.splits)

lemma xbind_apply:
  "c h = Some (Inr x, h1) \<Longrightarrow> xbind c f h = f x h1"
  "c h = Some (Inl e, h1) \<Longrightarrow> xbind c f h = Some (Inl e, h1)"
  by (simp_all add: xbind_def)

lemma xthen_apply:
  "c h = Some (Inr x, h1) \<Longrightarrow> xthen c d h = d h1"
  "c h = Some (Inl e, h1) \<Longrightarrow> xthen c d h = Some (Inl e, h1)"
  by (simp_all add: xthen_def xbind_def)

lemma io_bind_Inr_iff:
  "io_bind op f h = (Inr y, h') \<longleftrightarrow> (\<exists>x h1. op h = (Inr x, h1) \<and> f x h1 = (Inr y, h'))"
  by (auto simp: io_bind_def split: prod.splits sum.splits)

lemma os_call_Inr_iff:
  "os_call m op h = (Inr x, h') \<longleftrightarrow> fault m (calls h) = None \<and> op (pass m h) = (Inr x, h')"
  by (auto simp: os_call_def split: option.splits)

lemma pass_simps [simp]:
  "calls (pass m h) = Suc (calls h)" "child (pass m h) = child h" "monitor (pass m h) = monitor h"
  "started (pass m h) = started h" "child_killed (pass m h) = child_killed h" "h_stdout (pass m h) = h_stdout h" "stderr_taken (pass m h) = stderr_taken h"
  "child h \<noteq> Unreaped \<Longrightarrow> h_files (pass m h) = h_files h"
  by (simp_all add: pass_def)

text \<open>What time keeps while \<open>wait\<close> blocks holds when it returns.\<close>

lemma child_exit_invariant:
  assumes "child_exit m h = Some h'" and "I h" and "\<And>g. I g \<Longrightarrow> I (pass m g)"
  shows "\<exists>g. I g \<and> h' = g\<lparr>child := Reaped\<rparr>"
proof -
  define Q where "Q n h h' \<longleftrightarrow> (\<forall>g. I g \<longrightarrow> I (pass n g)) \<longrightarrow> I h \<longrightarrow> (\<exists>g. I g \<and> h' = g\<lparr>child := Reaped\<rparr>)" for n h h'
  have "Q m h h'"
    by (rule child_exit.raw_induct [where P = Q, OF _ assms(1)]) (auto simp: Q_def split: if_splits)
  then show ?thesis using assms(2,3) by (simp add: Q_def)
qed

lemma child_exit_reaps: "child_exit m h = Some h' \<Longrightarrow> child h' = Reaped"
  using child_exit_invariant [of m h h' "\<lambda>_. True"] by auto

lemma killed_child_exits: "child_killed h \<Longrightarrow> child_exit m h = Some (h\<lparr>child := Reaped\<rparr>)"
  by (simp add: child_exit.simps)

lemma child_wait_state: "child_wait m h = Some (r, h') \<Longrightarrow> h' = pass m h \<or> child_exit m (pass m h) = Some h'"
  by (auto simp: child_wait_def split: option.splits)

lemma xfind_existing_SomeD:
  assumes "xfind_existing m ps h = Some (Inr (Some p), h')"
  shows "p \<in> set ps \<and> h_files h' p \<noteq> None"
  using assms
proof (induction ps arbitrary: h)
  case (Cons q ps)
  show ?case
  proof (cases "fst (path_exists m q h)")
    case True
    with Cons.prems show ?thesis by (auto simp: xbind_def xpure_simp path_exists_def)
  next
    case False
    with Cons.prems have "xfind_existing m ps (snd (path_exists m q h)) = Some (Inr (Some p), h')"
      by (simp add: xbind_def xpure_simp)
    then show ?thesis using Cons.IH by auto
  qed
qed simp

section \<open>Computations that always return\<close>

definition returns :: "'a xm \<Rightarrow> bool" where
  "returns c \<longleftrightarrow> (\<forall>h. c h \<noteq> None)"

named_theorems returns_intros \<open>computations that return\<close>

lemma returns_basic [returns_intros]:
  "returns (xok x)" "returns (xerr e)" "returns (xpanic e)" "returns (xprint l)" "returns (xtry msg op)" "returns (xpure f)"
  by (simp_all add: returns_def xtry_def xpure_simp split: prod.split sum.split)

lemma returns_wait: "(\<And>h. op h \<noteq> None) \<Longrightarrow> returns (xwait msg op)"
  by (auto simp: returns_def xwait_def xtry_def split: option.splits prod.splits sum.splits)

text \<open>A program that is run to completion returns when it ends by itself, a wait after a kill returns in any case.\<close>

definition programs_end :: "machine \<Rightarrow> bool" where
  "programs_end m \<longleftrightarrow> (\<forall>n c fs. run_program m n c fs \<noteq> None)"

lemma returns_status [returns_intros]:
  assumes "programs_end m"
  shows "returns (xwait msg (command_status m c))"
proof (rule returns_wait)
  fix h
  have "run_program m (calls h) c (h_files (pass m h)) \<noteq> None" using assms unfolding programs_end_def by blast
  then show "command_status m c h \<noteq> None" by (auto simp: command_status_def split: option.split prod.split)
qed

lemma returns_kill_wait [returns_intros]: "returns (xthen (xtry msg (child_kill m)) (xwait msg' (child_wait m)))"
  by (auto simp: returns_def xthen_def xbind_def xtry_def xwait_def child_kill_def child_wait_def os_call_def killed_child_exits
      split: option.split)

lemma returns_bind [returns_intros]: "returns c \<Longrightarrow> (\<And>x. returns (f x)) \<Longrightarrow> returns (xbind c f)"
  by (auto simp: returns_def xbind_def split: option.splits sum.splits)

lemma returns_then [returns_intros]: "returns c \<Longrightarrow> returns d \<Longrightarrow> returns (xthen c d)"
  by (simp add: xthen_def returns_bind)

lemma returns_if [returns_intros]: "returns c \<Longrightarrow> returns d \<Longrightarrow> returns (if b then c else d)"
  by simp

lemma returns_option [returns_intros]:
  "returns c \<Longrightarrow> (\<And>x. returns (f x)) \<Longrightarrow> returns (case v of None \<Rightarrow> c | Some x \<Rightarrow> f x)"
  by (cases v) simp_all

lemma returns_find [returns_intros]: "returns (xfind_existing m ps)"
  by (induction ps) (simp_all only: xfind_existing.simps, (intro returns_intros | assumption)+)

lemma returns_clock [returns_intros]: "returns (instant_now m)" "returns (sleep m)"
  by (auto simp: instant_now_def sleep_def intro: returns_intros)

lemma returns_lift [returns_intros]: "returns (xlift r)"
  by (cases r) (auto simp: xlift_def intro: returns_intros)

lemma returns_for [returns_intros]: "(\<And>x. returns (f x)) \<Longrightarrow> returns (xfor f xs)"
proof (induction xs)
  case (Cons x xs)
  then show ?case unfolding xfor.simps by (intro returns_intros) auto
qed (simp only: xfor.simps returns_basic)

text \<open>A polling loop ends when every round makes a call and the rounds stop after some number of calls.\<close>

lemma xloop_returns:
  assumes "returns body" and "\<And>h h'. body h = Some (Inr None, h') \<Longrightarrow> calls h < calls h'"
    and "\<And>h h'. n \<le> calls h \<Longrightarrow> body h \<noteq> Some (Inr None, h')"
  shows "xloop body h \<noteq> None"
proof (induction "n - calls h" arbitrary: h rule: less_induct)
  case less
  obtain r h1 where b: "body h = Some (r, h1)" using assms(1) unfolding returns_def by (metis not_None_eq surj_pair)
  show ?case
  proof (cases "r = Inr None")
    case True
    then have "calls h < calls h1" "calls h < n" using b assms(2) [of h h1] assms(3) [of h h1] by force+
    then have "xloop body h1 \<noteq> None" by (intro less) simp
    then show ?thesis using b True by (simp add: xloop.simps [of body h])
  next
    case False
    then show ?thesis using b by (simp add: xloop.simps [of body h] split: sum.split option.split)
  qed
qed

text \<open>What holds when a loop has returned: the last round started in a state that the earlier rounds keep.\<close>

lemma xloop_last_round:
  assumes "xloop body h = Some y" and "P h"
    and "\<And>g g'. P g \<Longrightarrow> body g = Some (Inr None, g') \<Longrightarrow> P g'"
  shows "\<exists>g. P g \<and> body g = Some (map_sum id Some (fst y), snd y)"
proof -
  define Q where "Q body h y \<longleftrightarrow> P h \<longrightarrow> (\<forall>g g'. P g \<longrightarrow> body g = Some (Inr None, g') \<longrightarrow> P g') \<longrightarrow>
    (\<exists>g. P g \<and> body g = Some (map_sum id Some (fst y), snd y))" for body :: "'a option xm" and h y
  have "Q body h y"
  proof (rule xloop.raw_induct [where P = Q, OF _ assms(1)], unfold Q_def, intro impI)
    fix loop :: "'a option xm \<Rightarrow> 'a xm" and body h y
    assume IH: "\<And>b h y. loop b h = Some y \<Longrightarrow> P h \<longrightarrow>
        (\<forall>g g'. P g \<longrightarrow> b g = Some (Inr None, g') \<longrightarrow> P g') \<longrightarrow>
        (\<exists>g. P g \<and> b g = Some (map_sum id Some (fst y), snd y))"
      and round: "(case body h of None \<Rightarrow> None | Some (r, h') \<Rightarrow>
        (case r of Inl e \<Rightarrow> Some (Inl e, h')
         | Inr again \<Rightarrow> (case again of Some x \<Rightarrow> Some (Inr x, h') | None \<Rightarrow> loop body h'))) = Some y"
      and P: "P h" "\<forall>g g'. P g \<longrightarrow> body g = Some (Inr None, g') \<longrightarrow> P g'"
    show "\<exists>g. P g \<and> body g = Some (map_sum id Some (fst y), snd y)"
    proof (cases "\<exists>h'. body h = Some (Inr None, h')")
      case True
      then obtain h' where h': "body h = Some (Inr None, h')" by blast
      then have "loop body h' = Some y" using round by simp
      moreover have "P h'" using P h' by blast
      ultimately show ?thesis using IH [of body h' y] P(2) by blast
    next
      case False
      then have "body h = Some (map_sum id Some (fst y), snd y)"
        using round by (auto split: option.splits sum.splits)
      with P show ?thesis by blast
    qed
  qed
  with assms(2,3) show ?thesis unfolding Q_def by blast
qed

section \<open>Before and after\<close>

text \<open>\<open>valid P c Q\<close>: started in a state with \<open>P\<close>, the computation can only return a result and a state
  with \<open>Q\<close>, errors included.\<close>

definition valid :: "(host \<Rightarrow> bool) \<Rightarrow> 'a xm \<Rightarrow> (xerror + 'a \<Rightarrow> host \<Rightarrow> bool) \<Rightarrow> bool" where
  "valid P c Q \<longleftrightarrow> (\<forall>h r h'. P h \<longrightarrow> c h = Some (r, h') \<longrightarrow> Q r h')"

lemma validD: "valid P c Q \<Longrightarrow> P h \<Longrightarrow> c h = Some (r, h') \<Longrightarrow> Q r h'"
  by (auto simp: valid_def)

lemma validI: "(\<And>h r h'. P h \<Longrightarrow> c h = Some (r, h') \<Longrightarrow> Q r h') \<Longrightarrow> valid P c Q"
  by (auto simp: valid_def)

lemma xbind_cases:
  assumes "xbind c f h = Some (r, h')"
  obtains e where "c h = Some (Inl e, h')" and "r = Inl e"
  | x h1 where "c h = Some (Inr x, h1)" and "f x h1 = Some (r, h')"
  using assms by (auto simp: xbind_def split: option.splits sum.splits)

lemma valid_bind:
  assumes "valid P c R" and "\<And>x. valid (R (Inr x)) (f x) Q" and "\<And>e h. R (Inl e) h \<Longrightarrow> Q (Inl e) h"
  shows "valid P (xbind c f) Q"
proof (rule validI)
  fix h r h' assume P: "P h" and "xbind c f h = Some (r, h')"
  from this(2) show "Q r h'"
  proof (cases rule: xbind_cases)
    case (1 e)
    then show ?thesis using validD [OF assms(1) P] assms(3) by simp
  next
    case (2 x h1)
    then show ?thesis using validD [OF assms(1) P 2(1)] validD [OF assms(2)] by simp
  qed
qed

lemma valid_strengthen: "valid P c Q \<Longrightarrow> (\<And>h. P' h \<Longrightarrow> P h) \<Longrightarrow> valid P' c Q"
  by (auto simp: valid_def)

lemma valid_if: "(b \<Longrightarrow> valid P c Q) \<Longrightarrow> (\<not> b \<Longrightarrow> valid P d Q) \<Longrightarrow> valid P (if b then c else d) Q"
  by simp

lemma valid_weaken: "valid P c Q \<Longrightarrow> (\<And>r h. Q r h \<Longrightarrow> Q' r h) \<Longrightarrow> valid P c Q'"
  by (auto simp: valid_def)

text \<open>Invariants: the special case in which the state property is the same on every exit.\<close>

abbreviation stable :: "(host \<Rightarrow> bool) \<Rightarrow> 'a xm \<Rightarrow> bool" where
  "stable I c \<equiv> valid I c (\<lambda>_. I)"

lemma stable_bind: "stable I c \<Longrightarrow> (\<And>x. valid I (f x) Q) \<Longrightarrow> (\<And>e h. I h \<Longrightarrow> Q (Inl e) h) \<Longrightarrow> valid I (xbind c f) Q"
  by (rule valid_bind)

lemma stable_then: "stable I c \<Longrightarrow> valid I d Q \<Longrightarrow> (\<And>e h. I h \<Longrightarrow> Q (Inl e) h) \<Longrightarrow> valid I (xthen c d) Q"
  unfolding xthen_def by (rule valid_bind)

lemma valid_basic:
  "(\<And>h. P h \<Longrightarrow> Q (Inr x) h) \<Longrightarrow> valid P (xok x) Q" "(\<And>h. P h \<Longrightarrow> Q (Inl (Err e)) h) \<Longrightarrow> valid P (xerr e) Q"
  by (simp_all add: valid_def)

lemma stable_try: "(\<And>h. I h \<Longrightarrow> I (snd (op h))) \<Longrightarrow> stable I (xtry msg op)"
  by (auto simp: valid_def xtry_def split: prod.splits sum.splits) (metis snd_conv)+

lemma stable_wait: "(\<And>h r h'. I h \<Longrightarrow> op h = Some (r, h') \<Longrightarrow> I h') \<Longrightarrow> stable I (xwait msg op)"
  by (rule validI) (metis xwait_state)

lemma stable_child_wait:
  assumes "\<And>h. I h \<Longrightarrow> I (pass m h)" and "\<And>h. I h \<Longrightarrow> I (h\<lparr>child := Reaped\<rparr>)"
  shows "stable I (xwait msg (child_wait m))"
proof (rule stable_wait)
  fix h r h' assume I: "I h" and "child_wait m h = Some (r, h')"
  from this(2) have "h' = pass m h \<or> child_exit m (pass m h) = Some h'" by (rule child_wait_state)
  then show "I h'" using child_exit_invariant [of m "pass m h" h' I] I assms by auto
qed

lemma stable_pure: "(\<And>h. I h \<Longrightarrow> I (snd (op h))) \<Longrightarrow> stable I (xpure op)"
  by (auto simp: valid_def xpure_simp)

lemma stable_find:
  assumes "\<And>h. I h \<Longrightarrow> I (pass m h)"
  shows "stable I (xfind_existing m ps)"
proof (induction ps)
  case (Cons p ps)
  have "stable I (xpure (path_exists m p))" by (rule stable_pure) (simp add: path_exists_def assms)
  with Cons show ?case
    unfolding xfind_existing.simps by (intro stable_bind) (auto intro: valid_basic)
qed (simp add: valid_def)

lemma stable_for: "(\<And>x. stable I (f x)) \<Longrightarrow> stable I (xfor f xs)"
proof (induction xs)
  case (Cons x xs)
  then show ?case unfolding xfor.simps by (intro stable_then) auto
qed (simp add: valid_def)

lemma stable_loop:
  assumes "stable I body"
  shows "stable I (xloop body)"
proof (rule validI)
  fix h r h' assume I: "I h" and run: "xloop body h = Some (r, h')"
  have "\<exists>g. I g \<and> body g = Some (map_sum id Some (fst (r, h')), snd (r, h'))"
    by (rule xloop_last_round [where P = I, OF run I]) (erule (1) validD [OF assms])
  then obtain g where g: "I g" "body g = Some (map_sum id Some (fst (r, h')), snd (r, h'))" by (elim exE conjE)
  show "I h'" using validD [OF assms g] by simp
qed

section \<open>Parts of the state that a computation leaves alone\<close>

definition keeps :: "(host \<Rightarrow> 'x) \<Rightarrow> 'a xm \<Rightarrow> bool" where
  "keeps obs c \<longleftrightarrow> (\<forall>h r h'. c h = Some (r, h') \<longrightarrow> obs h' = obs h)"

definition io_keeps :: "(host \<Rightarrow> 'x) \<Rightarrow> (host \<Rightarrow> 'r \<times> host) \<Rightarrow> bool" where
  "io_keeps obs op \<longleftrightarrow> (\<forall>h. obs (snd (op h)) = obs h)"

named_theorems keeps_intros \<open>computations that leave an observation alone\<close>

lemma keepsD: "keeps obs c \<Longrightarrow> c h = Some (r, h') \<Longrightarrow> obs h' = obs h"
  by (auto simp: keeps_def)

lemma keeps_basic [keeps_intros]: "keeps obs (xok x)" "keeps obs (xerr e)" "keeps obs (xpanic e)"
  by (simp_all add: keeps_def)

lemma keepsI: "(\<And>h r h'. c h = Some (r, h') \<Longrightarrow> obs h' = obs h) \<Longrightarrow> keeps obs c"
  by (auto simp: keeps_def)

lemma keeps_bind [keeps_intros]:
  assumes "keeps obs c" and "\<And>x. keeps obs (f x)"
  shows "keeps obs (xbind c f)"
proof (rule keepsI)
  fix h r h' assume "xbind c f h = Some (r, h')"
  then show "obs h' = obs h" by (cases rule: xbind_cases) (metis assms keepsD)+
qed

lemma keeps_then [keeps_intros]: "keeps obs c \<Longrightarrow> keeps obs d \<Longrightarrow> keeps obs (xthen c d)"
  by (simp add: xthen_def keeps_bind)

lemma keeps_if [keeps_intros]: "keeps obs c \<Longrightarrow> keeps obs d \<Longrightarrow> keeps obs (if b then c else d)"
  by simp

lemma keeps_option [keeps_intros]:
  "keeps obs c \<Longrightarrow> (\<And>x. keeps obs (f x)) \<Longrightarrow> keeps obs (case v of None \<Rightarrow> c | Some x \<Rightarrow> f x)"
  by (cases v) simp_all

lemma keeps_try [keeps_intros]: "io_keeps obs op \<Longrightarrow> keeps obs (xtry msg op)"
  by (rule keepsI) (auto simp: xtry_def io_keeps_def split: prod.splits sum.splits, (metis snd_conv)+)

lemma keeps_wait: "(\<And>h r h'. op h = Some (r, h') \<Longrightarrow> obs h' = obs h) \<Longrightarrow> keeps obs (xwait msg op)"
  by (rule keepsI) (metis xwait_state)

lemma keeps_pure [keeps_intros]: "io_keeps obs op \<Longrightarrow> keeps obs (xpure op)"
  by (simp add: keeps_def io_keeps_def xpure_simp)

lemma keeps_lift [keeps_intros]: "keeps obs (xlift r)"
  by (cases r) (auto simp: xlift_def intro: keeps_intros)

lemma keeps_for [keeps_intros]: "(\<And>x. keeps obs (f x)) \<Longrightarrow> keeps obs (xfor f xs)"
proof (induction xs)
  case (Cons x xs)
  then show ?case unfolding xfor.simps by (intro keeps_intros) auto
qed (simp only: xfor.simps keeps_basic)

lemma keeps_loop [keeps_intros]:
  assumes k: "keeps obs body"
  shows "keeps obs (xloop body)"
proof (rule keepsI)
  fix h r h' assume run: "xloop body h = Some (r, h')"
  have step: "obs g' = obs h" if "obs g = obs h" "body g = Some (Inr None, g')" for g g'
    using keepsD [OF k that(2)] that(1) by simp
  have "\<exists>g. obs g = obs h \<and> body g = Some (map_sum id Some (fst (r, h')), snd (r, h'))"
    by (rule xloop_last_round [where P = "\<lambda>g. obs g = obs h", OF run]) (rule refl, erule (1) step)
  then obtain g where g: "obs g = obs h" "body g = Some (map_sum id Some (fst (r, h')), snd (r, h'))" by (elim exE conjE)
  show "obs h' = obs h" using keepsD [OF k g(2)] g(1) by simp
qed

lemma io_keeps_bind [keeps_intros]:
  "io_keeps obs op \<Longrightarrow> (\<And>x. io_keeps obs (f x)) \<Longrightarrow> io_keeps obs (io_bind op f)"
proof (unfold io_keeps_def, intro allI)
  fix h assume k: "\<forall>h. obs (snd (op h)) = obs h" "\<And>x. \<forall>h. obs (snd (f x h)) = obs h"
  obtain r h1 where r: "op h = (r, h1)" by fastforce
  then have "obs h1 = obs h" using k(1) by (metis snd_conv)
  then show "obs (snd (io_bind op f h)) = obs h" using r k(2) by (cases r) (simp_all add: io_bind_def)
qed

text \<open>Observations that do not depend on the time, the files, the output and the programs run.\<close>

locale host_observer =
  fixes obs :: "host \<Rightarrow> 'x"
  assumes obs_calls: "obs (h\<lparr>calls := n\<rparr>) = obs h" and obs_files: "obs (h\<lparr>h_files := fs\<rparr>) = obs h"
    and obs_stdout: "obs (h\<lparr>h_stdout := ls\<rparr>) = obs h" and obs_started: "obs (h\<lparr>started := cs\<rparr>) = obs h"
begin

lemma obs_pass: "obs (pass m h) = obs h"
proof -
  have "obs (h\<lparr>calls := n, h_files := fs\<rparr>) = obs h" for n fs
    using obs_files [where h = "h\<lparr>calls := n\<rparr>"] obs_calls [where h = h] by simp
  then show ?thesis by (simp add: pass_def)
qed

lemma os_call_obs [keeps_intros]: "(\<And>h. obs (snd (op h)) = obs h) \<Longrightarrow> io_keeps obs (os_call m op)"
  by (simp add: io_keeps_def os_call_def obs_pass split: option.split)

lemma files_obs [keeps_intros]:
  "io_keeps obs (path_exists m p)" "io_keeps obs (read_file m p)" "io_keeps obs (copy_file m p q)"
  "io_keeps obs (remove_file m p)" "io_keeps obs (remove_dir_all m p)" "io_keeps obs (create_dir_all m p)"
  unfolding read_file_def copy_file_def remove_file_def remove_dir_all_def create_dir_all_def
  by (auto intro!: os_call_obs simp: obs_files split: option.split node.split)
    (simp add: io_keeps_def path_exists_def obs_pass)

lemma read_to_string_obs [keeps_intros]: "io_keeps obs (read_to_string m p)"
  unfolding read_to_string_def
  by (intro keeps_intros) (auto simp: io_keeps_def split: option.split)

lemma command_status_obs [keeps_intros]: "keeps obs (xwait msg (command_status m c))"
proof (rule keeps_wait)
  fix g r h'
  assume "command_status m c g = Some (r, h')"
  moreover have "obs (h\<lparr>h_files := fs, started := cs\<rparr>) = obs h" for h fs cs
    using obs_started [where h = "h\<lparr>h_files := fs\<rparr>"] obs_files [where h = h] by simp
  ultimately show "obs h' = obs g"
    by (auto simp: command_status_def obs_pass split: option.splits prod.splits)
qed

lemma clock_obs [keeps_intros]: "keeps obs (instant_now m)" "keeps obs (sleep m)"
  unfolding instant_now_def sleep_def by (auto intro!: keeps_intros simp: io_keeps_def obs_pass)

lemma print_obs [keeps_intros]: "keeps obs (xprint l)"
  by (simp add: keeps_def obs_stdout)

lemma find_existing_obs [keeps_intros]: "keeps obs (xfind_existing m ps)"
  by (induction ps) (simp_all only: xfind_existing.simps, (intro keeps_intros | assumption)+)

end

interpretation child_observer: host_observer child
  by unfold_locales simp_all

interpretation monitor_observer: host_observer monitor
  by unfold_locales simp_all

end
