(* ===== verification/Xtask.thy ===== *)
theory Xtask
  imports Host
begin

text \<open>
  \<^verbatim>\<open>tools/xtask/src/main.rs\<close>: the host tool that builds the kernel, stages a bootable tree, starts QEMU
  and checks the boot and the shell from the serial log.  The definitions follow the file function by
  function (helpers that the others call come first); their types are those of the source, with
  \<open>Result<_, String>\<close> as \<open>xm\<close>.
\<close>

section \<open>Constants\<close>

definition LIMINE_DOWNLOAD_URL :: rstr where
  "LIMINE_DOWNLOAD_URL = lit ''https://github.com/limine-bootloader/limine/releases/download/v12.3.2/limine-binary.zip''"

definition LIMINE_DOWNLOAD_SHA256 :: rstr where
  "LIMINE_DOWNLOAD_SHA256 = lit ''381c55e475a5b6f88afa73bb683fe985fb0d2c4252bfcf02420932c4a112fc8d''"

definition DIST_DIR :: path where "DIST_DIR = os_lit ''dist''"
definition LIMINE_CACHE_DIR :: path where "LIMINE_CACHE_DIR = os_lit ''limine-v12.3.2''"
definition ESP_DIR :: path where "ESP_DIR = os_lit ''esp''"
definition EFI_BOOT_DIR :: path where "EFI_BOOT_DIR = os_lit ''EFI/BOOT''"
definition LIMINE_CONF_NAME :: path where "LIMINE_CONF_NAME = os_lit ''limine.conf''"
definition LIMINE_BOOTX64_NAME :: path where "LIMINE_BOOTX64_NAME = os_lit ''BOOTX64.EFI''"
definition LIMINE_VARS_NAME :: path where "LIMINE_VARS_NAME = os_lit ''edk2-x86_64-vars.fd''"
definition DEFAULT_BOOT_TIMEOUT_SECS :: nat where "DEFAULT_BOOT_TIMEOUT_SECS = 20"
definition DEFAULT_BOOT_SUCCESS_MARKER :: rstr where "DEFAULT_BOOT_SUCCESS_MARKER = lit ''AetherOS: kernel initialized''"
definition DEFAULT_MONITOR_PORT :: nat where "DEFAULT_MONITOR_PORT = 45454"

definition secs :: "nat \<Rightarrow> nat" where
  "secs n = n * 1000000000"

abbreviation display :: "path \<Rightarrow> rstr" where
  "display \<equiv> to_string_lossy"

text \<open>A literal path with backslashes.\<close>

definition windows_path :: "string list \<Rightarrow> path" where
  "windows_path ps = os (str_join [0x5C] (map lit ps))"

definition join :: "machine \<Rightarrow> path \<Rightarrow> path \<Rightarrow> path" where
  "join m = path_join (cfg_windows m)"

section \<open>Settings\<close>

definition qemu_display_mode :: "machine \<Rightarrow> rstr" where
  "qemu_display_mode m = (case env_var m (lit ''AETHER_QEMU_DISPLAY'') of Some v \<Rightarrow> v | None \<Rightarrow> lit ''default'')"

definition qemu_serial_mode :: "machine \<Rightarrow> rstr" where
  "qemu_serial_mode m = (case env_var m (lit ''AETHER_QEMU_SERIAL'') of Some v \<Rightarrow> v | None \<Rightarrow> lit ''stdio'')"

definition positive :: "nat \<Rightarrow> nat option" where
  "positive n = (if 0 < n then Some n else None)"

definition qemu_monitor_port :: "machine \<Rightarrow> nat" where
  "qemu_monitor_port m =
     (case Option.bind (Option.bind (env_var m (lit ''AETHER_QEMU_MONITOR_PORT'')) (parse_uint (2 ^ 16))) positive of
        Some v \<Rightarrow> v | None \<Rightarrow> DEFAULT_MONITOR_PORT)"

definition boot_timeout_secs :: "machine \<Rightarrow> nat" where
  "boot_timeout_secs m =
     (case Option.bind (Option.bind (env_var m (lit ''AETHER_BOOT_TIMEOUT_SECS'')) (parse_uint (2 ^ 64))) positive of
        Some v \<Rightarrow> v | None \<Rightarrow> DEFAULT_BOOT_TIMEOUT_SECS)"

definition boot_success_marker :: "machine \<Rightarrow> rstr" where
  "boot_success_marker m =
     (case env_var m (lit ''AETHER_BOOT_SUCCESS_MARKER'') of Some v \<Rightarrow> v | None \<Rightarrow> DEFAULT_BOOT_SUCCESS_MARKER)"

definition workspace_root :: "machine \<Rightarrow> path xm" where
  "workspace_root m =
     (case Option.bind (path_parent (cfg_windows m) (manifest_dir m)) (path_parent (cfg_windows m)) of
        Some p \<Rightarrow> xok p | None \<Rightarrow> xpanic (lit ''xtask workspace root''))"

definition preferred_rustup_toolchain :: "machine \<Rightarrow> rstr option" where
  "preferred_rustup_toolchain m =
     (case env_var m (lit ''AETHER_RUSTUP_TOOLCHAIN'') of
        Some toolchain \<Rightarrow> if trim toolchain = [] then None else Some toolchain
      | None \<Rightarrow>
          if cfg_windows m then Some (lit ''nightly-2026-06-07-x86_64-pc-windows-gnu'')
          else Some (lit ''nightly-2026-06-07''))"

definition cargo_command :: "machine \<Rightarrow> Command" where
  "cargo_command m =
     (case preferred_rustup_toolchain m of
        Some toolchain \<Rightarrow> add_args [os (lit ''+'' @ toolchain)] (Command_new (os_lit ''cargo''))
      | None \<Rightarrow> Command_new (os_lit ''cargo''))"

definition env_path :: "machine \<Rightarrow> rstr \<Rightarrow> path option xm" where
  "env_path m name =
     (case env m name of
        None \<Rightarrow> xok None
      | Some p \<Rightarrow> xbind (xpure (path_exists m p)) (\<lambda>e. xok (if e then Some p else None)))"

section \<open>Files and programs\<close>

definition run_command :: "machine \<Rightarrow> Command \<Rightarrow> rstr \<Rightarrow> unit xm" where
  "run_command m command label =
     xbind (xwait (\<lambda>err. lit ''failed to start '' @ label @ lit '': '' @ err) (command_status m command)) (\<lambda>status.
       if exit_success status then xok ()
       else xerr (label @ lit '' exited with status '' @ exit_text status))"

definition recreate_directory :: "machine \<Rightarrow> path \<Rightarrow> unit io" where
  "recreate_directory m p h =
     (let (e, h1) = path_exists m p h in
      if e then io_bind (remove_dir_all m p) (\<lambda>_. create_dir_all m p) h1 else create_dir_all m p h1)"

definition remove_if_exists :: "machine \<Rightarrow> path \<Rightarrow> unit xm" where
  "remove_if_exists m p =
     xbind (xpure (path_exists m p)) (\<lambda>e.
       if e then xtry (\<lambda>err. lit ''failed to remove '' @ display p @ lit '': '' @ err) (remove_file m p)
       else xok ())"

definition command_candidates :: "machine \<Rightarrow> path \<Rightarrow> rstr \<Rightarrow> path list" where
  "command_candidates m base name =
     [join m base (os name)] @
     (if cfg_windows m then
        [join m base (os (name @ lit ''.exe'')), join m base (os (name @ lit ''.cmd'')),
         join m base (os (name @ lit ''.bat''))]
      else [])"

definition find_command :: "machine \<Rightarrow> rstr \<Rightarrow> rstr option xm" where
  "find_command m name =
     (case env m (lit ''PATH'') of
        None \<Rightarrow> xok None
      | Some paths \<Rightarrow>
          xbind (xfind_existing m
              (concat (map (\<lambda>p. command_candidates m p name) (split_paths (cfg_windows m) paths))))
            (\<lambda>r. xok (map_option to_string_lossy r)))"

definition find_qemu_binary :: "machine \<Rightarrow> rstr option xm" where
  "find_qemu_binary m =
     xbind (find_command m (lit ''qemu-system-x86_64'')) (\<lambda>r.
       case r of
         Some c \<Rightarrow> xok (Some c)
       | None \<Rightarrow>
           (let fallback = windows_path [''C:'', ''Program Files'', ''qemu'', ''qemu-system-x86_64.exe''] in
            xbind (xpure (path_exists m fallback)) (\<lambda>e.
              xok (if e then Some (to_string_lossy fallback) else None))))"

definition find_ovmf_code :: "machine \<Rightarrow> path option xm" where
  "find_ovmf_code m =
     xbind (env_path m (lit ''AETHER_OVMF_CODE'')) (\<lambda>p.
       case p of
         Some path \<Rightarrow> xok (Some path)
       | None \<Rightarrow> xfind_existing m (windows_path [''C:'', ''Program Files'', ''qemu'', ''share'', ''edk2-x86_64-code.fd''] # map os_lit
           [''/usr/share/OVMF/OVMF_CODE.fd'',
            ''/usr/share/OVMF/OVMF_CODE_4M.fd'',
            ''/usr/share/OVMF/OVMF_CODE.secboot.fd'',
            ''/usr/share/edk2/ovmf/OVMF_CODE.fd'',
            ''/usr/share/edk2/ovmf/OVMF_CODE_4M.fd'',
            ''/usr/share/qemu/OVMF_CODE.fd'',
            ''/usr/share/qemu/OVMF_CODE_4M.fd'',
            ''/usr/share/edk2/x64/OVMF_CODE.fd'',
            ''/opt/homebrew/share/qemu/edk2-x86_64-code.fd'']))"

definition find_ovmf_vars_source :: "machine \<Rightarrow> path option xm" where
  "find_ovmf_vars_source m =
     xbind (env_path m (lit ''AETHER_OVMF_VARS'')) (\<lambda>p.
       case p of
         Some path \<Rightarrow> xok (Some path)
       | None \<Rightarrow> xfind_existing m (windows_path [''C:'', ''Program Files'', ''qemu'', ''share'', ''edk2-i386-vars.fd''] # map os_lit
           [''/usr/share/OVMF/OVMF_VARS.fd'',
            ''/usr/share/OVMF/OVMF_VARS_4M.fd'',
            ''/usr/share/edk2/ovmf/OVMF_VARS.fd'',
            ''/usr/share/edk2/ovmf/OVMF_VARS_4M.fd'',
            ''/usr/share/qemu/OVMF_VARS.fd'',
            ''/usr/share/qemu/OVMF_VARS_4M.fd'',
            ''/usr/share/edk2/x64/OVMF_VARS.fd'']))"

definition ensure_ovmf_vars :: "machine \<Rightarrow> path \<Rightarrow> path xm" where
  "ensure_ovmf_vars m root =
     (let dist_dir = join m root DIST_DIR; ovmf_vars_dest = join m dist_dir LIMINE_VARS_NAME in
      xbind (xpure (path_exists m ovmf_vars_dest)) (\<lambda>e.
        if e then xok ovmf_vars_dest
        else
          xthen (xtry (\<lambda>err. lit ''failed to create dist directory: '' @ err) (create_dir_all m dist_dir))
         (xbind (find_ovmf_vars_source m) (\<lambda>r.
            case r of
              None \<Rightarrow> xerr (lit ''UEFI variable store template not found. Install QEMU with edk2 variable images.'')
            | Some source \<Rightarrow>
                xthen (xtry (\<lambda>err. lit ''failed to copy OVMF vars template from '' @ display source @ lit '': '' @ err)
                    (copy_file m source ovmf_vars_dest))
                  (xok ovmf_vars_dest)))))"

definition locate_kernel_binary :: "machine \<Rightarrow> path \<Rightarrow> path xm" where
  "locate_kernel_binary m root =
     (let target_dir = join m (join m (join m root (os_lit ''target'')) (os_lit ''x86_64-aetheros'')) (os_lit ''debug'') in
      xbind (xfind_existing m
          [join m target_dir (os_lit ''aether-kernel''), join m target_dir (os_lit ''aether-kernel.exe''),
           join m target_dir (os_lit ''aether-kernel.bin'')])
        (\<lambda>r. case r of
           Some p \<Rightarrow> xok p
         | None \<Rightarrow> xerr (lit ''could not find built kernel binary in '' @ display target_dir)))"

definition locate_limine_config :: "machine \<Rightarrow> path \<Rightarrow> path xm" where
  "locate_limine_config m root =
     (let boot = join m (join m root (os_lit ''config'')) (os_lit ''boot'') in
      xbind (xfind_existing m [join m boot (os_lit ''limine.conf''), join m boot (os_lit ''limine.cfg'')])
        (\<lambda>r. case r of
           Some p \<Rightarrow> xok p
         | None \<Rightarrow> xerr (lit ''could not find Limine configuration in config/boot'')))"

section \<open>The Limine bundle\<close>

definition verify_sha256 :: "machine \<Rightarrow> path \<Rightarrow> rstr \<Rightarrow> unit xm" where
  "verify_sha256 m p expected =
     xbind (xtry (\<lambda>err. lit ''failed to read '' @ display p @ lit '' for verification: '' @ err) (read_file m p)) (\<lambda>bytes.
       let actual = hex_bytes (sha256 m bytes) in
       if actual = expected then xok ()
       else xerr (lit ''SHA-256 mismatch for '' @ display p @ lit '': expected '' @ expected @ lit '', got '' @ actual))"

definition download_file :: "machine \<Rightarrow> rstr \<Rightarrow> path \<Rightarrow> unit xm" where
  "download_file m url destination =
     (if cfg_windows m then
        run_command m (add_args
          [os_lit ''-NoProfile'', os_lit ''-Command'',
           os (lit ''$ProgressPreference='' @ [0x27] @ lit ''SilentlyContinue'' @ [0x27] @
               lit ''; Invoke-WebRequest -Uri '' @ [0x27] @ url @ [0x27] @ lit '' -OutFile '' @ [0x27] @
               display destination @ [0x27])]
          (Command_new (os_lit ''powershell''))) (lit ''download Limine bundle'')
      else xbind (find_command m (lit ''curl'')) (\<lambda>r.
        case r of
          Some curl \<Rightarrow>
            run_command m (add_args [os_lit ''-L'', os url, os_lit ''-o'', destination] (Command_new (os curl)))
              (lit ''download Limine bundle'')
        | None \<Rightarrow> xerr (lit ''failed to download Limine bundle: neither PowerShell nor curl is available'')))"

definition extract_zip :: "machine \<Rightarrow> path \<Rightarrow> path \<Rightarrow> unit xm" where
  "extract_zip m archive_path destination =
     (let extracted_root = join m destination (os_lit ''limine-binary'') in
      xbind (xpure (path_exists m extracted_root)) (\<lambda>e.
      xthen (if e then xtry (\<lambda>err. lit ''failed to clear Limine cache: '' @ err) (remove_dir_all m extracted_root)
             else xok ())
      (if cfg_windows m then
         run_command m (add_args
           [os_lit ''-NoProfile'', os_lit ''-Command'',
            os (lit ''Add-Type -AssemblyName System.IO.Compression.FileSystem; [System.IO.Compression.ZipFile]::ExtractToDirectory('' @
                [0x27] @ display archive_path @ [0x27] @ lit '', '' @ [0x27] @ display destination @ [0x27] @ lit '')'')]
           (Command_new (os_lit ''powershell''))) (lit ''extract Limine bundle'')
       else xbind (find_command m (lit ''unzip'')) (\<lambda>r.
         case r of
           Some unzip \<Rightarrow>
             run_command m (add_args [os_lit ''-o'', archive_path, os_lit ''-d'', destination] (Command_new (os unzip)))
               (lit ''extract Limine bundle'')
         | None \<Rightarrow> xerr (lit ''failed to extract Limine bundle: unzip support is unavailable'')))))"

definition download_and_extract_limine :: "machine \<Rightarrow> path \<Rightarrow> unit xm" where
  "download_and_extract_limine m root =
     (let dist_dir = join m root DIST_DIR;
          cache_dir = join m dist_dir LIMINE_CACHE_DIR;
          archive_path = join m cache_dir (os_lit ''limine-binary.zip'')
      in xthen (xtry (\<lambda>err. lit ''failed to create Limine cache directory: '' @ err) (create_dir_all m cache_dir))
        (xthen (download_file m LIMINE_DOWNLOAD_URL archive_path)
        (xthen (verify_sha256 m archive_path LIMINE_DOWNLOAD_SHA256)
        (extract_zip m archive_path cache_dir))))"

definition ensure_limine_bundle :: "machine \<Rightarrow> path \<Rightarrow> path xm" where
  "ensure_limine_bundle m root =
     (let limine_dir = join m (join m (join m root DIST_DIR) LIMINE_CACHE_DIR) (os_lit ''limine-binary'');
          bootx64 = join m limine_dir LIMINE_BOOTX64_NAME
      in xbind (xpure (path_exists m bootx64)) (\<lambda>e.
        if e then xok limine_dir
        else xthen (download_and_extract_limine m root)
          (xbind (xpure (path_exists m bootx64)) (\<lambda>e2.
             if e2 then xok limine_dir
             else xerr (lit ''Limine bundle was downloaded but '' @ display bootx64 @ lit '' is missing'')))))"

section \<open>Building and staging\<close>

definition build_kernel :: "machine \<Rightarrow> unit xm" where
  "build_kernel m =
     xbind (workspace_root m) (\<lambda>root.
       run_command m ((add_args (map os_lit
         [''build'', ''--locked'', ''--package'', ''aether-kernel'', ''--target'',
          ''config/target/x86_64-aetheros.json'', ''-Zbuild-std=core,alloc,compiler_builtins'',
          ''-Zbuild-std-features=compiler-builtins-mem'', ''-Zjson-target-spec''])
         (cargo_command m))\<lparr>current_dir := Some root\<rparr>) (lit ''cargo build''))"

definition stage_boot_tree :: "machine \<Rightarrow> unit xm" where
  "stage_boot_tree m =
     xthen (build_kernel m)
    (xbind (workspace_root m) (\<lambda>root.
     xbind (ensure_limine_bundle m root) (\<lambda>limine_dir.
     let stage_dir = join m (join m root DIST_DIR) ESP_DIR;
         efi_boot_dir = join m stage_dir EFI_BOOT_DIR in
     xbind (locate_kernel_binary m root) (\<lambda>kernel_source.
     let kernel_dest = join m stage_dir (os_lit ''kernel.elf'') in
     xbind (locate_limine_config m root) (\<lambda>limine_cfg_src.
     let limine_cfg_dest = join m stage_dir LIMINE_CONF_NAME;
         limine_cfg_efi_dest = join m efi_boot_dir LIMINE_CONF_NAME;
         limine_bootx64_src = join m limine_dir LIMINE_BOOTX64_NAME;
         limine_bootx64_dest = join m efi_boot_dir LIMINE_BOOTX64_NAME in
     xthen (xtry (\<lambda>err. lit ''failed to create staging tree: '' @ err) (recreate_directory m stage_dir))
    (xthen (xtry (\<lambda>err. lit ''failed to create EFI boot directory: '' @ err) (create_dir_all m efi_boot_dir))
    (xthen (xtry (\<lambda>err. lit ''failed to copy kernel binary from '' @ debug_path m kernel_source @ lit '': '' @ err)
              (copy_file m kernel_source kernel_dest))
    (xthen (xtry (\<lambda>err. lit ''failed to copy Limine configuration: '' @ err)
              (copy_file m limine_cfg_src limine_cfg_dest))
    (xthen (xtry (\<lambda>err. lit ''failed to copy EFI-local Limine configuration: '' @ err)
              (copy_file m limine_cfg_src limine_cfg_efi_dest))
    (xthen (xtry (\<lambda>err. lit ''failed to copy BOOTX64.EFI: '' @ err)
              (copy_file m limine_bootx64_src limine_bootx64_dest))
    (xthen (xprint (lit ''staged kernel: '' @ display kernel_dest))
    (xthen (xprint (lit ''staged config: '' @ display limine_cfg_dest))
    (xprint (lit ''staged EFI loader: '' @ display limine_bootx64_dest))))))))))))))"

definition build_qemu_command :: "machine \<Rightarrow> path \<Rightarrow> rstr \<Rightarrow> rstr \<Rightarrow> Command xm" where
  "build_qemu_command m root serial_mode display_mode =
     xbind (find_qemu_binary m) (\<lambda>q.
       case q of
         None \<Rightarrow> xerr (lit ''qemu-system-x86_64 executable not found'')
       | Some qemu \<Rightarrow>
     xbind (find_ovmf_code m) (\<lambda>c.
       case c of
         None \<Rightarrow> xerr (lit ''UEFI firmware not found. Install QEMU with edk2/OVMF firmware support.'')
       | Some ovmf_code \<Rightarrow>
     xbind (ensure_ovmf_vars m root) (\<lambda>ovmf_vars.
       let stage_dir = join m (join m root DIST_DIR) ESP_DIR in
       xok ((add_args
         [os_lit ''-machine'', os_lit ''q35'', os_lit ''-m'', os_lit ''256M'', os_lit ''-serial'', os serial_mode,
          os_lit ''-drive'', os (lit ''if=pflash,format=raw,readonly=on,file='' @ display ovmf_code),
          os_lit ''-drive'', os (lit ''if=pflash,format=raw,file='' @ display ovmf_vars),
          os_lit ''-drive'', os (lit ''format=raw,file=fat:rw:'' @ display stage_dir),
          os_lit ''-display'', os display_mode]
         (Command_new (os qemu)))\<lparr>current_dir := Some root\<rparr>))))"

definition run_qemu :: "machine \<Rightarrow> bool \<Rightarrow> unit xm" where
  "run_qemu m debug =
     xthen (stage_boot_tree m)
    (xbind (workspace_root m) (\<lambda>root.
     xbind (build_qemu_command m root (qemu_serial_mode m) (qemu_display_mode m)) (\<lambda>command.
       run_command m (if debug then add_args [os_lit ''-s'', os_lit ''-S''] command else command)
         (lit ''qemu-system-x86_64''))))"

section \<open>The serial log and the QEMU process\<close>

definition contains_marker :: "machine \<Rightarrow> path \<Rightarrow> rstr \<Rightarrow> bool xm" where
  "contains_marker m log marker =
     xbind (xpure (path_exists m log)) (\<lambda>e.
       if \<not> e then xok False
       else xbind (xtry (\<lambda>err. lit ''failed to read serial log '' @ display log @ lit '': '' @ err) (read_to_string m log))
         (\<lambda>content. xok (str_contains content marker)))"

definition last_lines :: "nat \<Rightarrow> rstr \<Rightarrow> rstr" where
  "last_lines max_lines content =
     (let ls = str_lines content in str_join [0x0A] (drop (length ls - max_lines) ls))"

definition tail_lines :: "machine \<Rightarrow> path \<Rightarrow> nat \<Rightarrow> rstr xm" where
  "tail_lines m log max_lines =
     xbind (xpure (path_exists m log)) (\<lambda>e.
       if \<not> e then xok (lit ''<serial log not created>'')
       else xbind (xtry (\<lambda>err. lit ''failed to read serial log '' @ display log @ lit '': '' @ err) (read_to_string m log))
         (\<lambda>content. xok (last_lines max_lines content)))"

definition terminate_child :: "machine \<Rightarrow> unit xm" where
  "terminate_child m =
     xbind (xtry (\<lambda>err. lit ''failed to inspect QEMU process state: '' @ err) (child_try_wait m)) (\<lambda>status.
       case status of
         Some _ \<Rightarrow> xok ()
       | None \<Rightarrow>
           xthen (xtry (\<lambda>err. lit ''failed to terminate QEMU after verification: '' @ err) (child_kill m))
             (xwait (\<lambda>err. lit ''failed to wait for QEMU shutdown: '' @ err) (child_wait m)))"

definition read_child_stderr :: "machine \<Rightarrow> rstr xm" where
  "read_child_stderr m h =
     (if stderr_taken h then xok [] h
      else xtry (\<lambda>err. lit ''failed to read QEMU stderr: '' @ err) (read_stderr m) (h\<lparr>stderr_taken := True\<rparr>))"

text \<open>The common part of the two polling loops: what happens after the marker was not found.\<close>

definition poll_again :: "machine \<Rightarrow> path \<Rightarrow> nat \<Rightarrow> nat \<Rightarrow> (ExitStatus \<Rightarrow> rstr \<Rightarrow> rstr \<Rightarrow> rstr) \<Rightarrow>
    (rstr \<Rightarrow> rstr) \<Rightarrow> unit option xm" where
  "poll_again m log timeout_secs started_at exit_msg timeout_msg =
     xbind (xtry (\<lambda>err. lit ''failed while polling QEMU status: '' @ err) (child_try_wait m)) (\<lambda>status.
       case status of
         Some s \<Rightarrow>
           xbind (read_child_stderr m) (\<lambda>stderr.
           xbind (tail_lines m log 20) (\<lambda>tail.
           xerr (exit_msg s tail stderr)))
       | None \<Rightarrow>
           xbind (instant_now m) (\<lambda>now.
           if secs timeout_secs \<le> now - started_at then
             xbind (tail_lines m log 20) (\<lambda>tail.
             xthen (terminate_child m)
             (xerr (timeout_msg tail)))
           else xthen (sleep m) (xok None)))"

definition boot_check_body :: "machine \<Rightarrow> path \<Rightarrow> rstr \<Rightarrow> nat \<Rightarrow> nat \<Rightarrow> unit option xm" where
  "boot_check_body m serial_log success_marker timeout started_at =
     xbind (contains_marker m serial_log success_marker) (\<lambda>found.
       if found then
         xthen (terminate_child m)
        (xbind (instant_now m) (\<lambda>now.
         xthen (xprint (lit ''boot-check passed in '' @ seconds_text m (now - started_at) @ lit ''s using marker: '' @ success_marker))
        (xthen (xprint (lit ''serial log: '' @ display serial_log))
        (xok (Some ())))))
       else poll_again m serial_log timeout started_at
         (\<lambda>s tail stderr. lit ''QEMU exited before boot success. status='' @ exit_text s @ lit ''. marker='' @ [0x27] @
            success_marker @ [0x27] @ lit ''. serial_tail='' @ [0x0A] @ tail @ [0x0A] @ lit ''qemu_stderr='' @ [0x0A] @ stderr)
         (\<lambda>tail. lit ''boot-check timed out after '' @ display_nat timeout @ lit ''s waiting for marker '' @ [0x27] @
            success_marker @ [0x27] @ lit ''. serial_tail='' @ [0x0A] @ tail))"

definition serial_log_path :: "machine \<Rightarrow> path \<Rightarrow> path" where
  "serial_log_path m root = join m (join m root DIST_DIR) (os_lit ''serial.log'')"

definition spawn_qemu :: "machine \<Rightarrow> Command \<Rightarrow> unit xm" where
  "spawn_qemu m command =
     xtry (\<lambda>err. lit ''failed to start qemu-system-x86_64: '' @ err) (command_spawn m command)"

definition verify_qemu_boot :: "machine \<Rightarrow> unit xm" where
  "verify_qemu_boot m =
     xthen (stage_boot_tree m)
    (xbind (workspace_root m) (\<lambda>root.
     let serial_log = serial_log_path m root;
         success_marker = boot_success_marker m;
         timeout = boot_timeout_secs m in
     xbind (xpure (path_exists m serial_log)) (\<lambda>e.
     xthen (if e then xtry (\<lambda>err. lit ''failed to clear previous serial log: '' @ err) (remove_file m serial_log)
            else xok ())
    (xbind (build_qemu_command m root (lit ''file:'' @ display serial_log) (lit ''none'')) (\<lambda>command.
     xthen (spawn_qemu m command)
    (xbind (instant_now m) (\<lambda>started_at.
     xloop (boot_check_body m serial_log success_marker timeout started_at))))))))"

definition wait_body :: "machine \<Rightarrow> path \<Rightarrow> rstr \<Rightarrow> nat \<Rightarrow> nat \<Rightarrow> unit option xm" where
  "wait_body m serial_log marker timeout started_at =
     xbind (contains_marker m serial_log marker) (\<lambda>found.
       if found then xok (Some ())
       else poll_again m serial_log timeout started_at
         (\<lambda>s tail stderr. lit ''QEMU exited before marker '' @ [0x27] @ marker @ [0x27] @ lit ''. status='' @ exit_text s @
            lit ''. serial_tail='' @ [0x0A] @ tail @ [0x0A] @ lit ''qemu_stderr='' @ [0x0A] @ stderr)
         (\<lambda>tail. lit ''timed out after '' @ display_nat timeout @ lit ''s waiting for marker '' @ [0x27] @
            marker @ [0x27] @ lit ''. serial_tail='' @ [0x0A] @ tail))"

definition wait_for_log_marker :: "machine \<Rightarrow> path \<Rightarrow> rstr \<Rightarrow> nat \<Rightarrow> unit xm" where
  "wait_for_log_marker m serial_log marker timeout =
     xbind (instant_now m) (\<lambda>started_at. xloop (wait_body m serial_log marker timeout started_at))"

section \<open>The QEMU monitor\<close>

definition connect_body :: "machine \<Rightarrow> nat \<Rightarrow> nat \<Rightarrow> nat \<Rightarrow> unit option xm" where
  "connect_body m port timeout started_at h =
     (case connect_port m h of
        (Inr _, h1) \<Rightarrow> xok (Some ()) h1
      | (Inl err, h1) \<Rightarrow>
          xbind (instant_now m) (\<lambda>now.
            if secs timeout \<le> now - started_at then
              xerr (lit ''failed to connect to QEMU monitor on port '' @ display_nat port @ lit '': '' @ err)
            else xthen (sleep m) (xok None)) h1)"

definition connect_monitor :: "machine \<Rightarrow> nat \<Rightarrow> nat \<Rightarrow> unit xm" where
  "connect_monitor m port timeout =
     xbind (instant_now m) (\<lambda>started_at. xloop (connect_body m port timeout started_at))"

definition qemu_sendkey_name :: "machine \<Rightarrow> rchar \<Rightarrow> rstr + rstr" where
  "qemu_sendkey_name m ch =
     (if 0x61 \<le> ch \<and> ch \<le> 0x7A \<or> 0x30 \<le> ch \<and> ch \<le> 0x39 then Inr [ch]
      else if 0x41 \<le> ch \<and> ch \<le> 0x5A then Inr (lit ''shift-'' @ [ch + 0x20])
      else if ch = 0x20 then Inr (lit ''spc'')
      else if ch = 0x2D then Inr (lit ''minus'')
      else if ch = 0x3D then Inr (lit ''equal'')
      else if ch = 0x5B then Inr (lit ''bracket_left'')
      else if ch = 0x5D then Inr (lit ''bracket_right'')
      else if ch = 0x3B then Inr (lit ''semicolon'')
      else if ch = 0x27 then Inr (lit ''apostrophe'')
      else if ch = 0x2C then Inr (lit ''comma'')
      else if ch = 0x2E then Inr (lit ''dot'')
      else if ch = 0x2F then Inr (lit ''slash'')
      else if ch = 0x5C then Inr (lit ''backslash'')
      else Inl (lit ''unsupported shell-check key: '' @ debug_key m ch))"

definition send_monitor_command :: "machine \<Rightarrow> rstr \<Rightarrow> unit xm" where
  "send_monitor_command m command =
     xtry (\<lambda>err. lit ''failed to send monitor command '' @ [0x27] @ command @ [0x27] @ lit '': '' @ err)
       (io_bind (stream_write_all m (as_bytes command)) (\<lambda>_. stream_write_all m (as_bytes [0x0A])))"

definition send_shell_command :: "machine \<Rightarrow> rstr \<Rightarrow> unit xm" where
  "send_shell_command m command =
     xthen (xfor (\<lambda>key.
         xbind (xlift (qemu_sendkey_name m key)) (\<lambda>name.
         xthen (send_monitor_command m (lit ''sendkey '' @ name)) (sleep m))) command)
    (xthen (send_monitor_command m (lit ''sendkey ret'')) (sleep m))"

definition validate_ppm_screenshot :: "machine \<Rightarrow> path \<Rightarrow> unit xm" where
  "validate_ppm_screenshot m p =
     xbind (xpure (path_exists m p)) (\<lambda>e.
       if \<not> e then xerr (lit ''framebuffer dump was not created: '' @ display p)
       else xbind (xtry (\<lambda>err. lit ''failed to read framebuffer dump '' @ display p @ lit '': '' @ err) (read_file m p))
         (\<lambda>bytes.
            if length bytes < 16 then
              xerr (lit ''framebuffer dump is unexpectedly small: '' @ display_nat (length bytes) @ lit '' bytes'')
            else if take 2 bytes \<noteq> as_bytes (lit ''P6'') then
              xerr (lit ''framebuffer dump does not look like a binary PPM image: '' @ display p)
            else xok ()))"

definition verify_qemu_shell :: "machine \<Rightarrow> unit xm" where
  "verify_qemu_shell m =
     xthen (stage_boot_tree m)
    (xbind (workspace_root m) (\<lambda>root.
     let serial_log = serial_log_path m root;
         screenshot = join m (join m root DIST_DIR) (os_lit ''framebuffer-shell.ppm'');
         success_marker = boot_success_marker m;
         timeout = boot_timeout_secs m;
         monitor_port = qemu_monitor_port m in
     xthen (remove_if_exists m serial_log)
    (xthen (remove_if_exists m screenshot)
    (xbind (build_qemu_command m root (lit ''file:'' @ display serial_log) (lit ''none'')) (\<lambda>command.
     xthen (spawn_qemu m (add_args
       [os_lit ''-monitor'', os (lit ''tcp:127.0.0.1:'' @ display_nat monitor_port @ lit '',server,nowait'')] command))
    (xbind (instant_now m) (\<lambda>started_at.
     xthen (wait_for_log_marker m serial_log success_marker timeout)
    (xthen (wait_for_log_marker m serial_log (lit ''AetherOS shell ready'') timeout)
    (xthen (connect_monitor m monitor_port 5)
    (xthen (send_shell_command m (lit ''help''))
    (xthen (send_shell_command m (lit ''info''))
    (xthen (send_shell_command m (lit ''ls''))
    (xthen (send_monitor_command m (lit ''screendump '' @ display screenshot))
    (xthen (wait_for_log_marker m serial_log (lit ''Show this command list'') timeout)
    (xthen (wait_for_log_marker m serial_log (lit ''AetherOS academic kernel'') timeout)
    (xthen (wait_for_log_marker m serial_log (lit ''/README.TXT'') timeout)
    (xthen (validate_ppm_screenshot m screenshot)
    (xthen (terminate_child m)
    (xbind (instant_now m) (\<lambda>now.
     xprint (lit ''shell-check passed in '' @ seconds_text m (now - started_at) @ lit ''s. serial log: '' @ display serial_log @
       lit '' screenshot: '' @ display screenshot)))))))))))))))))))))"

section \<open>Commands of the tool\<close>

definition run_workspace_tests :: "machine \<Rightarrow> unit xm" where
  "run_workspace_tests m =
     xbind (workspace_root m) (\<lambda>root.
     let cargo = (\<lambda>as. (add_args (map os_lit as) (cargo_command m))\<lparr>current_dir := Some root\<rparr>) in
     xthen (run_command m (cargo [''fmt'', ''--all'', ''--'', ''--check'']) (lit ''cargo fmt''))
    (xthen (run_command m (cargo [''check'', ''--locked'', ''--workspace'']) (lit ''cargo check''))
    (run_command m (cargo [''test'', ''--locked'', ''--package'', ''aether-bootinfo'', ''--package'', ''xtask''])
       (lit ''cargo test (host-safe packages)''))))"

definition print_help :: "unit xm" where
  "print_help = xfor (\<lambda>l. xprint (lit l))
     [''AetherOS xtask'',
      ''commands:'',
      ''  build    Build the kernel target'',
      ''  stage    Build the kernel and stage a bootable UEFI tree'',
      ''  run      Stage assets and launch QEMU through Limine'',
      ''  boot-check  Run headless QEMU and verify boot success from serial logs'',
      ''  shell-check Run QEMU, inject shell commands, and capture a framebuffer dump'',
      ''  test     Run formatting, host-safe tests, and kernel checks'']"

definition run :: "machine \<Rightarrow> unit xm" where
  "run m =
     (let (command, rest) = (case tl (cli_args m) of [] \<Rightarrow> (lit ''help'', []) | c # as \<Rightarrow> (c, as)) in
      if command = lit ''help'' then print_help
      else if command = lit ''build'' then build_kernel m
      else if command = lit ''stage'' then stage_boot_tree m
      else if command = lit ''run'' then run_qemu m (lit ''--debug'' \<in> set rest)
      else if command = lit ''boot-check'' then verify_qemu_boot m
      else if command = lit ''shell-check'' then verify_qemu_shell m
      else if command = lit ''test'' then run_workspace_tests m
      else xerr (lit ''unknown xtask command: '' @ command))"

datatype exit_code = SUCCESS_code | FAILURE_code | Panic_code

definition xtask_main :: "machine \<Rightarrow> host \<Rightarrow> (exit_code \<times> host) option" where
  "xtask_main m h =
     map_option (\<lambda>(r, h').
       case r of
         Inr _ \<Rightarrow> (SUCCESS_code, h')
       | Inl (Err e) \<Rightarrow> (FAILURE_code, h'\<lparr>h_stderr := h_stderr h' @ [lit ''xtask error: '' @ e]\<rparr>)
       | Inl (Panicked e) \<Rightarrow> (Panic_code, h'\<lparr>h_stderr := h_stderr h' @ [e]\<rparr>))
     (run m h)"

end
