(* ===== verification/Xtask_Staging.thy ===== *)
theory Xtask_Staging
  imports Xtask
begin

text \<open>
  What the build tool has done when it reports success: the staged tree is exactly the kernel, the
  configuration and the boot loader, copied from their sources, and a downloaded boot loader is
  unpacked only after its digest was found to be the pinned one.
\<close>

section \<open>What the tool's functions leave alone\<close>

context host_observer
begin

lemma run_command_obs [keeps_intros]: "keeps obs (run_command m c l)"
  unfolding run_command_def by (intro keeps_intros)

lemma recreate_directory_obs [keeps_intros]: "io_keeps obs (recreate_directory m p)"
proof -
  have "io_keeps obs (io_bind (remove_dir_all m p) (\<lambda>_. create_dir_all m p))" by (intro keeps_intros)
  then show ?thesis
    using files_obs(1) [of m p] files_obs(6) [of m p]
    by (auto simp: io_keeps_def recreate_directory_def split: prod.split) (metis snd_conv)+
qed

lemma finders_obs [keeps_intros]:
  "keeps obs (workspace_root m)" "keeps obs (env_path m v)" "keeps obs (find_command m n)" "keeps obs (find_qemu_binary m)"
  "keeps obs (find_ovmf_code m)" "keeps obs (find_ovmf_vars_source m)" "keeps obs (ensure_ovmf_vars m r)"
  "keeps obs (locate_kernel_binary m r)" "keeps obs (locate_limine_config m r)" "keeps obs (remove_if_exists m p)"
proof -
  show root: "keeps obs (workspace_root m)" and ep: "keeps obs (env_path m v)" and fc: "keeps obs (find_command m n)" for v n
    unfolding workspace_root_def env_path_def find_command_def by (intro keeps_intros)+
  show "keeps obs (find_qemu_binary m)" "keeps obs (find_ovmf_code m)"
    and vars: "keeps obs (find_ovmf_vars_source m)"
    unfolding find_qemu_binary_def find_ovmf_code_def find_ovmf_vars_source_def Let_def
    by (intro keeps_intros fc ep)+
  show "keeps obs (ensure_ovmf_vars m r)" unfolding ensure_ovmf_vars_def Let_def by (intro keeps_intros vars)
  show "keeps obs (locate_kernel_binary m r)" "keeps obs (locate_limine_config m r)" "keeps obs (remove_if_exists m p)"
    unfolding locate_kernel_binary_def locate_limine_config_def remove_if_exists_def Let_def by (intro keeps_intros)+
qed

lemma limine_obs [keeps_intros]:
  "keeps obs (verify_sha256 m p e)" "keeps obs (download_file m u p)" "keeps obs (extract_zip m a p)"
  "keeps obs (download_and_extract_limine m r)" "keeps obs (ensure_limine_bundle m r)"
proof -
  show v: "keeps obs (verify_sha256 m p e)" and d: "keeps obs (download_file m u p)" and x: "keeps obs (extract_zip m a p)"
    for p e u a
    unfolding verify_sha256_def download_file_def extract_zip_def Let_def by (intro keeps_intros)+
  show dx: "keeps obs (download_and_extract_limine m r)"
    unfolding download_and_extract_limine_def Let_def by (intro keeps_intros v d x)
  show "keeps obs (ensure_limine_bundle m r)"
    unfolding ensure_limine_bundle_def Let_def by (intro keeps_intros dx)
qed

lemma stage_obs [keeps_intros]: "keeps obs (build_kernel m)" "keeps obs (stage_boot_tree m)"
proof -
  show b: "keeps obs (build_kernel m)" unfolding build_kernel_def by (intro keeps_intros)
  show "keeps obs (stage_boot_tree m)" unfolding stage_boot_tree_def Let_def by (intro keeps_intros b)
qed

lemma qemu_command_obs [keeps_intros]: "keeps obs (build_qemu_command m r s d)"
  unfolding build_qemu_command_def Let_def by (intro keeps_intros)

lemma log_obs [keeps_intros]: "keeps obs (contains_marker m log mk)" "keeps obs (tail_lines m log n)"
  unfolding contains_marker_def tail_lines_def by (intro keeps_intros)+

lemma screenshot_obs [keeps_intros]: "keeps obs (validate_ppm_screenshot m p)"
  unfolding validate_ppm_screenshot_def by (intro keeps_intros)

end

section \<open>Every function returns\<close>

lemma files_return [returns_intros]:
  "returns (workspace_root m)" "returns (env_path m v)" "returns (remove_if_exists m p)" "returns (find_command m n)"
  unfolding workspace_root_def env_path_def remove_if_exists_def find_command_def
  by (intro returns_intros)+

lemma finders_return [returns_intros]:
  "returns (find_qemu_binary m)" "returns (find_ovmf_code m)" "returns (find_ovmf_vars_source m)"
  "returns (locate_kernel_binary m r)" "returns (locate_limine_config m r)"
  unfolding find_qemu_binary_def find_ovmf_code_def find_ovmf_vars_source_def locate_kernel_binary_def
    locate_limine_config_def Let_def
  by (intro returns_intros)+

lemma limine_return [returns_intros]: "returns (verify_sha256 m p e)" "returns (ensure_ovmf_vars m r)"
  unfolding verify_sha256_def ensure_ovmf_vars_def Let_def by (intro returns_intros)+

lemma qemu_command_return [returns_intros]: "returns (build_qemu_command m r s d)"
  unfolding build_qemu_command_def Let_def by (intro returns_intros)

text \<open>The functions that run other programs to completion.\<close>

lemma programs_return [returns_intros]:
  assumes "programs_end m"
  shows "returns (run_command m c l)" "returns (download_file m u p)" "returns (extract_zip m a p)"
    "returns (download_and_extract_limine m r)" "returns (build_kernel m)" "returns (ensure_limine_bundle m r)" "returns (stage_boot_tree m)"
proof -
  show rc: "returns (run_command m c l)" for c l unfolding run_command_def by (intro returns_intros assms)
  show d: "returns (download_file m u p)" and x: "returns (extract_zip m a p)" and b: "returns (build_kernel m)" for u p a
    unfolding download_file_def extract_zip_def build_kernel_def Let_def by (intro returns_intros rc)+
  show dx: "returns (download_and_extract_limine m r)" for r
    unfolding download_and_extract_limine_def Let_def by (intro returns_intros d x)
  show l: "returns (ensure_limine_bundle m r)" for r unfolding ensure_limine_bundle_def Let_def by (intro returns_intros dx)
  show "returns (stage_boot_tree m)" unfolding stage_boot_tree_def Let_def by (intro returns_intros b l)
qed

section \<open>Paths under the workspace root\<close>

definition dir_prefix :: "bool \<Rightarrow> path \<Rightarrow> path" where
  "dir_prefix w b = path_join w b []"

definition plain_name :: "path \<Rightarrow> bool" where
  "plain_name x \<longleftrightarrow> 2 < length x \<and> \<not> is_separator True (last x)"

lemma path_join_prefix: "path_join w b x = dir_prefix w b @ x"
  by (simp add: dir_prefix_def path_join_def)

lemma not_drive: "2 < length p \<Longrightarrow> \<not> is_drive p"
  by (cases p rule: list.exhaust; cases "tl p"; cases "tl (tl p)") (auto simp: is_drive_def split: os_char.splits)

lemma dir_prefix_join:
  assumes "plain_name x"
  shows "dir_prefix w (dir_prefix w b @ x) = dir_prefix w b @ x @ [main_separator w]"
proof -
  have x: "x \<noteq> []" "\<not> is_separator w (last x)" "\<not> is_drive (dir_prefix w b @ x)"
    using assms not_drive [of "dir_prefix w b @ x"] by (auto simp: plain_name_def is_separator_def)
  then show ?thesis by (simp add: dir_prefix_def [of w "dir_prefix w b @ x"] path_join_def)
qed

lemma plain_names [simp]:
  "plain_name DIST_DIR" "plain_name ESP_DIR" "plain_name LIMINE_CACHE_DIR" "plain_name EFI_BOOT_DIR"
  "plain_name (os_lit ''target'')" "plain_name (os_lit ''x86_64-aetheros'')" "plain_name (os_lit ''debug'')"
  "plain_name (os_lit ''config'')" "plain_name (os_lit ''boot'')" "plain_name (os_lit ''limine-binary'')"
  by (simp_all add: plain_name_def os_def lit_def is_separator_def DIST_DIR_def ESP_DIR_def LIMINE_CACHE_DIR_def
      EFI_BOOT_DIR_def)

lemma plain_name_append [simp]: "plain_name x \<Longrightarrow> plain_name (y @ x)" "plain_name x \<Longrightarrow> plain_name (c # x)"
  by (cases "x = []"; simp add: plain_name_def)+

lemmas path_simps = join_def path_join_prefix dir_prefix_join

text \<open>The staged files and their sources.\<close>

definition stage_path :: "machine \<Rightarrow> path \<Rightarrow> path" where
  "stage_path m root = join m (join m root DIST_DIR) ESP_DIR"

definition kernel_sources :: "machine \<Rightarrow> path \<Rightarrow> path list" where
  "kernel_sources m root = map (\<lambda>n. join m (join m (join m (join m root (os_lit ''target'')) (os_lit ''x86_64-aetheros''))
     (os_lit ''debug'')) (os_lit n)) [''aether-kernel'', ''aether-kernel.exe'', ''aether-kernel.bin'']"

definition config_sources :: "machine \<Rightarrow> path \<Rightarrow> path list" where
  "config_sources m root = map (\<lambda>n. join m (join m (join m root (os_lit ''config'')) (os_lit ''boot'')) (os_lit n))
     [''limine.conf'', ''limine.cfg'']"

definition loader_source :: "machine \<Rightarrow> path \<Rightarrow> path" where
  "loader_source m root = join m (join m (join m (join m root DIST_DIR) LIMINE_CACHE_DIR) (os_lit ''limine-binary''))
     LIMINE_BOOTX64_NAME"

definition efi_path :: "machine \<Rightarrow> path \<Rightarrow> path" where
  "efi_path m root = join m (stage_path m root) EFI_BOOT_DIR"

definition stage_targets :: "machine \<Rightarrow> path \<Rightarrow> path list" where
  "stage_targets m root =
     [join m (stage_path m root) (os_lit ''kernel.elf''), join m (stage_path m root) LIMINE_CONF_NAME,
      join m (efi_path m root) LIMINE_CONF_NAME, join m (efi_path m root) LIMINE_BOOTX64_NAME]"

lemmas stage_path_defs = stage_path_def kernel_sources_def config_sources_def loader_source_def efi_path_def stage_targets_def

lemma targets_distinct: "distinct (stage_targets m root)"
  by (simp add: stage_path_defs path_simps)
    (simp add: os_def lit_def LIMINE_CONF_NAME_def LIMINE_BOOTX64_NAME_def EFI_BOOT_DIR_def main_separator_def)

lemma sources_not_targets:
  "set (kernel_sources m root) \<inter> set (stage_targets m root) = {}"
  "set (config_sources m root) \<inter> set (stage_targets m root) = {}"
  "loader_source m root \<notin> set (stage_targets m root)"
  by (auto simp: stage_path_defs path_simps)
    (simp_all add: os_def lit_def DIST_DIR_def ESP_DIR_def LIMINE_CACHE_DIR_def)

section \<open>The staged tree\<close>

lemma copy_file_ok:
  assumes "copy_file m src dst h = (Inr u, h')" and "child h \<noteq> Unreaped"
  obtains bs where "h_files h src = Some (File bs)" and "h_files h' = (h_files h)(dst \<mapsto> File bs)" and "child h' = child h"
  using assms by (auto simp: copy_file_def os_call_Inr_iff split: option.splits node.splits if_splits)

lemma locate_kernel_ok:
  "locate_kernel_binary m root h = Some (Inr p, h') \<Longrightarrow> p \<in> set (kernel_sources m root)"
  unfolding locate_kernel_binary_def Let_def
  by (elim xbind_InrE) (auto simp: kernel_sources_def simp del: xfind_existing.simps split: option.splits dest!: xfind_existing_SomeD)

lemma locate_config_ok:
  "locate_limine_config m root h = Some (Inr p, h') \<Longrightarrow> p \<in> set (config_sources m root)"
  unfolding locate_limine_config_def Let_def
  by (elim xbind_InrE) (auto simp: config_sources_def simp del: xfind_existing.simps split: option.splits dest!: xfind_existing_SomeD)

lemma ensure_limine_ok:
  assumes "ensure_limine_bundle m root h = Some (Inr d, h')"
  shows "join m d LIMINE_BOOTX64_NAME = loader_source m root"
  using assms unfolding ensure_limine_bundle_def Let_def
  by (elim xbind_InrE xthen_InrE) (auto simp: loader_source_def split: if_splits elim!: xthen_InrE xbind_InrE)

lemma stage_boot_treeE:
  assumes "stage_boot_tree m h = Some (Inr u, h')" and "child h \<noteq> Unreaped"
  obtains root k c h1 h2 h3 h4 h5 h6 h7 where
    "workspace_root m h = Some (Inr root, h)" and "k \<in> set (kernel_sources m root)" and "c \<in> set (config_sources m root)"
    and "child h1 \<noteq> Unreaped" and "recreate_directory m (stage_path m root) h1 = (Inr (), h2)"
    and "create_dir_all m (efi_path m root) h2 = (Inr (), h3)"
    and "copy_file m k (stage_targets m root ! 0) h3 = (Inr (), h4)" and "copy_file m c (stage_targets m root ! 1) h4 = (Inr (), h5)"
    and "copy_file m c (stage_targets m root ! 2) h5 = (Inr (), h6)"
    and "copy_file m (loader_source m root) (stage_targets m root ! 3) h6 = (Inr (), h7)"
    and "h_files h' = h_files h7" and "child h7 \<noteq> Unreaped"
proof -
  note c = keepsD [where obs = child]
  from assms(1) obtain u1 g1 root g2 d g3 k g4 cfg h1 u2 h2 u3 h3 u4 h4 u5 h5 u6 h6 u7 h7 u8 h8 u9 h9 where
    b: "build_kernel m h = Some (Inr u1, g1)" and r: "workspace_root m g1 = Some (Inr root, g2)"
    and l: "ensure_limine_bundle m root g2 = Some (Inr d, g3)" and k: "locate_kernel_binary m root g3 = Some (Inr k, g4)"
    and cfg: "locate_limine_config m root g4 = Some (Inr cfg, h1)"
    and ops: "recreate_directory m (stage_path m root) h1 = (Inr u2, h2)" "create_dir_all m (efi_path m root) h2 = (Inr u3, h3)"
      "copy_file m k (stage_targets m root ! 0) h3 = (Inr u4, h4)" "copy_file m cfg (stage_targets m root ! 1) h4 = (Inr u5, h5)"
      "copy_file m cfg (stage_targets m root ! 2) h5 = (Inr u6, h6)"
      "copy_file m (join m d LIMINE_BOOTX64_NAME) (stage_targets m root ! 3) h6 = (Inr u7, h7)"
    and p: "h_files h' = h_files h7"
    unfolding stage_boot_tree_def Let_def
    by (elim xbind_InrE xthen_InrE) (auto simp: stage_targets_def stage_path_def efi_path_def numeral_2_eq_2 numeral_3_eq_3)
  have "child h1 = child h"
    using c [OF child_observer.stage_obs(1) b] c [OF child_observer.finders_obs(1) r] c [OF child_observer.limine_obs(5) l]
      c [OF child_observer.finders_obs(8) k] c [OF child_observer.finders_obs(9) cfg] by simp
  moreover have "child h7 = child h1"
    using child_observer.recreate_directory_obs [of m "stage_path m root"] child_observer.files_obs ops
    unfolding io_keeps_def by (metis snd_conv)
  moreover have "workspace_root m h = Some (Inr root, h)"
    using r by (auto simp: workspace_root_def split: option.splits)
  ultimately show thesis
    using ops p assms(2) ensure_limine_ok [OF l] locate_kernel_ok [OF k] locate_config_ok [OF cfg]
    by (intro that [of root k cfg h1 h2 h3 h4 h5 h6 h7]) simp_all
qed

text \<open>(C24) A successful \<open>stage\<close> leaves the four files of the boot tree as byte-for-byte copies of their
  sources: the built kernel, the Limine configuration (in both places where the loader looks for it)
  and the loader itself, whatever else happened and whichever calls failed on the way.\<close>

theorem staged_files_are_copies:
  assumes "stage_boot_tree m h = Some (Inr (), h')" and "child h \<noteq> Unreaped"
  shows "\<exists>root k c kb cb lb. workspace_root m h = Some (Inr root, h) \<and>
    k \<in> set (kernel_sources m root) \<and> c \<in> set (config_sources m root) \<and>
    h_files h' k = Some (File kb) \<and> h_files h' c = Some (File cb) \<and> h_files h' (loader_source m root) = Some (File lb) \<and>
    map (h_files h') (stage_targets m root) = map (\<lambda>b. Some (File b)) [kb, cb, cb, lb]"
proof -
  obtain root k c h1 h2 h3 h4 h5 h6 h7 where w: "workspace_root m h = Some (Inr root, h)"
    and kc: "k \<in> set (kernel_sources m root)" "c \<in> set (config_sources m root)" and ch: "child h1 \<noteq> Unreaped"
    and dirs: "recreate_directory m (stage_path m root) h1 = (Inr (), h2)" "create_dir_all m (efi_path m root) h2 = (Inr (), h3)"
    and copies: "copy_file m k (stage_targets m root ! 0) h3 = (Inr (), h4)" "copy_file m c (stage_targets m root ! 1) h4 = (Inr (), h5)"
      "copy_file m c (stage_targets m root ! 2) h5 = (Inr (), h6)"
      "copy_file m (loader_source m root) (stage_targets m root ! 3) h6 = (Inr (), h7)"
    and h': "h_files h' = h_files h7"
    using stage_boot_treeE [OF assms] .
  have "child h3 = child h1"
    using child_observer.recreate_directory_obs [of m "stage_path m root"] child_observer.files_obs dirs
    unfolding io_keeps_def by (metis snd_conv)
  then have c3: "child h3 \<noteq> Unreaped" using ch by simp
  obtain kb where f4: "h_files h3 k = Some (File kb)" "h_files h4 = (h_files h3)(stage_targets m root ! 0 \<mapsto> File kb)" "child h4 \<noteq> Unreaped"
    using copy_file_ok [OF copies(1) c3] c3 by metis
  obtain cb where f5: "h_files h4 c = Some (File cb)" "h_files h5 = (h_files h4)(stage_targets m root ! 1 \<mapsto> File cb)" "child h5 \<noteq> Unreaped"
    using copy_file_ok [OF copies(2) f4(3)] f4(3) by metis
  obtain cb' where f6: "h_files h5 c = Some (File cb')" "h_files h6 = (h_files h5)(stage_targets m root ! 2 \<mapsto> File cb')" "child h6 \<noteq> Unreaped"
    using copy_file_ok [OF copies(3) f5(3)] f5(3) by metis
  obtain lb where f7: "h_files h6 (loader_source m root) = Some (File lb)" "h_files h7 = (h_files h6)(stage_targets m root ! 3 \<mapsto> File lb)"
    using copy_file_ok [OF copies(4) f6(3)] by metis
  obtain t0 t1 t2 t3 where t: "stage_targets m root = [t0, t1, t2, t3]" by (simp add: stage_targets_def)
  have d: "distinct [t0, t1, t2, t3]" using targets_distinct [of m root] t by simp
  have s: "k \<noteq> t \<and> c \<noteq> t \<and> loader_source m root \<noteq> t" if "t \<in> {t0, t1, t2, t3}" for t
    using sources_not_targets [of m root] kc t that by auto
  note fs = f4(2) f5(2) f6(2) f7(2)
  have "cb' = cb" using f5(1) f6(1) s [of t1] by (simp add: fs(2) t)
  moreover have "h_files h' k = Some (File kb)" "h_files h' c = Some (File cb)"
    using f4(1) f5(1) s [of t0] s [of t1] s [of t2] s [of t3] by (simp_all add: h' fs t)
  moreover have "h_files h' (loader_source m root) = Some (File lb)" using f7(1) s [of t3] by (simp add: h' fs(4) t)
  moreover have "map (h_files h') [t0, t1, t2, t3] = map (\<lambda>b. Some (File b)) [kb, cb, cb', lb]"
    using d by (simp add: h' fs t)
  ultimately show ?thesis using w kc t by metis
qed

section \<open>A small workspace\<close>

text \<open>A machine on which every call succeeds, and a workspace in \<^verbatim>\<open>/w\<close> with everything in place.\<close>

definition example_machine :: machine where
  "example_machine = \<lparr>cfg_windows = False, manifest_dir = os_lit ''/w/tools/xtask'', cli_args = [lit ''xtask''],
     env = (\<lambda>_. None), fault = (\<lambda>_. None), run_program = (\<lambda>_ _ fs. Some (\<lparr>exit_success = True, exit_text = []\<rparr>, fs)),
     progress = (\<lambda>_ fs. fs), exited = (\<lambda>_. None), clock = (\<lambda>n. 1000000 * n), qemu_stderr = [], sha256 = (\<lambda>_. []),
     error_text = (\<lambda>_. lit ''error''), seconds_text = (\<lambda>_. []), debug_path = (\<lambda>_. []), debug_key = (\<lambda>_. [])\<rparr>"

definition example_host :: host where
  "example_host = \<lparr>calls = 0, h_files = [os_lit ''/w/target/x86_64-aetheros/debug/aether-kernel'' \<mapsto> File [1, 2],
     os_lit ''/w/config/boot/limine.conf'' \<mapsto> File [3], os_lit ''/w/dist/limine-v12.3.2/limine-binary/BOOTX64.EFI'' \<mapsto> File [4, 5]],
     h_stdout = [], h_stderr = [], started = [], child = NoChild, child_killed = False, stderr_taken = False, monitor = []\<rparr>"

lemma os_lit_eq: "os_lit s = os_lit t \<longleftrightarrow> s = t"
  by (simp add: os_def inj_map_eq_map inj_def)

lemma example_fields [simp]: "cfg_windows example_machine = False" "fault example_machine n = None"
  "run_program example_machine n c fs = Some (\<lparr>exit_success = True, exit_text = []\<rparr>, fs)"
  "env example_machine v = None" "exited example_machine n = None" "progress example_machine n fs = fs"
  by (simp_all add: example_machine_def)

lemma example_join:
  assumes "a \<noteq> []" and "last a \<noteq> CHR ''/''"
  shows "join example_machine (os_lit a) (os_lit b) = os_lit (a @ ''/'' @ b)"
proof -
  have "of_char (last a) \<noteq> (of_char CHR ''/'' :: nat)" using assms(2) of_char_eq_iff by blast
  then have "of_char (last a) \<noteq> (0x2F :: nat)" by simp
  with assms(1) show ?thesis
    by (simp add: join_def path_join_def os_def lit_def is_separator_def main_separator_def last_map)
qed

lemma example_root: "workspace_root example_machine h = Some (Inr (os_lit ''/w''), h)"
  by (simp add: workspace_root_def example_machine_def path_parent_def os_def lit_def is_separator_def)

lemma example_ancestors:
  "ancestors False (os_lit ''/w/dist/esp'') = map os_lit [''/w'', ''/w/dist'', ''/w/dist/esp'']"
  "ancestors False (os_lit ''/w/dist/esp/EFI/BOOT'') =
     map os_lit [''/w'', ''/w/dist'', ''/w/dist/esp'', ''/w/dist/esp/EFI'', ''/w/dist/esp/EFI/BOOT'']"
  by code_simp+

lemma example_parents:
  "path_parent False (os_lit ''/w/dist/esp/kernel.elf'') = Some (os_lit ''/w/dist/esp'')"
  "path_parent False (os_lit ''/w/dist/esp/limine.conf'') = Some (os_lit ''/w/dist/esp'')"
  "path_parent False (os_lit ''/w/dist/esp/EFI/BOOT/limine.conf'') = Some (os_lit ''/w/dist/esp/EFI/BOOT'')"
  "path_parent False (os_lit ''/w/dist/esp/EFI/BOOT/BOOTX64.EFI'') = Some (os_lit ''/w/dist/esp/EFI/BOOT'')"
  by code_simp+

lemma example_nonempty: "os_lit ''/w/dist/esp'' \<noteq> []" "os_lit ''/w/dist/esp/EFI/BOOT'' \<noteq> []"
  by (simp_all add: os_def lit_def)

lemmas path_consts = DIST_DIR_def LIMINE_CACHE_DIR_def ESP_DIR_def EFI_BOOT_DIR_def LIMINE_CONF_NAME_def
  LIMINE_BOOTX64_NAME_def

lemma example_stage: "\<exists>h'. stage_boot_tree example_machine example_host = Some (Inr (), h')"
  by (simp add: stage_boot_tree_def build_kernel_def example_root run_command_def xbind_def xthen_def xtry_def xwait_def
      command_status_def os_call_def Let_def ensure_limine_bundle_def xpure_simp path_exists_def locate_kernel_binary_def
      locate_limine_config_def path_consts example_join recreate_directory_def create_dir_all_def copy_file_def
      example_host_def pass_def os_lit_eq example_ancestors example_parents parent_is_dir_def example_nonempty)

theorem staged_files_are_copies_witness:
  "\<exists>h' root k kb. stage_boot_tree example_machine example_host = Some (Inr (), h') \<and>
     k \<in> set (kernel_sources example_machine root) \<and> h_files h' k = Some (File kb) \<and>
     h_files h' (stage_targets example_machine root ! 0) = Some (File kb)"
proof -
  obtain h' where h': "stage_boot_tree example_machine example_host = Some (Inr (), h')" using example_stage by blast
  have "child example_host \<noteq> Unreaped" by (simp add: example_host_def)
  from staged_files_are_copies [OF h' this] h' show ?thesis by (auto simp: stage_targets_def)
qed

section \<open>The pinned boot loader\<close>

lemma started_files [keeps_intros]:
  "io_keeps started (path_exists m p)" "io_keeps started (read_file m p)" "io_keeps started (create_dir_all m p)"
  "io_keeps started (remove_dir_all m p)"
  by (auto simp: io_keeps_def path_exists_def read_file_def create_dir_all_def remove_dir_all_def os_call_def
      split: option.split node.split)

lemma started_find [keeps_intros]: "keeps started (find_command m n)"
proof -
  have "keeps started (xfind_existing m ps)" for ps
    by (induction ps) (simp_all only: xfind_existing.simps, (intro keeps_intros | assumption)+)
  then show ?thesis unfolding find_command_def by (intro keeps_intros)
qed

lemma started_verify: "keeps started (verify_sha256 m p e)"
  unfolding verify_sha256_def Let_def by (intro keeps_intros)

lemma run_command_started:
  assumes "run_command m c l h = Some (r, h')" and "child h \<noteq> Unreaped"
  shows "(\<exists>e. r = Inl e) \<and> started h' = started h \<or> started h' = started h @ [(c, h_files h)]"
  using assms by (auto simp: run_command_def xbind_def xtry_def xwait_def command_status_def
      split: option.splits sum.splits prod.splits if_splits)

definition nothing_run :: "(Command \<times> file_system) list \<Rightarrow> path \<Rightarrow> node option \<Rightarrow> host \<Rightarrow> bool" where
  "nothing_run cs a x h \<longleftrightarrow> child h \<noteq> Unreaped \<and> started h = cs \<and> h_files h a = x"

definition at_most_run :: "(Command \<Rightarrow> bool) \<Rightarrow> (Command \<times> file_system) list \<Rightarrow> path \<Rightarrow> node option \<Rightarrow> xerror + unit \<Rightarrow> host \<Rightarrow> bool" where
  "at_most_run K cs a x r h \<longleftrightarrow> child h \<noteq> Unreaped \<and>
     ((\<exists>e. r = Inl e) \<and> started h = cs \<or> (\<exists>c fs. started h = cs @ [(c, fs)] \<and> fs a = x \<and> K c))"

lemma nothing_run_pass: "nothing_run cs a x h \<Longrightarrow> nothing_run cs a x (pass m h)"
  by (simp add: nothing_run_def)

lemma nothing_run_weaken: "nothing_run cs a x h \<Longrightarrow> at_most_run K cs a x (Inl e) h"
  by (simp add: nothing_run_def at_most_run_def)

lemma find_command_stable: "stable (nothing_run cs a x) (find_command m n)"
  unfolding find_command_def
  by (cases "env m (lit ''PATH'')") (auto intro!: stable_bind stable_find valid_basic nothing_run_pass)

lemma run_command_once:
  assumes "K c"
  shows "valid (nothing_run cs a x) (run_command m c l) (at_most_run K cs a x)"
proof (rule validI)
  fix h r h' assume I: "nothing_run cs a x h" and run: "run_command m c l h = Some (r, h')"
  then have "child h' = child h" using keepsD [OF child_observer.run_command_obs] by blast
  with run_command_started [OF run] I assms show "at_most_run K cs a x r h'"
    by (auto simp: nothing_run_def at_most_run_def)
qed

text \<open>A command that was found in the search path ends in its name.\<close>

lemma to_string_lossy_simps: "to_string_lossy (p @ q) = to_string_lossy p @ to_string_lossy q" "to_string_lossy (os n) = n"
  by (simp_all add: to_string_lossy_def os_def comp_def)

lemma find_command_named:
  assumes "\<not> cfg_windows m"
  shows "valid (nothing_run cs a x) (find_command m n) (\<lambda>r h. nothing_run cs a x h \<and> (\<forall>p. r = Inr (Some p) \<longrightarrow> suffix n p))"
proof (rule validI, rule conjI)
  fix h r h' assume I: "nothing_run cs a x h" and run: "find_command m n h = Some (r, h')"
  show "nothing_run cs a x h'" by (rule validD [OF find_command_stable I run])
  show "\<forall>p. r = Inr (Some p) \<longrightarrow> suffix n p"
  proof (intro allI impI)
    fix p assume p: "r = Inr (Some p)"
    then obtain paths q h1 where q: "xfind_existing m (concat (map (\<lambda>b. command_candidates m b n) (split_paths (cfg_windows m) paths))) h =
        Some (Inr (Some q), h1)" "p = to_string_lossy q"
      using run by (auto simp: find_command_def elim!: xbind_InrE split: option.splits)
    from xfind_existing_SomeD [OF q(1)] assms obtain b where b: "q = join m b (os n)" by (auto simp: command_candidates_def)
    have "\<exists>pre. join m b (os n) = pre @ os n"
      by (auto simp: join_def path_join_def intro!: exI [of _ "b @ [main_separator (cfg_windows m)]"])
    then show "suffix n p" by (auto simp: q(2) b to_string_lossy_simps suffix_def)
  qed
qed

lemma found_command_once:
  assumes "\<not> cfg_windows m" and K: "\<And>p. suffix n p \<Longrightarrow> K (add_args as (Command_new (os p)))"
  shows "valid (nothing_run cs a x) (xbind (find_command m n) (\<lambda>r. case r of
      Some p \<Rightarrow> run_command m (add_args as (Command_new (os p))) l | None \<Rightarrow> xerr e)) (at_most_run K cs a x)"
proof (rule valid_bind [OF find_command_named [OF assms(1)]])
  fix r
  show "valid (\<lambda>h. nothing_run cs a x h \<and> (\<forall>p. Inr r = (Inr (Some p) :: xerror + rstr option) \<longrightarrow> suffix n p))
      (case r of Some p \<Rightarrow> run_command m (add_args as (Command_new (os p))) l | None \<Rightarrow> xerr e) (at_most_run K cs a x)"
  proof (cases r)
    case (Some p)
    show ?thesis
    proof (rule validI)
      fix h r' h' assume "nothing_run cs a x h \<and> (\<forall>q. Inr r = (Inr (Some q) :: xerror + rstr option) \<longrightarrow> suffix n q)"
        and run: "(case r of Some p \<Rightarrow> run_command m (add_args as (Command_new (os p))) l | None \<Rightarrow> xerr e) h = Some (r', h')"
      then have "nothing_run cs a x h" "suffix n p" using Some by simp_all
      then show "at_most_run K cs a x r' h'" using validD [OF run_command_once [of K, OF K]] run Some by simp
    qed
  qed (auto simp: valid_def nothing_run_weaken)
qed (simp add: nothing_run_weaken)

text \<open>The commands that fetch \<open>url\<close> to \<open>archive\<close> and that unpack \<open>archive\<close> into \<open>dest\<close>, on both kinds of system.\<close>

definition quoted :: "rstr \<Rightarrow> rstr" where
  "quoted s = [0x27] @ s @ [0x27]"

definition fetches :: "machine \<Rightarrow> rstr \<Rightarrow> path \<Rightarrow> Command \<Rightarrow> bool" where
  "fetches m url archive c \<longleftrightarrow>
     (if cfg_windows m
      then program_name c = os_lit ''powershell'' \<and> (\<exists>s. last (arguments c) = os (s @ lit ''; Invoke-WebRequest -Uri '' @ quoted url @
        lit '' -OutFile '' @ quoted (display archive)))
      else (\<exists>p. program_name c = os p \<and> suffix (lit ''curl'') p) \<and> arguments c = [os_lit ''-L'', os url, os_lit ''-o'', archive])"

definition unpacks :: "machine \<Rightarrow> path \<Rightarrow> path \<Rightarrow> Command \<Rightarrow> bool" where
  "unpacks m archive dest c \<longleftrightarrow>
     (if cfg_windows m
      then program_name c = os_lit ''powershell'' \<and> (\<exists>s. last (arguments c) = os (s @ lit ''; [System.IO.Compression.ZipFile]::ExtractToDirectory('' @
        quoted (display archive) @ lit '', '' @ quoted (display dest) @ lit '')''))
      else (\<exists>p. program_name c = os p \<and> suffix (lit ''unzip'') p) \<and> arguments c = [os_lit ''-o'', archive, os_lit ''-d'', dest])"

lemma download_once: "valid (nothing_run cs a x) (download_file m u p) (at_most_run (fetches m u p) cs a x)"
proof (cases "cfg_windows m")
  case True
  then show ?thesis
    unfolding download_file_def
    by (auto intro!: run_command_once exI [of _ "lit ''$ProgressPreference='' @ [0x27] @ lit ''SilentlyContinue'' @ [0x27]"]
        simp: fetches_def quoted_def add_args_def Command_new_def)
next
  case False
  then show ?thesis
    unfolding download_file_def if_not_P [OF False]
    by (intro found_command_once) (auto simp: fetches_def add_args_def Command_new_def)
qed

lemma extract_once:
  assumes "a \<noteq> join m d (os_lit ''limine-binary'')" and "\<not> inside (cfg_windows m) (join m d (os_lit ''limine-binary'')) a"
  shows "valid (nothing_run cs a x) (extract_zip m p d) (at_most_run (unpacks m p d) cs a x)"
proof -
  have rm: "stable (nothing_run cs a x) (xtry msg (remove_dir_all m (join m d (os_lit ''limine-binary''))))" for msg
    by (rule stable_try) (use assms in \<open>auto simp: nothing_run_def remove_dir_all_def os_call_def split: option.split node.split\<close>)
  have ex: "stable (nothing_run cs a x) (xpure (path_exists m q))" for q
    by (rule stable_pure) (simp add: path_exists_def nothing_run_pass)
  have clear: "stable (nothing_run cs a x) (if e then xtry msg (remove_dir_all m (join m d (os_lit ''limine-binary''))) else xok ())"
    for e msg using rm by (simp add: valid_basic)
  have win: "valid (nothing_run cs a x) (run_command m c l) (at_most_run (unpacks m p d) cs a x)"
    if "cfg_windows m" "program_name c = os_lit ''powershell''"
      "last (arguments c) = os (lit ''Add-Type -AssemblyName System.IO.Compression.FileSystem'' @ lit ''; [System.IO.Compression.ZipFile]::ExtractToDirectory('' @
        quoted (display p) @ lit '', '' @ quoted (display d) @ lit '')'')" for c l
    using that by (intro run_command_once) (auto simp: unpacks_def)
  have script: "lit ''Add-Type -AssemblyName System.IO.Compression.FileSystem; [System.IO.Compression.ZipFile]::ExtractToDirectory('' =
      lit ''Add-Type -AssemblyName System.IO.Compression.FileSystem'' @ lit ''; [System.IO.Compression.ZipFile]::ExtractToDirectory(''"
    by (simp add: lit_def)
  show ?thesis
    unfolding extract_zip_def Let_def
  proof (rule stable_bind [OF ex stable_then [OF clear valid_if]])
    assume w: "cfg_windows m"
    show "valid (nothing_run cs a x) (run_command m (add_args
           [os_lit ''-NoProfile'', os_lit ''-Command'',
            os (lit ''Add-Type -AssemblyName System.IO.Compression.FileSystem; [System.IO.Compression.ZipFile]::ExtractToDirectory('' @
                [0x27] @ display p @ [0x27] @ lit '', '' @ [0x27] @ display d @ [0x27] @ lit '')'')]
           (Command_new (os_lit ''powershell''))) (lit ''extract Limine bundle'')) (at_most_run (unpacks m p d) cs a x)"
      by (rule win [OF w]) (simp_all add: add_args_def Command_new_def script quoted_def)
  next
    assume "\<not> cfg_windows m"
    then show "valid (nothing_run cs a x) (xbind (find_command m (lit ''unzip'')) (\<lambda>r. case r of
           Some unzip \<Rightarrow> run_command m (add_args [os_lit ''-o'', p, os_lit ''-d'', d] (Command_new (os unzip))) (lit ''extract Limine bundle'')
         | None \<Rightarrow> xerr (lit ''failed to extract Limine bundle: unzip support is unavailable''))) (at_most_run (unpacks m p d) cs a x)"
      by (intro found_command_once) (auto simp: unpacks_def add_args_def Command_new_def)
  qed (simp_all add: nothing_run_weaken)
qed

text \<open>(C25) The boot loader that is unpacked is the pinned one: fetching the Limine bundle runs at most
  two programs; the first fetches the pinned address into the archive file, and the second unpacks this archive file into the cache
  directory, and when it starts, the archive on disk has the SHA-256
  digest that the tool's source states.  Here \<open>sha256\<close> is the digest function of the \<open>sha2\<close> crate.\<close>

theorem unpacked_loader_is_pinned:
  assumes "download_and_extract_limine m root h = Some (r, h')" and "child h \<noteq> Unreaped"
    and "cache = join m (join m root DIST_DIR) LIMINE_CACHE_DIR" and "archive = join m cache (os_lit ''limine-binary.zip'')"
  shows "\<exists>cs. started h' = started h @ cs \<and> length cs \<le> 2 \<and> (0 < length cs \<longrightarrow> fetches m LIMINE_DOWNLOAD_URL archive (fst (cs ! 0))) \<and>
    (length cs = 2 \<longrightarrow> unpacks m archive cache (fst (cs ! 1)) \<and>
      (\<exists>bs. snd (cs ! 1) archive = Some (File bs) \<and> hex_bytes (sha256 m bs) = LIMINE_DOWNLOAD_SHA256))"
proof -
  define pinned where "pinned x \<longleftrightarrow> (\<exists>bs. x = Some (File bs) \<and> hex_bytes (sha256 m bs) = LIMINE_DOWNLOAD_SHA256)" for x
  let ?F = "fetches m LIMINE_DOWNLOAD_URL archive"
  define one where "one r g \<longleftrightarrow> child g \<noteq> Unreaped \<and> ((\<exists>e. r = Inl e) \<and> started g = started h \<or> (\<exists>c. started g = started h @ [c] \<and> ?F (fst c)))"
    for r :: "xerror + unit" and g :: host
  define two where "two g \<longleftrightarrow> (\<exists>cs. started g = started h @ cs \<and> length cs \<le> 2 \<and> (0 < length cs \<longrightarrow> ?F (fst (cs ! 0))) \<and>
    (length cs = 2 \<longrightarrow> unpacks m archive cache (fst (cs ! 1)) \<and> pinned (snd (cs ! 1) archive)))" for g :: host
  have one_two: "one r g \<Longrightarrow> two g" for r g by (auto simp: one_def two_def)
  have arch: "archive \<noteq> join m cache (os_lit ''limine-binary'')" "\<not> inside (cfg_windows m) (join m cache (os_lit ''limine-binary'')) archive"
    unfolding assms(4) by (auto simp: path_simps inside_def nth_append) (auto simp: os_def lit_def is_separator_def)
  have mk: "valid (\<lambda>g. g = h) (xtry msg (create_dir_all m cache)) (\<lambda>_ g. \<exists>x. nothing_run (started h) archive x g)" for msg
    using assms(2) by (auto simp: valid_def xtry_def nothing_run_def create_dir_all_def os_call_def split: option.splits if_splits)
  have dl: "valid (\<lambda>g. \<exists>x. nothing_run (started h) archive x g) (download_file m LIMINE_DOWNLOAD_URL archive) one"
    using download_once [of "started h" archive _ m LIMINE_DOWNLOAD_URL archive]
    by (fastforce simp: valid_def at_most_run_def one_def)
  have vf: "valid (one (Inr u)) (verify_sha256 m archive LIMINE_DOWNLOAD_SHA256) (\<lambda>r g. one (Inr u) g \<and> (r = Inr () \<longrightarrow> pinned (h_files g archive)))" for u
    by (auto simp: valid_def verify_sha256_def xbind_def xtry_def read_file_def os_call_def Let_def one_def pinned_def
        split: option.splits node.splits if_splits)
  have ez: "valid (\<lambda>g. one (Inr v) g \<and> (Inr u = (Inr () :: xerror + unit) \<longrightarrow> pinned (h_files g archive)))
      (extract_zip m archive cache) (\<lambda>_. two)" for u v
  proof (rule validI)
    fix g r g' assume g: "one (Inr v) g \<and> (Inr u = (Inr () :: xerror + unit) \<longrightarrow> pinned (h_files g archive))"
      and run: "extract_zip m archive cache g = Some (r, g')"
    then have n: "nothing_run (started g) archive (h_files g archive) g" by (simp add: nothing_run_def one_def)
    obtain c where c: "started g = started h @ [c]" "?F (fst c)" using g by (auto simp: one_def)
    show "two g'"
    proof (cases "started g' = started g")
      case True
      then show ?thesis unfolding two_def using c by (intro exI [of _ "[c]"]) simp
    next
      case False
      then obtain c' fs where "started g' = started g @ [(c', fs)]" "fs archive = h_files g archive" "unpacks m archive cache c'"
        using validD [OF extract_once [OF arch] n run] by (auto simp: at_most_run_def)
      then show ?thesis unfolding two_def using c g by (intro exI [of _ "[c, (c', fs)]"]) simp
    qed
  qed
  have "valid (\<lambda>g. g = h) (download_and_extract_limine m root) (\<lambda>_. two)"
    unfolding download_and_extract_limine_def Let_def assms(3) [symmetric] assms(4) [symmetric] xthen_def
    by (rule valid_bind [OF mk valid_bind [OF dl valid_bind [OF vf ez]]])
      (auto simp: nothing_run_def intro: one_two, auto simp: two_def)
  then show ?thesis using validD [of _ _ _ h] assms(1) by (fastforce simp: two_def pinned_def)
qed

text \<open>A workspace without the bundle, with \<^verbatim>\<open>curl\<close> and \<^verbatim>\<open>unzip\<close> in \<^verbatim>\<open>/bin\<close>; the download writes the archive.\<close>

definition pinned_digest :: "u8 list" where
  "pinned_digest = [0x38, 0x1c, 0x55, 0xe4, 0x75, 0xa5, 0xb6, 0xf8, 0x8a, 0xfa, 0x73, 0xbb, 0x68, 0x3f, 0xe9, 0x85, 0xfb, 0x0d, 0x2c, 0x42, 0x52, 0xbf, 0xcf, 0x02, 0x42, 0x09, 0x32, 0xc4, 0xa1, 0x12, 0xfc, 0x8d]"

definition archive_path :: path where
  "archive_path = os_lit ''/w/dist/limine-v12.3.2/limine-binary.zip''"

definition fetch_machine :: machine where
  "fetch_machine = example_machine\<lparr>env := [lit ''PATH'' \<mapsto> os_lit ''/bin''], sha256 := (\<lambda>_. pinned_digest),
     run_program := (\<lambda>_ _ fs. Some (\<lparr>exit_success = True, exit_text = []\<rparr>, fs(archive_path \<mapsto> File [0x50, 0x4B])))\<rparr>"

definition fetch_host :: host where
  "fetch_host = example_host\<lparr>h_files := [os_lit ''/bin/curl'' \<mapsto> File [], os_lit ''/bin/unzip'' \<mapsto> File []]\<rparr>"

lemma fetch_join: "join fetch_machine = join example_machine"
  by (simp add: join_def fetch_machine_def)

lemma fetch_facts:
  "hex_bytes pinned_digest = LIMINE_DOWNLOAD_SHA256"
  "ancestors False (os_lit ''/w/dist/limine-v12.3.2'') = map os_lit [''/w'', ''/w/dist'', ''/w/dist/limine-v12.3.2'']"
  "split_paths False (os_lit ''/bin'') = [os_lit ''/bin'']"
  by (simp add: hex_bytes_def pinned_digest_def hex_digit_def LIMINE_DOWNLOAD_SHA256_def lit_def) code_simp+

lemma fetch_fields [simp]: "cfg_windows fetch_machine = False" "fault fetch_machine n = None"
  "run_program fetch_machine n c fs = Some (\<lparr>exit_success = True, exit_text = []\<rparr>, fs(archive_path \<mapsto> File [0x50, 0x4B]))"
  "env fetch_machine (lit ''PATH'') = Some (os_lit ''/bin'')" "sha256 fetch_machine bs = pinned_digest"
  by (simp_all add: fetch_machine_def)

lemma fetch_run: "\<exists>h' c1 c2 fs1 fs2. download_and_extract_limine fetch_machine (os_lit ''/w'') fetch_host = Some (Inr (), h') \<and>
    started h' = [(c1, fs1), (c2, fs2)]"
  by (simp add: download_and_extract_limine_def download_file_def verify_sha256_def extract_zip_def find_command_def
      command_candidates_def run_command_def xbind_def xthen_def xtry_def xwait_def command_status_def os_call_def Let_def
      xpure_simp path_exists_def path_consts fetch_join example_join create_dir_all_def read_file_def pass_def os_lit_eq
      fetch_facts archive_path_def fetch_host_def example_host_def)

theorem unpacked_loader_is_pinned_witness:
  "\<exists>h' cs. download_and_extract_limine fetch_machine (os_lit ''/w'') fetch_host = Some (Inr (), h') \<and>
     started h' = started fetch_host @ cs \<and> length cs = 2 \<and>
     arguments (fst (cs ! 1)) = [os_lit ''-o'', archive_path, os_lit ''-d'', os_lit ''/w/dist/limine-v12.3.2''] \<and>
     (\<exists>bs. snd (cs ! 1) archive_path = Some (File bs) \<and> hex_bytes (sha256 fetch_machine bs) = LIMINE_DOWNLOAD_SHA256)"
proof -
  obtain h' c1 c2 fs1 fs2 where h': "download_and_extract_limine fetch_machine (os_lit ''/w'') fetch_host = Some (Inr (), h')"
    "started h' = [(c1, fs1), (c2, fs2)]" using fetch_run by blast
  have "child fetch_host \<noteq> Unreaped" "started fetch_host = []" by (simp_all add: fetch_host_def example_host_def)
  moreover have "os_lit ''/w/dist/limine-v12.3.2'' = join fetch_machine (join fetch_machine (os_lit ''/w'') DIST_DIR) LIMINE_CACHE_DIR"
    "archive_path = join fetch_machine (os_lit ''/w/dist/limine-v12.3.2'') (os_lit ''limine-binary.zip'')"
    by (simp_all add: archive_path_def fetch_join example_join path_consts)
  ultimately show ?thesis
    using unpacked_loader_is_pinned [OF h'(1)] h' by (auto simp: unpacks_def simp del: One_nat_def)
qed

end
