(* ===== verification/Xtask_Checks.thy ===== *)
theory Xtask_Checks
  imports Xtask_Staging
begin

text \<open>
  The polling loops, the serial log and the monitor connection of the build tool: the loops end, a
  marker that was found is in the log of this run, and what is sent to the QEMU monitor.
\<close>

section \<open>Properties that QEMU and the passing of time keep\<close>

lemma stable_lift: "stable I (xlift r)"
  by (cases r) (simp_all add: xlift_def valid_def)

text \<open>A state property that survives the passing of time and does not depend on the child process, the
  monitor connection and the output holds through all the calls the checks make after QEMU was
  started.\<close>

locale passive_invariant =
  fixes m :: machine and I :: "host \<Rightarrow> bool"
  assumes I_pass: "I h \<Longrightarrow> I (pass m h)" and I_child: "I h \<Longrightarrow> I (h\<lparr>child := c\<rparr>)"
    and I_monitor: "I h \<Longrightarrow> I (h\<lparr>monitor := bs\<rparr>)" and I_stdout: "I h \<Longrightarrow> I (h\<lparr>h_stdout := ls\<rparr>)"
    and I_taken: "I h \<Longrightarrow> I (h\<lparr>stderr_taken := b\<rparr>)" and I_killed: "I h \<Longrightarrow> I (h\<lparr>child_killed := b\<rparr>)"
begin

lemma exists_stable: "stable I (xpure (path_exists m p))"
  by (rule stable_pure) (simp add: path_exists_def I_pass)

lemma clock_stable: "stable I (instant_now m)" "stable I (sleep m)"
  unfolding instant_now_def sleep_def by (auto intro!: stable_pure I_pass)

lemma print_stable: "stable I (xprint l)"
  by (auto simp: valid_def I_stdout)

lemma os_call_stable: "(\<And>h. I h \<Longrightarrow> I (snd (op h))) \<Longrightarrow> I h \<Longrightarrow> I (snd (os_call m op h))"
  by (simp add: os_call_def I_pass split: option.split)

lemma read_stable: "I h \<Longrightarrow> I (snd (read_file m p h))" "I h \<Longrightarrow> I (snd (read_to_string m p h))"
proof -
  show r: "I h \<Longrightarrow> I (snd (read_file m p h))" for h
    unfolding read_file_def by (rule os_call_stable) (auto split: option.split node.split)
  show "I h \<Longrightarrow> I (snd (read_to_string m p h))"
    using r [of h] by (auto simp: read_to_string_def io_bind_def split: prod.split sum.split option.split)
qed

lemma log_stable: "stable I (contains_marker m log mk)" "stable I (tail_lines m log k)" "stable I (validate_ppm_screenshot m p)"
  unfolding contains_marker_def tail_lines_def validate_ppm_screenshot_def
  by (auto intro!: stable_bind exists_stable stable_try read_stable valid_basic)

lemma child_stable: "stable I (xtry msg (child_try_wait m))" "stable I (xtry msg (child_kill m))" "stable I (xwait msg (child_wait m))"
  by (auto intro!: stable_try stable_child_wait simp: child_try_wait_def child_kill_def os_call_def I_pass I_child I_killed split: option.split)

lemma terminate_stable: "stable I (terminate_child m)"
  unfolding terminate_child_def
  by (auto intro!: stable_bind stable_then child_stable valid_basic split: option.split)

lemma stderr_stable: "stable I (read_child_stderr m)"
  by (auto simp: valid_def read_child_stderr_def xtry_def read_stderr_def os_call_def I_pass I_taken
      split: if_splits option.splits)

lemma poll_again_stable: "stable I (poll_again m log t t0 em tm)"
  unfolding poll_again_def
  by (rule stable_bind [OF child_stable(1)])
    (auto intro!: stable_bind stable_then stderr_stable log_stable clock_stable terminate_stable valid_basic split: option.split)

lemma wait_stable: "stable I (wait_for_log_marker m log mk t)"
proof -
  have body: "stable I (wait_body m log mk t t0)" for t0
    unfolding wait_body_def by (rule stable_bind [OF log_stable(1)]) (auto intro!: valid_basic poll_again_stable)
  show ?thesis unfolding wait_for_log_marker_def by (intro stable_bind clock_stable stable_loop body)
qed

lemma connect_stable: "stable I (connect_monitor m p t)"
proof -
  have "stable I (connect_body m p t t0)" for t0
    by (auto simp: valid_def connect_body_def connect_port_def os_call_def instant_now_def sleep_def xbind_def xthen_def
        xpure_simp I_pass split: option.splits if_splits)
  then show ?thesis unfolding connect_monitor_def by (intro stable_bind clock_stable stable_loop)
qed

lemma send_monitor_stable: "stable I (send_monitor_command m c)"
  unfolding send_monitor_command_def
  by (rule stable_try) (auto simp: io_bind_def stream_write_all_def os_call_def I_pass I_monitor split: option.split)

lemma send_shell_stable: "stable I (send_shell_command m c)"
proof -
  have key: "stable I (xbind (xlift (qemu_sendkey_name m key)) (\<lambda>name. xthen (send_monitor_command m (lit ''sendkey '' @ name)) (sleep m)))"
    for key by (intro stable_bind stable_lift stable_then send_monitor_stable clock_stable)
  show ?thesis
    unfolding send_shell_command_def by (intro stable_then stable_for key send_monitor_stable clock_stable)
qed

end

section \<open>The polling loops end\<close>

text \<open>\<open>Instant\<close> never goes back; what is needed here is that it does not stand still for good.\<close>

definition clock_advances :: "machine \<Rightarrow> bool" where
  "clock_advances m \<longleftrightarrow> (\<forall>t. \<exists>n. \<forall>k\<ge>n. t \<le> clock m k)"

abbreviation since :: "nat \<Rightarrow> host \<Rightarrow> bool" where
  "since n h \<equiv> n \<le> calls h"

interpretation called: passive_invariant m "since n" for m n
  by unfold_locales simp_all

lemma poll_again_since:
  "valid (since n) (poll_again m log timeout t0 em tm)
     (\<lambda>r h'. r = Inr None \<longrightarrow> (\<exists>k\<ge>n. k < calls h' \<and> clock m k - t0 < secs timeout))"
proof -
  have err: "valid P (xbind c (\<lambda>x. xbind (d x) (\<lambda>y. xerr (e x y)))) (\<lambda>r h'. r = Inr None \<longrightarrow> Q h')"
    "valid P (xbind c (\<lambda>x. xthen b (xerr (e' x)))) (\<lambda>r h'. r = Inr None \<longrightarrow> Q h')"
    for P Q and c d b e e' by (auto simp: valid_def xthen_def elim!: xbind_cases)
  have tail: "valid (since n) (xbind (instant_now m) (\<lambda>now.
       if secs timeout \<le> now - t0 then
         xbind (tail_lines m log 20) (\<lambda>tail. xthen (terminate_child m) (xerr (tm tail)))
       else xthen (sleep m) (xok None)))
     (\<lambda>r h'. r = Inr None \<longrightarrow> (\<exists>k\<ge>n. k < calls h' \<and> clock m k - t0 < secs timeout))"
  proof (rule valid_bind)
    show "valid (since n) (instant_now m) (\<lambda>r h. \<exists>k\<ge>n. k < calls h \<and> r = Inr (clock m k))"
      by (auto simp: valid_def instant_now_def xpure_simp)
    fix now
    show "valid (\<lambda>h. \<exists>k\<ge>n. k < calls h \<and> Inr now = (Inr (clock m k) :: xerror + nat))
        (if secs timeout \<le> now - t0 then
           xbind (tail_lines m log 20) (\<lambda>tail. xthen (terminate_child m) (xerr (tm tail)))
         else xthen (sleep m) (xok None))
        (\<lambda>r h'. r = Inr None \<longrightarrow> (\<exists>k\<ge>n. k < calls h' \<and> clock m k - t0 < secs timeout))"
    proof (cases "secs timeout \<le> now - t0")
      case False
      then show ?thesis by (force simp: valid_def xthen_apply sleep_def xpure_simp)
    qed (simp add: err)
  qed auto
  show ?thesis unfolding poll_again_def
    by (rule stable_bind [OF called.child_stable(1)]) (auto simp: err tail split: option.split)
qed

lemma poll_bodies_since:
  "valid (since n) (boot_check_body m log mk timeout t0)
     (\<lambda>r h'. r = Inr None \<longrightarrow> (\<exists>k\<ge>n. k < calls h' \<and> clock m k - t0 < secs timeout))"
  "valid (since n) (wait_body m log mk timeout t0)
     (\<lambda>r h'. r = Inr None \<longrightarrow> (\<exists>k\<ge>n. k < calls h' \<and> clock m k - t0 < secs timeout))"
proof -
  have done_: "valid P (xthen a (xbind b (\<lambda>x. xthen (c x) (xthen d (xok (Some ())))))) (\<lambda>r h'. r = Inr None \<longrightarrow> Q h')"
    for P Q and a b c d by (auto simp: valid_def xthen_def elim!: xbind_cases)
  show "valid (since n) (boot_check_body m log mk timeout t0)
     (\<lambda>r h'. r = Inr None \<longrightarrow> (\<exists>k\<ge>n. k < calls h' \<and> clock m k - t0 < secs timeout))"
    unfolding boot_check_body_def
    by (rule stable_bind [OF called.log_stable(1)]) (simp_all add: done_ poll_again_since)
  show "valid (since n) (wait_body m log mk timeout t0)
     (\<lambda>r h'. r = Inr None \<longrightarrow> (\<exists>k\<ge>n. k < calls h' \<and> clock m k - t0 < secs timeout))"
    unfolding wait_body_def
    by (rule stable_bind [OF called.log_stable(1)]) (simp_all add: valid_basic poll_again_since)
qed

lemma connect_body_since:
  "valid (since n) (connect_body m port timeout t0)
     (\<lambda>r h'. r = Inr None \<longrightarrow> (\<exists>k\<ge>n. k < calls h' \<and> clock m k - t0 < secs timeout))"
  by (auto simp: valid_def connect_body_def connect_port_def os_call_def instant_now_def sleep_def xbind_def xthen_def
      xpure_simp not_le split: option.splits if_splits) (metis Suc_n_not_le_n le_Suc_eq le_trans lessI less_Suc_eq)

lemma read_stderr_returns [returns_intros]: "returns (read_child_stderr m)"
  by (auto simp: returns_def read_child_stderr_def xtry_def split: prod.split sum.split)

lemma checks_return [returns_intros]: "returns (contains_marker m log mk)" "returns (tail_lines m log k)"
  "returns (terminate_child m)" "returns (validate_ppm_screenshot m p)" "returns (send_monitor_command m c)" "returns (spawn_qemu m cmd)"
  unfolding contains_marker_def tail_lines_def terminate_child_def validate_ppm_screenshot_def send_monitor_command_def spawn_qemu_def
  by (intro returns_intros)+

lemma send_returns [returns_intros]: "returns (send_shell_command m c)"
  unfolding send_shell_command_def by (intro returns_intros)

lemma bodies_return [returns_intros]: "returns (poll_again m log t t0 em tm)" "returns (boot_check_body m log mk t t0)"
  "returns (wait_body m log mk t t0)" "returns (connect_body m p t t0)"
proof -
  show p: "returns (poll_again m log t t0 em tm)" for em tm unfolding poll_again_def by (intro returns_intros)
  show "returns (boot_check_body m log mk t t0)" "returns (wait_body m log mk t t0)"
    unfolding boot_check_body_def wait_body_def by (intro returns_intros p)+
  have "returns (xbind (instant_now m) (\<lambda>now. if secs t \<le> now - t0 then xerr e else xthen (sleep m) (xok None)))" for e
    by (intro returns_intros)
  then show "returns (connect_body m p t t0)"
    by (auto simp: returns_def connect_body_def split: prod.split sum.split)
qed

lemma poll_loop_returns:
  assumes "clock_advances m" and "returns body"
    and "\<And>n. valid (since n) body (\<lambda>r h'. r = Inr None \<longrightarrow> (\<exists>k\<ge>n. k < calls h' \<and> clock m k - t0 < secs timeout))"
  shows "returns (xloop body)"
proof -
  obtain n where n: "\<forall>k\<ge>n. t0 + secs timeout \<le> clock m k" using assms(1) by (auto simp: clock_advances_def)
  have "xloop body h \<noteq> None" for h
  proof (rule xloop_returns [OF assms(2), where n = n])
    show "calls g < calls g'" if "body g = Some (Inr None, g')" for g g'
      using validD [OF assms(3) [of "calls g"] _ that] by auto
    show "body g \<noteq> Some (Inr None, g')" if "n \<le> calls g" for g g'
      using validD [OF assms(3) [of n] that] n by fastforce
  qed
  then show ?thesis by (simp add: returns_def)
qed

lemma waits_return [returns_intros]:
  assumes "clock_advances m"
  shows "returns (wait_for_log_marker m log mk t)" "returns (connect_monitor m p t)"
    "returns (xloop (boot_check_body m log mk t t0))"
  unfolding wait_for_log_marker_def connect_monitor_def
  by (intro returns_intros poll_loop_returns [OF assms _ poll_bodies_since(2)]
      poll_loop_returns [OF assms _ poll_bodies_since(1)] poll_loop_returns [OF assms _ connect_body_since])+

lemma commands_return [returns_intros]:
  assumes "clock_advances m" and "programs_end m"
  shows "returns (verify_qemu_boot m)" "returns (verify_qemu_shell m)" "returns (run_qemu m d)" "returns (run_workspace_tests m)"
  unfolding verify_qemu_boot_def verify_qemu_shell_def run_qemu_def run_workspace_tests_def Let_def
  by (intro returns_intros waits_return [OF assms(1)] programs_return [OF assms(2)])+

section \<open>Markers in the serial log\<close>

definition log_shows :: "path \<Rightarrow> rstr \<Rightarrow> host \<Rightarrow> bool" where
  "log_shows log marker h \<longleftrightarrow> (\<exists>bs. h_files h log = Some (File bs) \<and> sublist (as_bytes marker) bs)"

lemma contains_marker_sound:
  "valid P (contains_marker m log marker) (\<lambda>r h'. r = Inr True \<longrightarrow> log_shows log marker h')"
proof (rule validI, rule impI)
  fix h r h' assume "contains_marker m log marker h = Some (r, h')" and r: "r = Inr True"
  then obtain t bs where t: "h_files h' log = Some (File bs)" "from_utf8 bs = Some t" "str_contains t marker"
    by (auto simp: contains_marker_def xbind_def xpure_simp path_exists_def xtry_def read_to_string_def io_bind_def
        read_file_def os_call_def split: if_splits option.splits node.splits)
  then have b: "bs = as_bytes t" by (simp add: from_utf8_iff)
  obtain ps ss where "t = ps @ marker @ ss" using t(3) unfolding str_contains_def sublist_def by blast
  then have "sublist (as_bytes marker) bs" by (simp add: b)
  with t(1) show "log_shows log marker h'" unfolding log_shows_def by blast
qed

lemma poll_again_no_result: "valid P (poll_again m log t t0 em tm) (\<lambda>r _. \<forall>u. r \<noteq> Inr (Some u))"
  unfolding poll_again_def
  by (auto simp: valid_def xthen_def elim!: xbind_cases split: option.splits if_splits)

lemma wait_body_sound: "valid P (wait_body m log marker t t0) (\<lambda>r h'. r = Inr (Some ()) \<longrightarrow> log_shows log marker h')"
  unfolding wait_body_def
proof (rule valid_bind [OF contains_marker_sound])
  fix found
  show "valid (\<lambda>h'. Inr found = (Inr True :: xerror + bool) \<longrightarrow> log_shows log marker h')
     (if found then xok (Some ()) else poll_again m log t t0 em tm)
     (\<lambda>r h'. r = Inr (Some ()) \<longrightarrow> log_shows log marker h')" for em tm
  proof (cases found)
    case False
    then show ?thesis
      using poll_again_no_result [where P = "\<lambda>_. True"] by (intro validI) (force dest: validD)
  qed (simp add: valid_def)
qed simp

lemma wait_sound: "valid P (wait_for_log_marker m log marker t) (\<lambda>r h'. r = Inr () \<longrightarrow> log_shows log marker h')"
  unfolding wait_for_log_marker_def
proof (rule valid_bind [where R = "\<lambda>_ _. True"])
  fix t0
  show "valid (\<lambda>_. True) (xloop (wait_body m log marker t t0)) (\<lambda>r h'. r = Inr () \<longrightarrow> log_shows log marker h')"
  proof (rule validI, rule impI)
    fix h r h' assume run: "xloop (wait_body m log marker t t0) h = Some (r, h')" and r: "r = Inr ()"
    obtain g where "wait_body m log marker t t0 g = Some (Inr (Some ()), h')"
      using xloop_last_round [where P = "\<lambda>_. True", OF run] r by auto
    then show "log_shows log marker h'" using validD [OF wait_body_sound [where P = "\<lambda>_. True"]] by blast
  qed
qed (auto simp: valid_def)

text \<open>QEMU appends to the log and never takes anything back.\<close>

definition log_grows :: "machine \<Rightarrow> path \<Rightarrow> bool" where
  "log_grows m log \<longleftrightarrow> (\<forall>n fs bs. fs log = Some (File bs) \<longrightarrow> (\<exists>more. progress m n fs log = Some (File (bs @ more))))"

lemma log_shows_pass: "log_grows m log \<Longrightarrow> log_shows log mk h \<Longrightarrow> log_shows log mk (pass m h)"
  by (cases "child h = Unreaped") (force simp: log_shows_def log_grows_def pass_def sublist_def)+

interpretation log_kept: passive_invariant m "\<lambda>h. log_grows m log \<longrightarrow> log_shows log mk h" for m log mk
  by unfold_locales (simp_all add: log_shows_pass, simp_all add: log_shows_def)

lemma terminate_reaps: "valid P (terminate_child m) (\<lambda>r h'. r = Inr () \<longrightarrow> child h' = Reaped)"
  by (auto simp: valid_def terminate_child_def xbind_def xthen_def xtry_def xwait_def child_try_wait_def child_kill_def child_wait_def
      os_call_def child_exit_reaps split: option.splits)

text \<open>A loop whose rounds satisfy \<open>Q\<close> when they return.\<close>

lemma valid_loop:
  assumes "\<And>x. valid (\<lambda>_. True) body (\<lambda>r h'. r = Inr (Some x) \<longrightarrow> Q x h')"
  shows "valid P (xloop body) (\<lambda>r h'. r = Inr x \<longrightarrow> Q x h')"
proof (rule validI, rule impI)
  fix h r h' assume run: "xloop body h = Some (r, h')" and r: "r = Inr x"
  obtain g where "body g = Some (Inr (Some x), h')"
    using xloop_last_round [where P = "\<lambda>_. True", OF run] r by auto
  then show "Q x h'" using validD [OF assms] by blast
qed

lemma valid_conj: "valid P c Q \<Longrightarrow> valid P c R \<Longrightarrow> valid P c (\<lambda>r h. Q r h \<and> R r h)"
  by (auto simp: valid_def)

abbreviation checked :: "machine \<Rightarrow> path \<Rightarrow> rstr \<Rightarrow> host \<Rightarrow> bool" where
  "checked m log mk h \<equiv> child h = Reaped \<and> (log_grows m log \<longrightarrow> log_shows log mk h)"

lemma checked_stable: "stable (checked m log mk) (xprint l)" "stable (checked m log mk) (instant_now m)"
proof -
  show "stable (checked m log mk) (xprint l)" by (rule validI) (auto simp: log_shows_def)
  show "stable (checked m log mk) (instant_now m)"
    unfolding instant_now_def by (rule stable_pure) (auto intro: log_shows_pass)
qed

lemma terminate_checked:
  "valid (log_shows log mk) (terminate_child m) (\<lambda>r h'. r = Inr () \<longrightarrow> checked m log mk h')"
  using valid_conj [OF terminate_reaps [of "log_shows log mk" m]
      valid_strengthen [OF log_kept.terminate_stable [where m = m and log = log and mk = mk], of "log_shows log mk"]]
  by (rule valid_weaken) blast+

lemma boot_check_body_sound:
  "valid (\<lambda>_. True) (boot_check_body m log mk t t0) (\<lambda>r h'. r = Inr (Some u) \<longrightarrow> checked m log mk h')"
  unfolding boot_check_body_def
proof (rule valid_bind [OF contains_marker_sound], rule valid_if)
  fix found :: bool assume f: found
  have "valid (checked m log mk) (xbind (instant_now m) (\<lambda>now. xthen (xprint (p now)) (xthen (xprint q) (xok (Some ())))))
      (\<lambda>r h'. r = Inr (Some u) \<longrightarrow> checked m log mk h')" for p q
    by (intro stable_bind checked_stable stable_then valid_basic) simp_all
  then show "valid (\<lambda>h'. Inr found = (Inr True :: xerror + bool) \<longrightarrow> log_shows log mk h')
     (xthen (terminate_child m) (xbind (instant_now m) (\<lambda>now. xthen (xprint (p now)) (xthen (xprint q) (xok (Some ()))))))
     (\<lambda>r h'. r = Inr (Some u) \<longrightarrow> checked m log mk h')" for p q
    unfolding xthen_def [of "terminate_child m"] using f
    by (intro valid_bind [OF valid_strengthen [OF terminate_checked]]) simp_all
qed (auto intro: valid_weaken [OF poll_again_no_result])

text \<open>What a computation promises when it succeeds.\<close>

definition ensures :: "(host \<Rightarrow> bool) \<Rightarrow> 'a xm \<Rightarrow> ('a \<Rightarrow> host \<Rightarrow> bool) \<Rightarrow> bool" where
  "ensures P c Q \<longleftrightarrow> valid P c (\<lambda>r h. \<forall>x. r = Inr x \<longrightarrow> Q x h)"

lemma ensuresI: "(\<And>h x h'. P h \<Longrightarrow> c h = Some (Inr x, h') \<Longrightarrow> Q x h') \<Longrightarrow> ensures P c Q"
  by (auto simp: ensures_def valid_def)

lemma ensuresD: "ensures P c Q \<Longrightarrow> P h \<Longrightarrow> c h = Some (Inr x, h') \<Longrightarrow> Q x h'"
  by (auto simp: ensures_def valid_def)

lemma ensures_bind: "ensures P c R \<Longrightarrow> (\<And>x. ensures (R x) (f x) Q) \<Longrightarrow> ensures P (xbind c f) Q"
  by (rule ensuresI) (erule xbind_InrE, blast dest: ensuresD)

lemma ensures_then: "ensures P c (\<lambda>_. R) \<Longrightarrow> ensures R d Q \<Longrightarrow> ensures P (xthen c d) Q"
  unfolding xthen_def by (rule ensures_bind)

lemma ensures_stable: "stable I c \<Longrightarrow> ensures I c (\<lambda>_. I)"
  by (rule ensuresI) (erule (2) validD)

lemma ensures_conj: "ensures P c Q \<Longrightarrow> ensures P' c Q' \<Longrightarrow> ensures (\<lambda>h. P h \<and> P' h) c (\<lambda>x h. Q x h \<and> Q' x h)"
  by (rule ensuresI) (blast dest: ensuresD)

lemma ensures_weaken: "ensures P c Q \<Longrightarrow> (\<And>h. P' h \<Longrightarrow> P h) \<Longrightarrow> (\<And>x h. Q x h \<Longrightarrow> Q' x h) \<Longrightarrow> ensures P' c Q'"
  by (rule ensuresI) (blast dest: ensuresD)

section \<open>The log of this run\<close>

text \<open>Before QEMU starts the old log is removed, and nothing that is done until QEMU runs creates it again.\<close>

abbreviation fresh :: "path \<Rightarrow> host \<Rightarrow> bool" where
  "fresh log h \<equiv> child h \<noteq> Unreaped \<and> h_files h log = None"

lemma fresh_pass: "fresh log h \<Longrightarrow> fresh log (pass m h)"
  by simp

lemma find_fresh: "stable (fresh log) (find_command m n)" "stable (fresh log) (find_qemu_binary m)"
  "stable (fresh log) (find_ovmf_code m)" "stable (fresh log) (find_ovmf_vars_source m)"
proof -
  have e: "stable (fresh log) (xpure (path_exists m p))" for p by (rule stable_pure) (simp add: path_exists_def)
  show f: "stable (fresh log) (find_command m n)" for n
    unfolding find_command_def
    by (auto intro!: stable_bind stable_find valid_basic split: option.split)
  have v: "stable (fresh log) (env_path m n)" for n
    unfolding env_path_def by (auto intro!: stable_bind e valid_basic split: option.split)
  show "stable (fresh log) (find_qemu_binary m)"
    unfolding find_qemu_binary_def Let_def by (rule stable_bind [OF f]) (auto intro!: stable_bind e valid_basic split: option.split)
  show "stable (fresh log) (find_ovmf_code m)" "stable (fresh log) (find_ovmf_vars_source m)"
    unfolding find_ovmf_code_def find_ovmf_vars_source_def
    by (rule stable_bind [OF v]; auto intro!: stable_find valid_basic simp del: xfind_existing.simps split: option.split)+
qed

lemma log_path_apart:
  "serial_log_path m root \<noteq> join m (join m root DIST_DIR) LIMINE_VARS_NAME"
  "serial_log_path m root \<notin> set (ancestors (cfg_windows m) (join m root DIST_DIR))"
proof -
  show "serial_log_path m root \<noteq> join m (join m root DIST_DIR) LIMINE_VARS_NAME"
    by (simp add: serial_log_path_def path_simps LIMINE_VARS_NAME_def os_def lit_def)
  have "length (join m root DIST_DIR) < length (serial_log_path m root)"
    by (simp add: serial_log_path_def path_simps os_def lit_def)
  moreover have "p \<in> set (ancestors w d) \<Longrightarrow> length p \<le> length d" for p w d
    by (auto simp: ancestors_def)
  ultimately show "serial_log_path m root \<notin> set (ancestors (cfg_windows m) (join m root DIST_DIR))" by force
qed

lemma qemu_command_fresh:
  assumes "log = serial_log_path m root"
  shows "stable (fresh log) (build_qemu_command m root s d)"
proof -
  have "stable (fresh log) (xtry msg (create_dir_all m (join m root DIST_DIR)))" for msg
    using log_path_apart(2) [of m root] assms by (intro stable_try) (auto simp: create_dir_all_def os_call_def split: option.split)
  moreover have "stable (fresh log) (xtry msg (copy_file m p (join m (join m root DIST_DIR) LIMINE_VARS_NAME)))" for msg p
    using log_path_apart(1) [of m root] assms
    by (intro stable_try) (auto simp: copy_file_def os_call_def split: option.split node.split)
  moreover have "stable (fresh log) (xpure (path_exists m p))" for p by (rule stable_pure) (simp add: path_exists_def)
  ultimately have "stable (fresh log) (ensure_ovmf_vars m root)"
    unfolding ensure_ovmf_vars_def Let_def
    by (auto intro!: stable_bind stable_then find_fresh valid_basic split: option.split)
  then show ?thesis
    unfolding build_qemu_command_def Let_def
    by (auto intro!: stable_bind find_fresh valid_basic split: option.split)
qed

abbreviation fresh_start :: "path \<Rightarrow> host \<Rightarrow> bool" where
  "fresh_start log h \<equiv> (\<exists>before c fs. started h = before @ [(c, fs)] \<and> fs log = None)"

interpretation fresh_kept: passive_invariant m "fresh_start log" for m log
  by unfold_locales simp_all

lemma spawn_fresh: "ensures (fresh log) (spawn_qemu m c) (\<lambda>_. fresh_start log)"
  by (auto simp: ensures_def valid_def spawn_qemu_def command_spawn_def xtry_def os_call_def split: option.splits)

text \<open>Removing the old log.\<close>

lemma exists_fresh:
  "ensures (\<lambda>h. child h \<noteq> Unreaped \<and> (\<forall>n. fault m n = None)) (xpure (path_exists m log))
     (\<lambda>e h. child h \<noteq> Unreaped \<and> (\<forall>n. fault m n = None) \<and> (\<not> e \<longrightarrow> h_files h log = None))"
  by (rule ensuresI) (auto simp: xpure_simp path_exists_def)

lemma remove_fresh: "ensures (\<lambda>h. child h \<noteq> Unreaped) (xtry msg (remove_file m log)) (\<lambda>_. fresh log)"
  by (rule ensuresI) (auto simp: remove_file_def os_call_Inr_iff split: option.splits node.splits)

lemma clear_log_fresh:
  "ensures (\<lambda>h. child h \<noteq> Unreaped \<and> (\<forall>n. fault m n = None) \<and> (\<not> e \<longrightarrow> h_files h log = None))
     (if e then xtry msg (remove_file m log) else xok ()) (\<lambda>_. fresh log)"
  using ensures_weaken [OF remove_fresh [of msg m log], of "\<lambda>h. child h \<noteq> Unreaped \<and> (\<forall>n. fault m n = None)" "\<lambda>_. fresh log"]
  by (cases e) (auto intro: ensuresI)

lemma stage_child: "ensures (\<lambda>h. child h \<noteq> Unreaped \<and> B) (stage_boot_tree m) (\<lambda>_ h. child h \<noteq> Unreaped \<and> B)"
  "ensures (\<lambda>h. child h \<noteq> Unreaped \<and> B) (workspace_root m) (\<lambda>_ h. child h \<noteq> Unreaped \<and> B)"
  by (rule ensuresI, auto dest: keepsD [OF child_observer.stage_obs(2)] keepsD [OF child_observer.finders_obs(1)])+

lemma ensures_any: "ensures P c (\<lambda>_ _. True)"
  by (rule ensuresI) simp

lemma xbind_ok: "xbind (xok x) f = f x"
  by (simp add: fun_eq_iff xbind_def)

lemma workspace_root_ok: "workspace_root m h = Some (Inr root, h') \<Longrightarrow> workspace_root m = xok root"
  by (auto simp: workspace_root_def fun_eq_iff split: option.splits)

lemma boot_loop_ensures: "ensures (\<lambda>_. True) (xloop (boot_check_body m log mk t t0)) (\<lambda>_. checked m log mk)"
  unfolding ensures_def using valid_loop [of "boot_check_body m log mk t t0" "\<lambda>_. checked m log mk", OF boot_check_body_sound]
  by (rule valid_weaken) simp

lemma boot_check_checked:
  assumes "workspace_root m = xok root"
  shows "ensures (\<lambda>_. True) (verify_qemu_boot m) (\<lambda>_. checked m (serial_log_path m root) (boot_success_marker m))"
  unfolding verify_qemu_boot_def Let_def assms xbind_ok
  by (rule ensures_bind [OF ensures_any] ensures_then [OF ensures_any] boot_loop_ensures)+

lemma boot_loop_fresh: "ensures (fresh_start log) (xloop (boot_check_body m log mk t t0)) (\<lambda>_. fresh_start log)"
proof -
  have "stable (fresh_start log) (boot_check_body m log mk t t0)"
    unfolding boot_check_body_def
    by (rule stable_bind [OF fresh_kept.log_stable(1)])
      (auto intro!: stable_bind stable_then fresh_kept.terminate_stable fresh_kept.clock_stable fresh_kept.print_stable
        fresh_kept.poll_again_stable valid_basic)
  then show ?thesis by (intro ensures_stable stable_loop)
qed

lemma boot_check_fresh:
  assumes "workspace_root m = xok root"
  shows "ensures (\<lambda>h. child h \<noteq> Unreaped \<and> (\<forall>n. fault m n = None)) (verify_qemu_boot m) (\<lambda>_. fresh_start (serial_log_path m root))"
  unfolding verify_qemu_boot_def Let_def assms xbind_ok
  by (rule ensures_then [OF stage_child(1)] ensures_bind [OF exists_fresh] ensures_then [OF clear_log_fresh]
      ensures_bind [OF ensures_stable [OF qemu_command_fresh]] ensures_then [OF spawn_fresh]
      ensures_bind [OF ensures_stable [OF fresh_kept.clock_stable(1)]] boot_loop_fresh refl)+

section \<open>What the shell check promises\<close>

abbreviation shows_all :: "machine \<Rightarrow> path \<Rightarrow> rstr list \<Rightarrow> host \<Rightarrow> bool" where
  "shows_all m log mks h \<equiv> log_grows m log \<longrightarrow> (\<forall>mk \<in> set mks. log_shows log mk h)"

interpretation all_kept: passive_invariant m "shows_all m log mks" for m log mks
  by unfold_locales (simp_all add: log_shows_pass, simp_all add: log_shows_def)

lemma wait_shows: "ensures (shows_all m log mks) (wait_for_log_marker m log mk t) (\<lambda>_. shows_all m log (mk # mks))"
proof (rule ensuresI)
  fix h h' and u :: unit assume "shows_all m log mks h" "wait_for_log_marker m log mk t h = Some (Inr u, h')"
  then have "shows_all m log mks h'" "log_shows log mk h'"
    using validD [OF all_kept.wait_stable] validD [OF wait_sound [where P = "\<lambda>_. True"]] by (blast, simp)
  then show "shows_all m log (mk # mks) h'" by simp
qed

lemma wait_fresh: "ensures (fresh_start log) (wait_for_log_marker m log' mk t) (\<lambda>_. fresh_start log)"
  by (rule ensures_stable [OF fresh_kept.wait_stable])

lemma terminate_ends: "ensures P (terminate_child m) (\<lambda>_ h. child h = Reaped)"
  unfolding ensures_def by (rule valid_weaken [OF terminate_reaps]) simp

lemma remove_if_exists_fresh:
  "ensures (\<lambda>h. child h \<noteq> Unreaped \<and> (\<forall>n. fault m n = None)) (remove_if_exists m log) (\<lambda>_. fresh log)"
  "stable (fresh log) (remove_if_exists m p)"
proof -
  show "ensures (\<lambda>h. child h \<noteq> Unreaped \<and> (\<forall>n. fault m n = None)) (remove_if_exists m log) (\<lambda>_. fresh log)"
    unfolding remove_if_exists_def by (rule ensures_bind [OF exists_fresh], rule clear_log_fresh)
  show "stable (fresh log) (remove_if_exists m p)"
    unfolding remove_if_exists_def
    by (intro stable_bind stable_pure stable_try valid_basic valid_if)
      (auto simp: path_exists_def remove_file_def os_call_def split: option.split node.split)
qed

text \<open>The bytes on the monitor connection.\<close>

lemma monitor_children [keeps_intros]: "io_keeps monitor (child_try_wait m)" "io_keeps monitor (child_kill m)"
  "keeps monitor (xwait msg (child_wait m))" "keeps monitor (read_child_stderr m)" "keeps monitor (spawn_qemu m c)"
proof -
  show "io_keeps monitor (child_try_wait m)" "io_keeps monitor (child_kill m)" "keeps monitor (read_child_stderr m)" "keeps monitor (spawn_qemu m c)"
    by (auto simp: io_keeps_def keeps_def child_try_wait_def child_kill_def os_call_def read_child_stderr_def
        xtry_def read_stderr_def spawn_qemu_def command_spawn_def split: option.splits if_splits)
  show "keeps monitor (xwait msg (child_wait m))"
  proof (rule keepsI)
    fix h r h' assume "xwait msg (child_wait m) h = Some (r, h')"
    from validD [OF stable_child_wait [of "\<lambda>g. monitor g = monitor h" m] _ this] show "monitor h' = monitor h" by simp
  qed
qed

lemma monitor_waits [keeps_intros]: "keeps monitor (terminate_child m)" "keeps monitor (wait_for_log_marker m log mk t)"
  "keeps monitor (connect_monitor m p t)"
proof -
  show t: "keeps monitor (terminate_child m)" unfolding terminate_child_def by (intro keeps_intros)
  show "keeps monitor (wait_for_log_marker m log mk t)"
    unfolding wait_for_log_marker_def wait_body_def poll_again_def by (intro keeps_intros t)
  have "keeps monitor (connect_body m p t t0)" for t0
    by (auto simp: keeps_def connect_body_def connect_port_def os_call_def instant_now_def sleep_def xbind_def xthen_def
        xpure_simp split: option.splits if_splits)
  then show "keeps monitor (connect_monitor m p t)" unfolding connect_monitor_def by (intro keeps_intros)
qed

definition monitor_line :: "rstr \<Rightarrow> u8 list" where
  "monitor_line l = as_bytes l @ as_bytes [0x0A]"

definition typed_lines :: "rstr \<Rightarrow> rstr list" where
  "typed_lines command = map (\<lambda>c. lit ''sendkey '' @ [c]) command @ [lit ''sendkey ret'']"

abbreviation sent :: "u8 list \<Rightarrow> host \<Rightarrow> bool" where
  "sent bs h \<equiv> monitor h = bs"

lemma sent_keeps: "keeps monitor c \<Longrightarrow> ensures (sent bs) c (\<lambda>_. sent bs)"
  by (rule ensuresI) (simp add: keepsD)

lemma send_monitor_sent: "ensures (sent bs) (send_monitor_command m c) (\<lambda>_. sent (bs @ monitor_line c))"
  by (rule ensuresI) (auto simp: send_monitor_command_def io_bind_Inr_iff stream_write_all_def os_call_Inr_iff monitor_line_def)

abbreviation lowercase :: "rstr \<Rightarrow> bool" where
  "lowercase t \<equiv> list_all (\<lambda>c. 0x61 \<le> c \<and> c \<le> 0x7A) t"

lemma send_keys_sent:
  assumes "lowercase command"
  shows "ensures (sent bs) (xfor (\<lambda>key. xbind (xlift (qemu_sendkey_name m key)) (\<lambda>name.
         xthen (send_monitor_command m (lit ''sendkey '' @ name)) (sleep m))) command)
     (\<lambda>_. sent (bs @ concat (map (\<lambda>c. monitor_line (lit ''sendkey '' @ [c])) command)))"
  using assms
proof (induction command arbitrary: bs)
  case (Cons c cs)
  then have key: "xlift (qemu_sendkey_name m c) = xok [c]" by (simp add: qemu_sendkey_name_def xlift_def)
  have "lowercase cs" using Cons.prems by simp
  from ensures_then [OF ensures_then [OF send_monitor_sent sent_keeps [OF monitor_observer.clock_obs(2)]] Cons.IH [OF this]]
  show ?case unfolding xfor.simps key xbind_ok list.map concat.simps append_assoc .
qed (auto intro: ensuresI)

lemma send_shell_sent:
  assumes "lowercase command"
  shows "ensures (sent bs) (send_shell_command m command) (\<lambda>_. sent (bs @ concat (map monitor_line (typed_lines command))))"
  unfolding send_shell_command_def
  by (rule ensures_then [OF send_keys_sent [OF assms]], rule ensures_then [OF send_monitor_sent])
    (rule ensures_weaken [OF sent_keeps [OF monitor_observer.clock_obs(2)]], simp_all add: typed_lines_def comp_def)

definition shell_markers :: "rstr list" where
  "shell_markers = [lit ''/README.TXT'', lit ''AetherOS academic kernel'', lit ''Show this command list'', lit ''AetherOS shell ready'']"

lemma shell_check_shows:
  assumes "workspace_root m = xok root"
  shows "ensures (\<lambda>_. True) (verify_qemu_shell m)
    (\<lambda>_ h. child h = Reaped \<and> shows_all m (serial_log_path m root) (shell_markers @ [boot_success_marker m]) h)"
proof -
  have first: "ensures (\<lambda>_. True) (wait_for_log_marker m log mk t) (\<lambda>_. shows_all m log [mk])" for log mk t
    using wait_shows [of m log "[]"] by simp
  have ends: "ensures (shows_all m log mks) (terminate_child m) (\<lambda>_ h. child h = Reaped \<and> shows_all m log mks h)" for log mks
    using ensures_conj [OF terminate_ends [of "\<lambda>_. True"] ensures_stable [OF all_kept.terminate_stable]] by simp
  have late: "ensures (\<lambda>h. child h = Reaped \<and> shows_all m log mks h) (instant_now m) (\<lambda>_ h. child h = Reaped \<and> shows_all m log mks h)"
    "ensures (\<lambda>h. child h = Reaped \<and> shows_all m log mks h) (xprint l) (\<lambda>_ h. child h = Reaped \<and> shows_all m log mks h)" for log mks l
    by (auto intro!: ensuresI simp: instant_now_def xpure_simp log_shows_pass) (simp add: log_shows_def)
  show ?thesis
    unfolding verify_qemu_shell_def Let_def assms xbind_ok shell_markers_def append.simps
    by (rule ensures_then [OF ensures_any], rule ensures_then [OF ensures_any], rule ensures_then [OF ensures_any],
        rule ensures_bind [OF ensures_any], rule ensures_then [OF ensures_any], rule ensures_bind [OF ensures_any],
        rule ensures_then [OF first])
      (rule ensures_then [OF wait_shows] ensures_then [OF ensures_stable [OF all_kept.connect_stable]]
        ensures_then [OF ensures_stable [OF all_kept.send_shell_stable]]
        ensures_then [OF ensures_stable [OF all_kept.send_monitor_stable]]
        ensures_then [OF ensures_stable [OF all_kept.log_stable(3)]] ensures_then [OF ends] ensures_bind [OF late(1)] late(2))+
qed

lemma shell_check_fresh:
  assumes "workspace_root m = xok root"
  shows "ensures (\<lambda>h. child h \<noteq> Unreaped \<and> (\<forall>n. fault m n = None)) (verify_qemu_shell m) (\<lambda>_. fresh_start (serial_log_path m root))"
  unfolding verify_qemu_shell_def Let_def assms xbind_ok
  by (rule ensures_then [OF stage_child(1)] ensures_then [OF remove_if_exists_fresh(1)]
      ensures_then [OF ensures_stable [OF remove_if_exists_fresh(2)]]
      ensures_bind [OF ensures_stable [OF qemu_command_fresh]] ensures_then [OF spawn_fresh] ensures_then [OF wait_fresh]
      ensures_then [OF ensures_stable [OF fresh_kept.connect_stable]]
      ensures_then [OF ensures_stable [OF fresh_kept.send_shell_stable]]
      ensures_then [OF ensures_stable [OF fresh_kept.send_monitor_stable]]
      ensures_then [OF ensures_stable [OF fresh_kept.log_stable(3)]] ensures_then [OF ensures_stable [OF fresh_kept.terminate_stable]]
      ensures_bind [OF ensures_stable [OF fresh_kept.clock_stable(1)]] ensures_stable [OF fresh_kept.print_stable] refl)+

definition shell_script :: "machine \<Rightarrow> path \<Rightarrow> rstr list" where
  "shell_script m root = typed_lines (lit ''help'') @ typed_lines (lit ''info'') @ typed_lines (lit ''ls'') @
     [lit ''screendump '' @ display (join m (join m root DIST_DIR) (os_lit ''framebuffer-shell.ppm''))]"

lemma shell_check_sent:
  assumes "workspace_root m = xok root"
  shows "ensures (sent bs) (verify_qemu_shell m) (\<lambda>_. sent (bs @ concat (map monitor_line (shell_script m root))))"
proof -
  have lower: "lowercase (lit ''help'')" "lowercase (lit ''info'')" "lowercase (lit ''ls'')"
    by (simp_all add: lit_def)
  have keep: "keeps monitor c \<Longrightarrow> ensures (sent bs) d Q \<Longrightarrow> ensures (sent bs) (xthen c d) Q"
    "keeps monitor c \<Longrightarrow> (\<And>x. ensures (sent bs) (f x) Q) \<Longrightarrow> ensures (sent bs) (xbind c f) Q" for bs c d f and Q :: "unit \<Rightarrow> host \<Rightarrow> bool"
    using ensures_then [OF sent_keeps] ensures_bind [OF sent_keeps] by blast+
  show ?thesis
    unfolding verify_qemu_shell_def Let_def assms xbind_ok shell_script_def
    by (rule keep(1) [OF monitor_observer.stage_obs(2)] keep(1) [OF monitor_observer.finders_obs(10)]
        keep(2) [OF monitor_observer.qemu_command_obs] keep(1) [OF monitor_children(5)] keep(2) [OF monitor_observer.clock_obs(1)]
        keep(1) [OF monitor_waits(2)] keep(1) [OF monitor_waits(3)] ensures_then [OF send_shell_sent [OF lower(1)]]
        ensures_then [OF send_shell_sent [OF lower(2)]] ensures_then [OF send_shell_sent [OF lower(3)]]
        ensures_then [OF send_monitor_sent] keep(1) [OF monitor_observer.screenshot_obs] keep(1) [OF monitor_waits(1)])+
      (rule ensures_weaken [OF sent_keeps [OF monitor_observer.print_obs]], simp_all)
qed

section \<open>QEMU is not left behind\<close>

text \<open>A log that can be read: not there yet, or a text.  When QEMU keeps it so and no call fails, the boot
  check ends with QEMU reaped on every path.\<close>

fun readable :: "node option \<Rightarrow> bool" where
  "readable None = True"
| "readable (Some Dir) = False"
| "readable (Some (File bs)) = (from_utf8 bs \<noteq> None)"

definition calm :: "machine \<Rightarrow> path \<Rightarrow> host \<Rightarrow> bool" where
  "calm m log h \<longleftrightarrow> (\<forall>n. fault m n = None) \<and> readable (h_files h log) \<and>
     (\<forall>n fs. readable (fs log) \<longrightarrow> readable (progress m n fs log) \<and> (fs log \<noteq> None \<longrightarrow> progress m n fs log \<noteq> None))"

interpretation calm_kept: passive_invariant m "calm m log" for m log
  by unfold_locales (auto simp: calm_def pass_def)

lemma calm_again:
  assumes "calm m log g" and "h_files g log \<noteq> None"
  obtains bs t where "h_files (pass m g) log = Some (File bs)" and "from_utf8 bs = Some t" and "fault m n = None"
proof -
  have "readable (h_files (pass m g) log)" "h_files (pass m g) log \<noteq> None" "fault m n = None"
    using assms calm_kept.I_pass [OF assms(1)] by (auto simp: calm_def pass_def)
  then show ?thesis by (cases "h_files (pass m g) log" rule: readable.cases) (auto intro: that)
qed

lemma calm_reads:
  assumes "calm m log h"
  shows "contains_marker m log mk h \<noteq> Some (Inl e, h')" "tail_lines m log k h \<noteq> Some (Inl e, h')"
proof -
  have "contains_marker m log mk h \<noteq> Some (Inl e, h') \<and> tail_lines m log k h \<noteq> Some (Inl e, h')"
  proof (cases "h_files (pass m h) log = None")
    case False
    from calm_again [OF calm_kept.I_pass [OF assms] this] obtain bs t where
      r: "h_files (pass m (pass m h)) log = Some (File bs)" "from_utf8 bs = Some t" by metis
    have "fault m n = None" for n using assms by (simp add: calm_def)
    with r show ?thesis
      by (simp add: contains_marker_def tail_lines_def xbind_def xpure_simp path_exists_def xtry_def read_to_string_def
          io_bind_def read_file_def os_call_def)
  qed (simp add: contains_marker_def tail_lines_def xbind_def xpure_simp path_exists_def)
  then show "contains_marker m log mk h \<noteq> Some (Inl e, h')" "tail_lines m log k h \<noteq> Some (Inl e, h')" by blast+
qed

lemma terminate_calm: "valid (calm m log) (terminate_child m) (\<lambda>r h. r = Inr () \<and> child h = Reaped)"
  by (auto simp: valid_def calm_def terminate_child_def xbind_def xthen_def xtry_def xwait_def child_try_wait_def child_kill_def
      child_wait_def os_call_def child_exit_reaps split: option.splits)

lemma calm_bind:
  assumes "stable (calm m log) c" and "\<And>h e h'. calm m log h \<Longrightarrow> c h \<noteq> Some (Inl e, h')" and "\<And>x. valid (calm m log) (f x) Q"
  shows "valid (calm m log) (xbind c f) Q"
proof (rule valid_bind)
  show "valid (calm m log) c (\<lambda>r h. calm m log h \<and> (\<forall>e. r \<noteq> Inl e))"
    using validD [OF assms(1)] assms(2) by (intro validI) blast
  show "valid (\<lambda>h. calm m log h \<and> (\<forall>e. Inr x \<noteq> Inl e)) (f x) Q" for x
    by (rule valid_strengthen [OF assms(3)]) simp
qed simp

abbreviation no_qemu :: "machine \<Rightarrow> path \<Rightarrow> xerror + unit option \<Rightarrow> host \<Rightarrow> bool" where
  "no_qemu m log r h \<equiv> (if r = Inr None then calm m log h else child h = Reaped)"

lemma poll_again_calm: "valid (calm m log) (poll_again m log t t0 em tm) (no_qemu m log)"
proof -
  have ended: "valid (\<lambda>h. child h = Reaped) (xbind (read_child_stderr m) (\<lambda>e. xbind (tail_lines m log 20) (\<lambda>l. xerr (em' e l))))
      (no_qemu m log)" for em'
  proof -
    have "stable (\<lambda>h. child h = Reaped) (read_child_stderr m)" "stable (\<lambda>h. child h = Reaped) (tail_lines m log 20)"
      using child_observer.log_obs(2) by (auto simp: valid_def keeps_def read_child_stderr_def xtry_def read_stderr_def os_call_def
          split: if_splits option.splits)
    then show ?thesis by (intro stable_bind valid_basic) simp_all
  qed
  have late: "valid (calm m log) (xbind (tail_lines m log 20) (\<lambda>l. xthen (terminate_child m) (xerr (tm l)))) (no_qemu m log)"
  proof (rule calm_bind [OF calm_kept.log_stable(2)])
    show "valid (calm m log) (xthen (terminate_child m) (xerr (tm l))) (no_qemu m log)" for l
      unfolding xthen_def by (rule valid_bind [OF terminate_calm]) (auto simp: valid_def)
  qed (use calm_reads in blast)
  have more: "valid (calm m log) (xbind (instant_now m) (\<lambda>now. if secs t \<le> now - t0 then
      xbind (tail_lines m log 20) (\<lambda>l. xthen (terminate_child m) (xerr (tm l))) else xthen (sleep m) (xok None))) (no_qemu m log)"
  proof (rule calm_bind [OF calm_kept.clock_stable(1)], simp add: instant_now_def xpure_simp)
    have "valid (calm m log) (xthen (sleep m) (xok None)) (no_qemu m log)"
      unfolding xthen_def by (rule calm_bind [OF calm_kept.clock_stable(2)]) (simp_all add: sleep_def xpure_simp valid_basic)
    then show "valid (calm m log) (if secs t \<le> now - t0 then xbind (tail_lines m log 20) (\<lambda>l. xthen (terminate_child m) (xerr (tm l)))
        else xthen (sleep m) (xok None)) (no_qemu m log)" for now using late by simp
  qed
  have look: "valid (calm m log) (xtry msg (child_try_wait m))
      (\<lambda>r h. \<exists>s. r = Inr s \<and> (if s = None then calm m log h else child h = Reaped))" for msg
    using calm_kept.I_pass [of m log]
    by (auto simp: valid_def xtry_def child_try_wait_def os_call_def calm_def split: option.splits)
  show ?thesis unfolding poll_again_def
  proof (rule valid_bind [OF look])
    fix s
    show "valid (\<lambda>h. \<exists>s'. Inr s = (Inr s' :: xerror + ExitStatus option) \<and> (if s' = None then calm m log h else child h = Reaped))
        (case s of None \<Rightarrow> xbind (instant_now m) (\<lambda>now. if secs t \<le> now - t0 then
            xbind (tail_lines m log 20) (\<lambda>l. xthen (terminate_child m) (xerr (tm l))) else xthen (sleep m) (xok None))
         | Some s \<Rightarrow> xbind (read_child_stderr m) (\<lambda>e. xbind (tail_lines m log 20) (\<lambda>l. xerr (em s l e)))) (no_qemu m log)"
      using more ended by (cases s) simp_all
  qed auto
qed

lemma boot_body_calm: "valid (calm m log) (boot_check_body m log mk t t0) (no_qemu m log)"
  unfolding boot_check_body_def
proof (rule calm_bind [OF calm_kept.log_stable(1)], rule calm_reads(1), assumption, rule valid_if)
  fix found
  have "stable (\<lambda>h. child h = Reaped) (instant_now m)" "stable (\<lambda>h. child h = Reaped) (xprint l)" for l
    by (auto simp: valid_def instant_now_def xpure_simp)
  then have "valid (\<lambda>h. child h = Reaped) (xbind (instant_now m) (\<lambda>now. xthen (xprint (p now)) (xthen (xprint q) (xok (Some ())))))
      (no_qemu m log)" for p q
    by (intro stable_bind stable_then valid_basic) auto
  then show "valid (calm m log) (xthen (terminate_child m) (xbind (instant_now m) (\<lambda>now. xthen (xprint (p now))
      (xthen (xprint q) (xok (Some ())))))) (no_qemu m log)" for p q
    unfolding xthen_def [of "terminate_child m"]
    by (intro valid_bind [OF terminate_calm]) (auto intro: valid_strengthen)
qed (rule poll_again_calm)

lemma boot_loop_calm: "valid (calm m log) (xloop (boot_check_body m log mk t t0)) (\<lambda>_ h. child h = Reaped)"
proof (rule validI)
  fix h r h' assume c: "calm m log h" and run: "xloop (boot_check_body m log mk t t0) h = Some (r, h')"
  have "\<exists>g. calm m log g \<and> boot_check_body m log mk t t0 g = Some (map_sum id Some (fst (r, h')), snd (r, h'))"
    by (rule xloop_last_round [where P = "calm m log", OF run c]) (drule (1) validD [OF boot_body_calm], simp)
  then obtain g where "calm m log g" "boot_check_body m log mk t t0 g = Some (map_sum id Some r, h')" by auto
  from validD [OF boot_body_calm this] show "child h' = Reaped" by (cases r) auto
qed

lemma keeps_no_child: "keeps child c \<Longrightarrow> valid (\<lambda>h. child h \<noteq> Unreaped \<and> B) c (\<lambda>_ h. child h \<noteq> Unreaped \<and> B)"
  by (rule validI) (simp add: keepsD)

text \<open>Before QEMU runs, an error leaves no child and success leads to the next stage.\<close>

abbreviation stage_post :: "(host \<Rightarrow> bool) \<Rightarrow> xerror + 'a \<Rightarrow> host \<Rightarrow> bool" where
  "stage_post P r h \<equiv> child h \<noteq> Unreaped \<and> (\<forall>x. r = Inr x \<longrightarrow> P h)"

lemma stage_postI: "ensures P c (\<lambda>_. Q) \<Longrightarrow> keeps child c \<Longrightarrow> (\<And>h. P h \<Longrightarrow> child h \<noteq> Unreaped) \<Longrightarrow> valid P c (stage_post Q)"
  by (rule validI) (auto simp: keepsD dest: ensuresD)

lemma boot_check_no_qemu:
  assumes root: "workspace_root m = xok root" and "\<forall>n. fault m n = None"
    and log: "\<forall>n fs. readable (fs log) \<longrightarrow> readable (progress m n fs log) \<and> (fs log \<noteq> None \<longrightarrow> progress m n fs log \<noteq> None)"
    and "log = serial_log_path m root"
  shows "valid (\<lambda>h. child h \<noteq> Unreaped) (verify_qemu_boot m) (\<lambda>_ h. child h \<noteq> Unreaped)"
proof -
  have loop: "valid (calm m log) (xbind (instant_now m) (\<lambda>t0. xloop (boot_check_body m log mk t t0))) (\<lambda>_ h. child h \<noteq> Unreaped)" for mk t
    by (rule calm_bind [OF calm_kept.clock_stable(1)])
      (auto simp: instant_now_def xpure_simp intro: valid_weaken [OF boot_loop_calm])
  have "valid (fresh log) (spawn_qemu m c) (\<lambda>r h. r = Inr () \<and> calm m log h)" for c
    using assms by (auto simp: valid_def spawn_qemu_def command_spawn_def xtry_def os_call_def calm_def)
  then have run: "valid (fresh log) (xthen (spawn_qemu m c) (xbind (instant_now m) (\<lambda>t0. xloop (boot_check_body m log mk t t0))))
      (\<lambda>_ h. child h \<noteq> Unreaped)" for c mk t
    unfolding xthen_def by (rule valid_bind) (use loop in \<open>auto intro: valid_strengthen\<close>)
  have build: "valid (fresh log) (xbind (build_qemu_command m root s d) (\<lambda>c. xthen (spawn_qemu m c)
      (xbind (instant_now m) (\<lambda>t0. xloop (boot_check_body m log mk t t0))))) (\<lambda>_ h. child h \<noteq> Unreaped)" for s d mk t
    by (rule stable_bind [OF qemu_command_fresh [OF assms(4)] run]) simp
  have clear: "valid (\<lambda>h. child h \<noteq> Unreaped \<and> (\<forall>n. fault m n = None) \<and> (\<not> e \<longrightarrow> h_files h log = None))
      (xthen (if e then xtry msg (remove_file m log) else xok ()) d) (\<lambda>_ h. child h \<noteq> Unreaped)"
    if "valid (fresh log) d (\<lambda>_ h. child h \<noteq> Unreaped)" for e msg and d :: "unit xm"
    unfolding xthen_def
  proof (rule valid_bind [OF stage_postI [OF clear_log_fresh]])
    show "keeps child (if e then xtry msg (remove_file m log) else xok ())" by (intro keeps_intros)
  qed (use that in \<open>auto intro: valid_strengthen\<close>)
  have look: "valid (\<lambda>h. child h \<noteq> Unreaped) (xbind (xpure (path_exists m log)) f) (\<lambda>_ h. child h \<noteq> Unreaped)"
    if "\<And>e. valid (\<lambda>h. child h \<noteq> Unreaped \<and> (\<forall>n. fault m n = None) \<and> (\<not> e \<longrightarrow> h_files h log = None)) (f e) (\<lambda>_ h. child h \<noteq> Unreaped)"
    for f :: "bool \<Rightarrow> unit xm"
    by (rule valid_bind [where R = "\<lambda>r h. child h \<noteq> Unreaped \<and> (\<forall>n. fault m n = None) \<and> (r = Inr False \<longrightarrow> h_files h log = None)"])
      (use assms(2) that in \<open>auto simp: valid_def xpure_simp path_exists_def\<close>)
  show ?thesis
    unfolding verify_qemu_boot_def Let_def root xbind_ok assms(4) [symmetric]
    by (rule stable_then [OF keeps_no_child [OF child_observer.stage_obs(2), where B = True, simplified]])
      (intro look clear build, simp)
qed

end
