(* ===== verification/Xtask_Runs.thy ===== *)
theory Xtask_Runs
  imports Xtask_Checks
begin

text \<open>
  The commands of the build tool as a whole: every command returns, and what a successful boot check or
  shell check has established.  The second part runs both checks on an example machine.
\<close>

section \<open>The checks as a whole\<close>

text \<open>(C12) The tool ends: as long as the clock does not stand still and the programs it runs to completion end (the
  compiler, the downloader, the unpacker, and the QEMU of \<^verbatim>\<open>xtask run\<close>, for which the tool waits), every command of the build tool
  returns with an exit code.  Nothing is assumed of the QEMU that the two checks start, which may run forever: no polling loop
  waits for it beyond the timeout, and the wait for its end comes after it was killed.\<close>

theorem xtask_returns:
  assumes "clock_advances m" and "programs_end m"
  shows "\<exists>code h'. xtask_main m h = Some (code, h')"
proof -
  have h: "returns print_help" unfolding print_help_def by (intro returns_intros)
  have "returns (run m)" unfolding run_def Let_def split_def
    by (intro returns_intros commands_return [OF assms] programs_return [OF assms(2)] h assms)
  then obtain r h' where "run m h = Some (r, h')" unfolding returns_def by (metis not_None_eq surj_pair)
  then show ?thesis by (simp add: xtask_main_def split: sum.split xerror.split)
qed

text \<open>(C27) A boot check that reports success has stopped the QEMU it started and reaped it; that QEMU was
  started without an old serial log (when no call of the operating system failed); and, since QEMU only
  appends to its log, the log holds the success marker at the end.\<close>

theorem boot_check_success:
  assumes "verify_qemu_boot m h = Some (Inr (), h')" and "workspace_root m h = Some (Inr root, h)"
  shows "child h' = Reaped \<and>
    (log_grows m (serial_log_path m root) \<longrightarrow> log_shows (serial_log_path m root) (boot_success_marker m) h') \<and>
    ((\<forall>n. fault m n = None) \<and> child h \<noteq> Unreaped \<longrightarrow>
      (\<exists>before c fs. started h' = before @ [(c, fs)] \<and> fs (serial_log_path m root) = None))"
  using ensuresD [OF boot_check_checked [OF workspace_root_ok [OF assms(2)]] _ assms(1)]
    ensuresD [OF boot_check_fresh [OF workspace_root_ok [OF assms(2)]] _ assms(1)] by simp

text \<open>(C13) A shell check that reports success has stopped and reaped its QEMU, started without an old log;
  the log holds the boot marker and the output of the three commands, and the monitor connection received
  exactly the key presses of \<^verbatim>\<open>help\<close>, \<^verbatim>\<open>info\<close> and \<^verbatim>\<open>ls\<close>, each ended by the return key, and one screen dump.\<close>

theorem shell_check_success:
  assumes "verify_qemu_shell m h = Some (Inr (), h')" and "workspace_root m h = Some (Inr root, h)"
  shows "child h' = Reaped \<and> monitor h' = monitor h @ concat (map monitor_line (shell_script m root)) \<and>
    (log_grows m (serial_log_path m root) \<longrightarrow>
      (\<forall>mk \<in> set (shell_markers @ [boot_success_marker m]). log_shows (serial_log_path m root) mk h')) \<and>
    ((\<forall>n. fault m n = None) \<and> child h \<noteq> Unreaped \<longrightarrow>
      (\<exists>before c fs. started h' = before @ [(c, fs)] \<and> fs (serial_log_path m root) = None))"
  using ensuresD [OF shell_check_shows [OF workspace_root_ok [OF assms(2)]] _ assms(1)]
    ensuresD [OF shell_check_sent [OF workspace_root_ok [OF assms(2)]] refl assms(1)]
    ensuresD [OF shell_check_fresh [OF workspace_root_ok [OF assms(2)]] _ assms(1)] by simp

text \<open>(C14) The boot check does not leave QEMU behind: when no call of the operating system fails and the
  serial log stays a readable text, then on every path of the command (success, early exit of QEMU,
  timeout, or an error before QEMU was started) no QEMU process of the tool is left unreaped.\<close>

theorem boot_check_leaves_no_qemu:
  assumes "verify_qemu_boot m h = Some (r, h')" and "workspace_root m h = Some (Inr root, h)" and "child h \<noteq> Unreaped"
    and "\<forall>n. fault m n = None" and "log = serial_log_path m root"
    and "\<forall>n fs. readable (fs log) \<longrightarrow> readable (progress m n fs log) \<and> (fs log \<noteq> None \<longrightarrow> progress m n fs log \<noteq> None)"
  shows "child h' \<noteq> Unreaped"
  by (rule validD [OF boot_check_no_qemu [OF workspace_root_ok [OF assms(2)] assms(4,6,5)] assms(3,1)])

text \<open>A run of both checks: QEMU writes the log and the screen dump before the first look at them.\<close>

definition transcript :: rstr where
  "transcript = lit ''AetherOS: kernel initialized'' @ [0x0A] @ concat (map (\<lambda>mk. mk @ [0x0A]) shell_markers)"

definition check_log :: path where
  "check_log = os_lit ''/w/dist/serial.log''"

definition dump :: "u8 list" where
  "dump = as_bytes (lit ''P6'') @ replicate 20 0"

lemma dump_facts: "16 \<le> length dump" "take 2 dump = as_bytes (lit ''P6'')"
  by code_simp+

definition check_machine :: "u8 list \<Rightarrow> machine" where
  "check_machine d = example_machine\<lparr>env := [lit ''PATH'' \<mapsto> os_lit ''/bin'', lit ''AETHER_OVMF_CODE'' \<mapsto> os_lit ''/ovmf''],
     progress := (\<lambda>_ fs. if fs check_log = None
       then fs(check_log \<mapsto> File (as_bytes transcript),
         os_lit ''/w/dist/framebuffer-shell.ppm'' \<mapsto> File d)
       else fs)\<rparr>"

definition check_host :: host where
  "check_host = example_host\<lparr>h_files := (h_files example_host)(os_lit ''/bin/qemu-system-x86_64'' \<mapsto> File [],
     os_lit ''/ovmf'' \<mapsto> File [], os_lit ''/w/dist/edk2-x86_64-vars.fd'' \<mapsto> File [], check_log \<mapsto> File [])\<rparr>"

lemma check_join: "join (check_machine d) = join example_machine"
  by (simp add: join_def check_machine_def)

lemma check_fields [simp]: "cfg_windows (check_machine d) = False" "fault (check_machine d) n = None"
  "run_program (check_machine d) n c fs = Some (\<lparr>exit_success = True, exit_text = []\<rparr>, fs)" "exited (check_machine d) n = None"
  "env (check_machine d) = [lit ''PATH'' \<mapsto> os_lit ''/bin'', lit ''AETHER_OVMF_CODE'' \<mapsto> os_lit ''/ovmf'']"
  "progress (check_machine d) n fs = (if fs check_log = None
       then fs(check_log \<mapsto> File (as_bytes transcript),
         os_lit ''/w/dist/framebuffer-shell.ppm'' \<mapsto> File d) else fs)"
  by (simp_all add: check_machine_def)

lemma check_root: "workspace_root (check_machine d) h = Some (Inr (os_lit ''/w''), h)"
  using example_root [of h] by (simp add: workspace_root_def check_machine_def example_machine_def)

lemma lit_eq: "lit s = lit t \<longleftrightarrow> s = t"
  by (simp add: lit_def inj_map_eq_map inj_def)

lemma check_settings: "boot_success_marker (check_machine d) = lit ''AetherOS: kernel initialized''"
  by (simp add: boot_success_marker_def env_var_def lit_eq DEFAULT_BOOT_SUCCESS_MARKER_def)

lemma transcript_valid: "from_utf8 (as_bytes transcript) = Some transcript"
proof -
  have "valid_str transcript" by (simp add: transcript_def shell_markers_def lit_def valid_str_def scalar_def)
  then show ?thesis by simp
qed

lemma transcript_shows:
  "str_contains transcript (lit ''AetherOS: kernel initialized'')" "mk \<in> set shell_markers \<Longrightarrow> str_contains transcript mk"
proof -
  show "str_contains transcript (lit ''AetherOS: kernel initialized'')" by (simp add: str_contains_def transcript_def)
  assume "mk \<in> set shell_markers"
  then obtain xs ys where "shell_markers = xs @ mk # ys" by (meson split_list)
  then have "transcript = (lit ''AetherOS: kernel initialized'' @ [0x0A] @ concat (map (\<lambda>mk. mk @ [0x0A]) xs)) @ mk @
      ([0x0A] @ concat (map (\<lambda>mk. mk @ [0x0A]) ys))" unfolding transcript_def \<open>shell_markers = _\<close> by simp
  then show "str_contains transcript mk" unfolding str_contains_def sublist_def by blast
qed

definition succeeds :: "(host \<Rightarrow> bool) \<Rightarrow> 'a xm \<Rightarrow> ('a \<Rightarrow> host \<Rightarrow> bool) \<Rightarrow> bool" where
  "succeeds P c Q \<longleftrightarrow> (\<forall>h. P h \<longrightarrow> (\<exists>x h'. c h = Some (Inr x, h') \<and> Q x h'))"

lemma succeedsI: "(\<And>h. P h \<Longrightarrow> \<exists>x h'. c h = Some (Inr x, h') \<and> Q x h') \<Longrightarrow> succeeds P c Q"
  by (simp add: succeeds_def)

lemma succeeds_bind: "succeeds P c R \<Longrightarrow> (\<And>x. succeeds (R x) (f x) Q) \<Longrightarrow> succeeds P (xbind c f) Q"
  by (fastforce simp: succeeds_def xbind_def)

lemma succeeds_then: "succeeds P c (\<lambda>_. R) \<Longrightarrow> succeeds R d Q \<Longrightarrow> succeeds P (xthen c d) Q"
  unfolding xthen_def by (rule succeeds_bind)

text \<open>The same with any outcome of the last part.\<close>

definition outcome :: "(host \<Rightarrow> bool) \<Rightarrow> 'a xm \<Rightarrow> (xerror + 'a \<Rightarrow> host \<Rightarrow> bool) \<Rightarrow> bool" where
  "outcome P c Q \<longleftrightarrow> (\<forall>h. P h \<longrightarrow> (\<exists>r h'. c h = Some (r, h') \<and> Q r h'))"

lemma outcome_bind: "succeeds P c R \<Longrightarrow> (\<And>x. outcome (R x) (f x) Q) \<Longrightarrow> outcome P (xbind c f) Q"
  by (fastforce simp: succeeds_def outcome_def xbind_def)

lemma outcome_then: "succeeds P c (\<lambda>_. R) \<Longrightarrow> outcome R d Q \<Longrightarrow> outcome P (xthen c d) Q"
  unfolding xthen_def by (rule outcome_bind)

lemma succeeds_loop:
  assumes "succeeds P body (\<lambda>x h. x = Some u \<and> Q h)"
  shows "succeeds P (xloop body) (\<lambda>_. Q)"
proof (rule succeedsI)
  fix h assume "P h"
  then obtain h' where "body h = Some (Inr (Some u), h')" "Q h'" using assms unfolding succeeds_def by blast
  then show "\<exists>x h'. xloop body h = Some (Inr x, h') \<and> Q h'" by (simp add: xloop.simps)
qed

text \<open>The example's states before and while QEMU runs.\<close>

definition shot :: path where "shot = os_lit ''/w/dist/framebuffer-shell.ppm''"

definition ready :: "host \<Rightarrow> bool" where
  "ready h \<longleftrightarrow> child h = NoChild \<and> h_files h (os_lit ''/bin/qemu-system-x86_64'') = Some (File []) \<and>
     h_files h (os_lit ''/ovmf'') = Some (File []) \<and> h_files h (os_lit ''/w/dist/edk2-x86_64-vars.fd'') = Some (File []) \<and>
     h_files h check_log \<noteq> Some Dir \<and> h_files h shot \<noteq> Some Dir"

definition ready_fresh :: "host \<Rightarrow> bool" where
  "ready_fresh h \<longleftrightarrow> ready h \<and> h_files h check_log = None"

definition running :: "u8 list \<Rightarrow> host \<Rightarrow> bool" where
  "running d h \<longleftrightarrow> child h = Unreaped \<and> (h_files h check_log = None \<or>
     h_files h check_log = Some (File (as_bytes transcript)) \<and> h_files h shot = Some (File d))"

lemma paths_apart: "check_log \<noteq> shot" "check_log \<noteq> os_lit ''/bin/qemu-system-x86_64''" "check_log \<noteq> os_lit ''/ovmf''"
  "check_log \<noteq> os_lit ''/w/dist/edk2-x86_64-vars.fd''" "shot \<noteq> os_lit ''/bin/qemu-system-x86_64''" "shot \<noteq> os_lit ''/ovmf''"
  "shot \<noteq> os_lit ''/w/dist/edk2-x86_64-vars.fd''"
  by (simp_all add: check_log_def shot_def os_lit_eq)

lemma running_pass: 
  assumes "(running d) h"
  shows "(running d) (pass (check_machine d) h)" "h_files (pass (check_machine d) h) check_log = Some (File (as_bytes transcript))"
    "h_files (pass (check_machine d) h) shot = Some (File d)"
  using assms paths_apart by (auto simp: running_def pass_def shot_def)

lemma running_steps:
  "succeeds (running d) (instant_now (check_machine d)) (\<lambda>_. running d)" "succeeds (running d) (sleep (check_machine d)) (\<lambda>_. running d)"
  "succeeds (running d) (connect_monitor (check_machine d) p t) (\<lambda>_. running d)"
  "succeeds (running d) (send_monitor_command (check_machine d) c) (\<lambda>_. running d)"
  "succeeds (running d) (terminate_child (check_machine d)) (\<lambda>_ _. True)"
  "str_contains transcript mk \<Longrightarrow> succeeds (running d) (contains_marker (check_machine d) check_log mk) (\<lambda>x h. x \<and> (running d) h)"
proof -
  show i: "succeeds (running d) (instant_now (check_machine d)) (\<lambda>_. running d)" "succeeds (running d) (sleep (check_machine d)) (\<lambda>_. running d)"
    by (auto intro!: succeedsI simp: instant_now_def sleep_def xpure_simp running_pass)
  have "succeeds (running d) (connect_body (check_machine d) p t t0) (\<lambda>x h. x = Some () \<and> (running d) h)" for t0
    by (auto intro!: succeedsI simp: connect_body_def connect_port_def os_call_def running_pass)
  then show "succeeds (running d) (connect_monitor (check_machine d) p t) (\<lambda>_. running d)"
    unfolding connect_monitor_def by (intro succeeds_bind [OF i(1)] succeeds_loop)
  show "succeeds (running d) (send_monitor_command (check_machine d) c) (\<lambda>_. running d)"
    using running_pass by (auto intro!: succeedsI simp: send_monitor_command_def xtry_def io_bind_def stream_write_all_def os_call_def running_def pass_def)
  show "succeeds (running d) (terminate_child (check_machine d)) (\<lambda>_ _. True)"
    by (auto intro!: succeedsI simp: terminate_child_def xbind_def xthen_def xtry_def child_try_wait_def child_kill_def
      child_wait_def xwait_def os_call_def killed_child_exits)
  show "str_contains transcript mk \<Longrightarrow> succeeds (running d) (contains_marker (check_machine d) check_log mk) (\<lambda>x h. x \<and> (running d) h)"
    by (auto intro!: succeedsI simp: contains_marker_def xbind_def xpure_simp path_exists_def xtry_def read_to_string_def
        io_bind_def read_file_def os_call_def running_pass transcript_valid)
qed

lemma wait_running:
  assumes "str_contains transcript mk"
  shows "succeeds (running d) (wait_for_log_marker (check_machine d) check_log mk t) (\<lambda>_. running d)"
proof -
  have "succeeds (running d) (wait_body (check_machine d) check_log mk t t0) (\<lambda>x h. x = Some () \<and> (running d) h)" for t0
    unfolding wait_body_def by (rule succeeds_bind [OF running_steps(6) [OF assms]]) (auto intro: succeedsI)
  then show ?thesis unfolding wait_for_log_marker_def by (intro succeeds_bind [OF running_steps(1)] succeeds_loop)
qed

lemma send_running:
  assumes "lowercase c"
  shows "succeeds (running d) (send_shell_command (check_machine d) c) (\<lambda>_. running d)"
proof -
  have "succeeds (running d) (xfor (\<lambda>key. xbind (xlift (qemu_sendkey_name (check_machine d) key)) (\<lambda>name.
         xthen (send_monitor_command (check_machine d) (lit ''sendkey '' @ name)) (sleep (check_machine d)))) c) (\<lambda>_. running d)"
    using assms
  proof (induction c)
    case (Cons k ks)
    then have "xlift (qemu_sendkey_name (check_machine d) k) = xok [k]" by (simp add: qemu_sendkey_name_def xlift_def)
    with Cons show ?case by (auto simp: xbind_ok intro: succeeds_then running_steps)
  qed (auto intro: succeedsI)
  then show ?thesis unfolding send_shell_command_def by (rule succeeds_then [OF _ succeeds_then [OF running_steps(4,2)]])
qed

lemma boot_body_running:
  "succeeds (running d) (boot_check_body (check_machine d) check_log (lit ''AetherOS: kernel initialized'') t t0) (\<lambda>x h. x = Some () \<and> True)"
  unfolding boot_check_body_def
proof (rule succeeds_bind [OF running_steps(6) [OF transcript_shows(1)]])
  fix found
  show "succeeds (\<lambda>h. found \<and> (running d) h)
      (if found then xthen (terminate_child (check_machine d)) (xbind (instant_now (check_machine d)) (\<lambda>now.
         xthen (xprint (p now)) (xthen (xprint q) (xok (Some ()))))) else c) (\<lambda>x h. x = Some () \<and> True)" for p q c
    by (cases found) (auto simp: succeeds_def xthen_def xbind_def instant_now_def xpure_simp dest!: running_steps(5) [unfolded succeeds_def, rule_format])
qed

lemma ready_steps:
  "succeeds ready (remove_if_exists (check_machine d) check_log) (\<lambda>_. ready_fresh)"
  "succeeds ready_fresh (remove_if_exists (check_machine d) shot) (\<lambda>_. ready_fresh)"
  "succeeds ready_fresh (build_qemu_command (check_machine d) (os_lit ''/w'') sm dm) (\<lambda>_. ready_fresh)"
  "succeeds ready_fresh (spawn_qemu (check_machine d) c) (\<lambda>_. running d)"
  subgoal by (auto intro!: succeedsI simp: remove_if_exists_def xbind_def xpure_simp path_exists_def xtry_def remove_file_def os_call_def
      ready_def ready_fresh_def paths_apart [symmetric] paths_apart split: option.split node.split)
  subgoal by (auto intro!: succeedsI simp: remove_if_exists_def xbind_def xpure_simp path_exists_def xtry_def remove_file_def os_call_def
      ready_def ready_fresh_def paths_apart [symmetric] paths_apart split: option.split node.split)
  subgoal by (auto intro!: succeedsI simp: build_qemu_command_def find_qemu_binary_def find_command_def find_ovmf_code_def env_path_def
      ensure_ovmf_vars_def command_candidates_def LIMINE_VARS_NAME_def lit_eq fetch_facts check_join example_join path_consts
      xbind_def xpure_simp path_exists_def Let_def ready_def ready_fresh_def)
  subgoal by (auto intro!: succeedsI simp: spawn_qemu_def command_spawn_def xtry_def os_call_def ready_fresh_def ready_def running_def)
  done

lemma check_stage: "\<exists>h'. stage_boot_tree (check_machine d) check_host = Some (Inr (), h') \<and> ready h'"
  by (simp add: stage_boot_tree_def build_kernel_def check_root run_command_def xbind_def xthen_def xtry_def
      command_status_def xwait_def os_call_def Let_def ensure_limine_bundle_def xpure_simp path_exists_def locate_kernel_binary_def
      locate_limine_config_def path_consts check_join example_join recreate_directory_def create_dir_all_def copy_file_def
      check_host_def example_host_def pass_def os_lit_eq example_ancestors example_parents parent_is_dir_def example_nonempty
      ready_def check_log_def shot_def)

lemma staged: "succeeds (\<lambda>h. h = check_host) (stage_boot_tree (check_machine d)) (\<lambda>_. ready)"
  using check_stage by (auto simp: succeeds_def)

lemma check_names: "serial_log_path (check_machine d) (os_lit ''/w'') = check_log"
  "join (check_machine d) (join (check_machine d) (os_lit ''/w'') DIST_DIR) (os_lit ''framebuffer-shell.ppm'') = shot"
  by (simp_all add: serial_log_path_def path_consts check_join example_join check_log_def shot_def)

lemma check_boot_run: "\<exists>h'. verify_qemu_boot (check_machine d) check_host = Some (Inr (), h')"
proof -
  have look: "succeeds ready (xpure (path_exists (check_machine d) check_log)) (\<lambda>e h. ready h \<and> (e \<longleftrightarrow> h_files h check_log \<noteq> None))"
    by (rule succeedsI) (simp add: xpure_simp path_exists_def ready_def)
  have clear: "succeeds (\<lambda>h. ready h \<and> (e \<longleftrightarrow> h_files h check_log \<noteq> None))
      (if e then xtry msg (remove_file (check_machine d) check_log) else xok ()) (\<lambda>_. ready_fresh)" for e msg
    by (auto intro!: succeedsI simp: xtry_def remove_file_def os_call_def ready_def ready_fresh_def paths_apart [symmetric] paths_apart
        split: node.split)
  have "succeeds (\<lambda>h. h = check_host) (verify_qemu_boot (check_machine d)) (\<lambda>_ _. True)"
    unfolding verify_qemu_boot_def Let_def workspace_root_ok [OF check_root] xbind_ok check_names check_settings
    by (rule succeeds_then [OF staged] succeeds_bind [OF look] succeeds_then [OF clear] succeeds_bind [OF ready_steps(3)] succeeds_then [OF ready_steps(4)]
        succeeds_bind [OF running_steps(1)] succeeds_loop [OF boot_body_running])+
  then show ?thesis by (auto simp: succeeds_def)
qed

lemma shell_outcome:
  assumes "\<And>p. outcome (running d) (xthen (validate_ppm_screenshot (check_machine d) shot) (xthen (terminate_child (check_machine d))
    (xbind (instant_now (check_machine d)) (\<lambda>now. xprint (p now))))) Q"
  shows "outcome (\<lambda>h. h = check_host) (verify_qemu_shell (check_machine d)) Q"
proof -
  have lower: "lowercase (lit ''help'')" "lowercase (lit ''info'')" "lowercase (lit ''ls'')"
    by (simp_all add: lit_def)
  have wait: "succeeds (running d) (wait_for_log_marker (check_machine d) check_log (lit ''AetherOS: kernel initialized'') t) (\<lambda>_. running d)"
    "mk \<in> set shell_markers \<Longrightarrow> succeeds (running d) (wait_for_log_marker (check_machine d) check_log mk t) (\<lambda>_. running d)" for mk t
    using wait_running transcript_shows by auto
  have markers: "lit ''/README.TXT'' \<in> set shell_markers" "lit ''AetherOS academic kernel'' \<in> set shell_markers"
    "lit ''Show this command list'' \<in> set shell_markers" "lit ''AetherOS shell ready'' \<in> set shell_markers"
    by (simp_all add: shell_markers_def)
  show ?thesis
    unfolding verify_qemu_shell_def Let_def workspace_root_ok [OF check_root] xbind_ok check_names check_settings
    by (rule outcome_then [OF staged] outcome_then [OF ready_steps(1)] outcome_then [OF ready_steps(2)] outcome_bind [OF ready_steps(3)]
        outcome_then [OF ready_steps(4)] outcome_bind [OF running_steps(1)] outcome_then [OF wait(1)]
        outcome_then [OF wait(2) [OF markers(4)]] outcome_then [OF running_steps(3)] outcome_then [OF send_running [OF lower(1)]]
        outcome_then [OF send_running [OF lower(2)]] outcome_then [OF send_running [OF lower(3)]]
        outcome_then [OF running_steps(4)] outcome_then [OF wait(2) [OF markers(3)]] outcome_then [OF wait(2) [OF markers(2)]]
        outcome_then [OF wait(2) [OF markers(1)]] assms)+
qed

lemma check_shell_run: "\<exists>h'. verify_qemu_shell (check_machine dump) check_host = Some (Inr (), h')"
proof -
  have valid: "succeeds (running dump) (validate_ppm_screenshot (check_machine dump) shot) (\<lambda>_. running dump)"
    by (auto intro!: succeedsI simp: validate_ppm_screenshot_def xbind_def xpure_simp path_exists_def xtry_def
        read_file_def os_call_def running_pass dump_facts not_less)
  have rest: "outcome (\<lambda>_. True) (xbind (instant_now m) (\<lambda>now. xprint (p now))) (\<lambda>r _. r = Inr ())" for m p
    by (auto simp: outcome_def xbind_def instant_now_def xpure_simp)
  have "outcome (\<lambda>h. h = check_host) (verify_qemu_shell (check_machine dump)) (\<lambda>r _. r = Inr ())"
    by (intro shell_outcome outcome_then [OF valid] outcome_then [OF running_steps(5)] rest)
  then show ?thesis by (simp add: outcome_def)
qed

section \<open>A dump that is not accepted\<close>

text \<open>The errors of the check of the screen dump, and the parts of the command that have no such error.\<close>

definition dump_error :: "rstr \<Rightarrow> bool" where
  "dump_error e \<longleftrightarrow> prefix (lit ''framebuffer dump '') e"

definition no_dump_error :: "'a xm \<Rightarrow> bool" where
  "no_dump_error c \<longleftrightarrow> (\<forall>h e h'. c h = Some (Inl (Err e), h') \<longrightarrow> \<not> dump_error e)"

named_theorems dump_intros \<open>computations without an error of the dump check\<close>

lemma no_dump_basic [dump_intros]: "no_dump_error (xok x)" "no_dump_error (xpanic t)" "no_dump_error (xprint l)" "no_dump_error (xpure f)"
  "\<not> dump_error e \<Longrightarrow> no_dump_error (xerr e)"
  by (simp_all add: no_dump_error_def xpure_simp)

lemma no_dump_try [dump_intros]:
  "(\<And>e. \<not> dump_error (msg e)) \<Longrightarrow> no_dump_error (xtry msg op)" "(\<And>e. \<not> dump_error (msg e)) \<Longrightarrow> no_dump_error (xwait msg w)"
  by (auto simp: no_dump_error_def xtry_def xwait_def split: prod.splits sum.splits option.splits)

lemma no_dump_bind [dump_intros]: "no_dump_error c \<Longrightarrow> (\<And>x. no_dump_error (f x)) \<Longrightarrow> no_dump_error (xbind c f)"
  unfolding no_dump_error_def by (intro allI impI) (erule xbind_cases, blast+)

lemma no_dump_then [dump_intros]: "no_dump_error c \<Longrightarrow> no_dump_error d \<Longrightarrow> no_dump_error (xthen c d)"
  unfolding xthen_def by (rule no_dump_bind)

lemma no_dump_cases [dump_intros]: "no_dump_error c \<Longrightarrow> no_dump_error d \<Longrightarrow> no_dump_error (if b then c else d)"
  "no_dump_error c \<Longrightarrow> (\<And>x. no_dump_error (f x)) \<Longrightarrow> no_dump_error (case v of None \<Rightarrow> c | Some x \<Rightarrow> f x)"
  by (simp_all split: option.split)

lemma no_dump_clock [dump_intros]: "no_dump_error (instant_now m)" "no_dump_error (sleep m)"
  unfolding instant_now_def sleep_def by (rule dump_intros)+

lemma no_dump_find [dump_intros]: "no_dump_error (xfind_existing m ps)"
  by (induction ps) (simp_all only: xfind_existing.simps, (intro dump_intros | assumption)+)

lemma no_dump_for [dump_intros]:
  assumes "\<And>x. no_dump_error (f x)"
  shows "no_dump_error (xfor f xs)"
proof (induction xs)
  case (Cons x xs)
  show ?case unfolding xfor.simps by (rule no_dump_then [OF assms Cons])
qed (simp only: xfor.simps no_dump_basic)

lemma no_dump_loop [dump_intros]:
  assumes "no_dump_error body"
  shows "no_dump_error (xloop body)"
  unfolding no_dump_error_def
proof (intro allI impI)
  fix h e h' assume run: "xloop body h = Some (Inl (Err e), h')"
  obtain g where "body g = Some (Inl (Err e), h')" using xloop_last_round [where P = "\<lambda>_. True", OF run] by auto
  then show "\<not> dump_error e" using assms by (auto simp: no_dump_error_def)
qed

lemma no_dump_command: "(\<And>t. \<not> dump_error (l @ t)) \<Longrightarrow> no_dump_error (run_command m c l)"
  unfolding run_command_def by (intro dump_intros) (simp_all add: dump_error_def lit_def)

lemmas dump_texts = dump_error_def lit_def

lemma no_dump_files: "no_dump_error (workspace_root m)" "no_dump_error (env_path m v)" "no_dump_error (find_command m n)"
  "no_dump_error (remove_if_exists m p)" "no_dump_error (verify_sha256 m p e)"
  unfolding workspace_root_def env_path_def find_command_def remove_if_exists_def verify_sha256_def Let_def
  by (intro dump_intros; simp add: dump_texts)+

lemma no_dump_finders: "no_dump_error (find_qemu_binary m)" "no_dump_error (find_ovmf_code m)" "no_dump_error (find_ovmf_vars_source m)"
  "no_dump_error (locate_kernel_binary m r)" "no_dump_error (locate_limine_config m r)"
  unfolding find_qemu_binary_def find_ovmf_code_def find_ovmf_vars_source_def locate_kernel_binary_def locate_limine_config_def Let_def
  by (intro dump_intros no_dump_files; simp add: dump_texts)+

lemma no_dump_bundle: "no_dump_error (ensure_limine_bundle m r)"
proof -
  have "no_dump_error (download_file m u p)" "no_dump_error (extract_zip m a p)" for u p a
    unfolding download_file_def extract_zip_def Let_def by (intro dump_intros no_dump_files no_dump_command; simp add: dump_texts)+
  then show ?thesis
    unfolding ensure_limine_bundle_def download_and_extract_limine_def Let_def
    by (intro dump_intros no_dump_files) (simp_all add: dump_texts)
qed

lemma no_dump_stage: "no_dump_error (stage_boot_tree m)"
  unfolding stage_boot_tree_def build_kernel_def Let_def
  by (intro dump_intros no_dump_files no_dump_finders no_dump_bundle no_dump_command; simp add: dump_texts)

lemma no_dump_qemu: "no_dump_error (build_qemu_command m r sm d)" "no_dump_error (spawn_qemu m c)"
  unfolding build_qemu_command_def ensure_ovmf_vars_def spawn_qemu_def Let_def
  by (intro dump_intros no_dump_files no_dump_finders; simp add: dump_texts)+

lemma no_dump_waits: "no_dump_error (wait_for_log_marker m log mk t)" "no_dump_error (connect_monitor m p t)"
  "no_dump_error (send_monitor_command m c)" "no_dump_error (send_shell_command m c)" "no_dump_error (terminate_child m)"
proof -
  show tm: "no_dump_error (terminate_child m)"
    unfolding terminate_child_def by (intro dump_intros; simp add: dump_texts)
  have rd: "no_dump_error (read_child_stderr m)"
    by (auto simp: no_dump_error_def read_child_stderr_def xtry_def dump_texts split: prod.splits sum.splits)
  show "no_dump_error (wait_for_log_marker m log mk t)"
    unfolding wait_for_log_marker_def wait_body_def poll_again_def contains_marker_def tail_lines_def
    by (intro dump_intros tm rd; simp add: dump_texts)
  have "no_dump_error (connect_body m p t t0)" for t0
    by (auto simp: no_dump_error_def connect_body_def xbind_def xthen_def instant_now_def sleep_def xpure_simp dump_texts
        split: prod.splits sum.splits if_splits)
  then show "no_dump_error (connect_monitor m p t)" unfolding connect_monitor_def by (intro dump_intros)
  show sm: "no_dump_error (send_monitor_command m c)" for c
    unfolding send_monitor_command_def by (intro dump_intros; simp add: dump_texts)
  have "no_dump_error (xlift (qemu_sendkey_name m k))" for k
    by (simp add: qemu_sendkey_name_def xlift_def no_dump_error_def) (simp add: dump_texts)
  then show "no_dump_error (send_shell_command m c)" unfolding send_shell_command_def by (intro dump_intros sm)
qed

text \<open>As long as the command goes on, the QEMU it started is neither reaped nor killed.\<close>

definition child_view :: "host \<Rightarrow> child_state \<times> bool" where
  "child_view h = (child h, child_killed h)"

definition live :: "host \<Rightarrow> bool" where
  "live h \<longleftrightarrow> child_view h = (Unreaped, False)"

interpretation view_observer: host_observer child_view
  by unfold_locales (simp_all add: child_view_def)

lemma keeps_live: "keeps child_view c \<Longrightarrow> ensures live c (\<lambda>_. live)"
  by (rule ensuresI) (simp add: live_def keepsD)

lemma monitor_live:
  "ensures live (send_monitor_command m c) (\<lambda>_. live)" "ensures live (send_shell_command m c) (\<lambda>_. live)"
  "ensures live (connect_monitor m p t) (\<lambda>_. live)"
proof -
  have sm: "keeps child_view (send_monitor_command m c)" for c
    unfolding send_monitor_command_def
    by (intro keeps_intros) (auto simp: io_keeps_def stream_write_all_def os_call_def child_view_def split: option.split)
  have "keeps child_view (send_shell_command m c)"
    unfolding send_shell_command_def by (intro keeps_intros sm view_observer.clock_obs)
  moreover have "keeps child_view (connect_body m p t t0)" for t0
    by (auto simp: keeps_def connect_body_def connect_port_def os_call_def instant_now_def sleep_def xbind_def xthen_def
        xpure_simp child_view_def split: option.splits if_splits)
  then have "keeps child_view (connect_monitor m p t)"
    unfolding connect_monitor_def by (intro keeps_intros view_observer.clock_obs)
  ultimately show "ensures live (send_monitor_command m c) (\<lambda>_. live)" "ensures live (send_shell_command m c) (\<lambda>_. live)"
    "ensures live (connect_monitor m p t) (\<lambda>_. live)" using sm by (simp_all add: keeps_live)
qed

lemma poll_live: "ensures live (poll_again m log t t0 em tm) (\<lambda>_. live)"
proof -
  have "ensures live (xtry msg (child_try_wait m)) (\<lambda>x h. x = None \<longrightarrow> live h)" for msg
    by (rule ensuresI) (auto simp: child_try_wait_def os_call_Inr_iff live_def child_view_def split: option.splits)
  moreover have fail: "ensures P (xbind c (\<lambda>x. xbind (d x) (\<lambda>y. xerr (e x y)))) Q" "ensures P (xbind c (\<lambda>x. xthen b (xerr (e' x)))) Q"
    for P Q c d b and e :: "_ \<Rightarrow> _ \<Rightarrow> rstr" and e' by (auto intro!: ensuresI elim!: xbind_InrE xthen_InrE)
  moreover have "ensures live (xbind (instant_now m) (\<lambda>now. if secs t \<le> now - t0
      then xbind (tail_lines m log 20) (\<lambda>tail. xthen (terminate_child m) (xerr (tm tail))) else xthen (sleep m) (xok (None :: unit option)))) (\<lambda>_. live)"
  proof (rule ensures_bind [OF keeps_live [OF view_observer.clock_obs(1)]])
    fix now
    have "ensures live (xthen (sleep m) (xok (None :: unit option))) (\<lambda>_. live)"
      by (rule ensures_then [OF keeps_live [OF view_observer.clock_obs(2)]]) (auto intro: ensuresI)
    then show "ensures live (if secs t \<le> now - t0
      then xbind (tail_lines m log 20) (\<lambda>tail. xthen (terminate_child m) (xerr (tm tail))) else xthen (sleep m) (xok (None :: unit option))) (\<lambda>_. live)"
      by (simp add: fail)
  qed
  ultimately show ?thesis
    unfolding poll_again_def by (intro ensures_bind) (auto split: option.split)
qed

lemma wait_live: "ensures live (wait_for_log_marker m log mk t) (\<lambda>_. live)"
  unfolding wait_for_log_marker_def
proof (rule ensures_bind [OF keeps_live [OF view_observer.clock_obs(1)]])
  fix t0
  have body: "ensures live (wait_body m log mk t t0) (\<lambda>_. live)"
    unfolding wait_body_def by (rule ensures_bind [OF keeps_live [OF view_observer.log_obs(1)]]) (auto intro: ensuresI poll_live)
  show "ensures live (xloop (wait_body m log mk t t0)) (\<lambda>_. live)"
  proof (rule ensuresI)
    fix h x h' assume l: "live h" and run: "xloop (wait_body m log mk t t0) h = Some (Inr x, h')"
    let ?y = "(Inr x :: xerror + unit, h')"
    have "\<exists>g. live g \<and> wait_body m log mk t t0 g = Some (map_sum id Some (fst ?y), snd ?y)"
      by (rule xloop_last_round [where P = live, OF run l]) (erule (1) ensuresD [OF body])
    then show "live h'" using ensuresD [OF body] by force
  qed
qed

definition leaks :: "(host \<Rightarrow> bool) \<Rightarrow> 'a xm \<Rightarrow> bool" where
  "leaks P c \<longleftrightarrow> valid P c (\<lambda>r h. \<forall>e. r = Inl (Err e) \<longrightarrow> dump_error e \<longrightarrow> live h)"

lemma leaks_bind:
  assumes "no_dump_error c" and "ensures P c R" and "\<And>x. leaks (R x) (f x)"
  shows "leaks P (xbind c f)"
  unfolding leaks_def
proof (rule validI, intro allI impI)
  fix h r h' e assume "P h" "xbind c f h = Some (r, h')" "r = Inl (Err e)" "dump_error e"
  from this(2) show "live h'"
  proof (cases rule: xbind_cases)
    case (1 e')
    then show ?thesis using assms(1) \<open>r = Inl (Err e)\<close> \<open>dump_error e\<close> by (auto simp: no_dump_error_def)
  next
    case (2 x h1)
    have "R x h1" by (rule ensuresD [OF assms(2) \<open>P h\<close> 2(1)])
    from validD [OF assms(3) [unfolded leaks_def] this 2(2)] show ?thesis using \<open>r = _\<close> \<open>dump_error e\<close> by blast
  qed
qed

lemma leaks_then: "no_dump_error c \<Longrightarrow> ensures P c (\<lambda>_. R) \<Longrightarrow> leaks R d \<Longrightarrow> leaks P (xthen c d)"
  unfolding xthen_def by (rule leaks_bind)

lemma leaks_dump:
  assumes "no_dump_error d"
  shows "leaks live (xthen (validate_ppm_screenshot m p) d)"
  unfolding leaks_def
proof (rule validI, intro allI impI)
  fix h r h' e assume "live h" and run: "xthen (validate_ppm_screenshot m p) d h = Some (r, h')" and e: "r = Inl (Err e)" "dump_error e"
  from run [unfolded xthen_def] show "live h'"
  proof (cases rule: xbind_cases)
    case (1 e')
    then show ?thesis using keepsD [OF view_observer.screenshot_obs 1(1)] \<open>live h\<close> by (simp add: live_def)
  next
    case (2 x h1)
    then show ?thesis using assms e by (auto simp: no_dump_error_def)
  qed
qed

lemma spawn_live: "ensures P (spawn_qemu m c) (\<lambda>_. live)"
  by (auto simp: live_def child_view_def ensures_def valid_def spawn_qemu_def command_spawn_def xtry_def os_call_def split: option.splits)

lemma shell_check_leaks: "leaks (\<lambda>_. True) (verify_qemu_shell m)"
  unfolding verify_qemu_shell_def Let_def
  by (rule leaks_then [OF no_dump_stage ensures_any] leaks_bind [OF no_dump_files(1) ensures_any] leaks_then [OF no_dump_files(4) ensures_any]
      leaks_bind [OF no_dump_qemu(1) ensures_any] leaks_then [OF no_dump_qemu(2) spawn_live]
      leaks_bind [OF no_dump_clock(1) keeps_live [OF view_observer.clock_obs(1)]] leaks_then [OF no_dump_waits(1) wait_live]
      leaks_then [OF no_dump_waits(2) monitor_live(3)] leaks_then [OF no_dump_waits(4) monitor_live(2)]
      leaks_then [OF no_dump_waits(3) monitor_live(1)] leaks_dump no_dump_then no_dump_waits(5) no_dump_bind no_dump_clock(1) no_dump_basic(3))+

text \<open>(C40) The shell check leaves QEMU running when it rejects the screen dump: whenever, on any machine, the command ends
  with one of the errors about the framebuffer dump (not created, too small, or not a binary PPM image), the QEMU it started has been
  neither killed nor reaped (dropping a \<open>Child\<close> does not stop the process).\<close>

theorem shell_check_leaks_qemu:
  assumes "verify_qemu_shell m h = Some (Inl (Err e), h')" and "dump_error e"
  shows "child h' = Unreaped \<and> \<not> child_killed h'"
  using validD [OF shell_check_leaks [unfolded leaks_def] _ assms(1)] assms(2) by (simp add: live_def child_view_def)

theorem shell_check_leaks_qemu_witness:
  "\<exists>e h'. verify_qemu_shell (check_machine []) check_host = Some (Inl (Err e), h') \<and> dump_error e \<and> child h' = Unreaped \<and> \<not> child_killed h'"
proof -
  have "outcome (running []) (xthen (validate_ppm_screenshot (check_machine []) shot) d) (\<lambda>r h. \<exists>e. r = Inl (Err e) \<and> dump_error e)" for d
    by (auto simp: outcome_def validate_ppm_screenshot_def xthen_def xbind_def xpure_simp path_exists_def xtry_def
        read_file_def os_call_def running_pass dump_texts)
  then have "outcome (\<lambda>h. h = check_host) (verify_qemu_shell (check_machine [])) (\<lambda>r h. \<exists>e. r = Inl (Err e) \<and> dump_error e)"
    by (rule shell_outcome)
  then obtain e h' where r: "verify_qemu_shell (check_machine []) check_host = Some (Inl (Err e), h')" "dump_error e"
    by (auto simp: outcome_def)
  from shell_check_leaks_qemu [OF r] r show ?thesis by blast
qed

lemma check_log_grows: "log_grows (check_machine d) check_log"
  by (simp add: log_grows_def)

lemma check_programs: "programs_end (check_machine d)"
  by (simp add: programs_end_def)

lemma check_clock: "clock_advances (check_machine d)"
  unfolding clock_advances_def
proof
  fix t
  have "\<forall>k\<ge>t. t \<le> clock (check_machine d) k" by (simp add: check_machine_def example_machine_def)
  then show "\<exists>n. \<forall>k\<ge>n. t \<le> clock (check_machine d) k" by blast
qed

theorem boot_check_success_witness:
  "\<exists>h' before c fs. verify_qemu_boot (check_machine dump) check_host = Some (Inr (), h') \<and> child h' = Reaped \<and>
     log_shows check_log (lit ''AetherOS: kernel initialized'') h' \<and> started h' = before @ [(c, fs)] \<and> fs check_log = None"
proof -
  obtain h' where h': "verify_qemu_boot (check_machine dump) check_host = Some (Inr (), h')" using check_boot_run by blast
  have "child check_host \<noteq> Unreaped" by (simp add: check_host_def example_host_def)
  with boot_check_success [OF h' check_root] h' show ?thesis
    unfolding check_names check_settings using check_log_grows by auto
qed

theorem boot_check_leaves_no_qemu_witness:
  "\<exists>h'. verify_qemu_boot (check_machine dump) check_host = Some (Inr (), h') \<and> child h' \<noteq> Unreaped"
proof -
  obtain h' where h': "verify_qemu_boot (check_machine dump) check_host = Some (Inr (), h')" using check_boot_run by blast
  have "child check_host \<noteq> Unreaped" by (simp add: check_host_def example_host_def)
  moreover have "\<forall>n fs. readable (fs check_log) \<longrightarrow> readable (progress (check_machine dump) n fs check_log) \<and>
      (fs check_log \<noteq> None \<longrightarrow> progress (check_machine dump) n fs check_log \<noteq> None)"
    using paths_apart(1) by (auto simp: transcript_valid shot_def)
  ultimately show ?thesis
    using boot_check_leaves_no_qemu [OF h' check_root _ _ check_names(1) [symmetric]] h' by simp
qed

theorem shell_check_success_witness:
  "\<exists>h'. verify_qemu_shell (check_machine dump) check_host = Some (Inr (), h') \<and> child h' = Reaped \<and>
     monitor h' = concat (map monitor_line (shell_script (check_machine dump) (os_lit ''/w''))) \<and>
     log_shows check_log (lit ''Show this command list'') h'"
proof -
  obtain h' where h': "verify_qemu_shell (check_machine dump) check_host = Some (Inr (), h')" using check_shell_run by blast
  have "monitor check_host = []" by (simp add: check_host_def example_host_def)
  with shell_check_success [OF h' check_root] h' show ?thesis
    unfolding check_names using check_log_grows by (auto simp: shell_markers_def)
qed

theorem xtask_returns_witness:
  "(\<forall>n. exited (check_machine dump) n = None) \<and> (\<exists>code h'. xtask_main (check_machine dump) check_host = Some (code, h'))"
  using xtask_returns [OF check_clock check_programs] by simp

end
