(* ===== verification/Initramfs.thy ===== *)
theory Initramfs
  imports Rust_Str
begin

text \<open>
  \<^verbatim>\<open>kernel/src/fs/initramfs.rs\<close>: the four read-only files that are compiled into the kernel.  The
  table sits behind a \<^verbatim>\<open>spin::Once\<close> whose initialiser is the constant function \<open>build_initramfs\<close>,
  so every call of \<open>files\<close> (and of \<open>initialize\<close>) yields the same table.
\<close>

definition INITRAMFS_FILE_COUNT :: nat where
  "INITRAMFS_FILE_COUNT = 4"

record InitramfsFile =
  init_path :: rstr
  init_contents :: rstr

definition newline :: rchar where
  "newline = 0x0A"

definition build_initramfs :: "InitramfsFile list" where
  "build_initramfs =
    [\<lparr>init_path = lit ''/README.TXT'',
      init_contents = lit ''AetherOS initramfs'' @ [newline] @
        lit ''Static in-memory files for shell validation and boot-time inspection.'' @ [newline]\<rparr>,
     \<lparr>init_path = lit ''/STATUS.TXT'',
      init_contents =
        lit ''Boot, interrupts, memory, scheduler, shell, and QEMU validation are active in this academic v1 baseline.''
        @ [newline]\<rparr>,
     \<lparr>init_path = lit ''/ROADMAP.TXT'',
      init_contents =
        lit ''AetherOS v1 baseline is focused on stable bring-up, observability, and educational subsystem boundaries.''
        @ [newline]\<rparr>,
     \<lparr>init_path = lit ''/COMMANDS.TXT'',
      init_contents = concat (map (\<lambda>l. lit l @ [newline])
        [''help'', ''info'', ''ticks'', ''mem'', ''tasks'', ''ls'', ''cat <FILE>'',
         ''write <FILE> <TEXT>'', ''rm <FILE>'', ''storage'', ''clear''])\<rparr>]"

definition files :: "InitramfsFile list" where
  "files = build_initramfs"

text \<open>The table as a map from paths to contents.\<close>

definition initramfs_map :: "rstr \<Rightarrow> rstr option" where
  "initramfs_map = map_of (map (\<lambda>f. (init_path f, init_contents f)) files)"

lemma scalar_newline [simp]: "scalar newline"
  by (simp add: newline_def scalar_def)

lemma files_paths:
  "map init_path files = map lit [''/README.TXT'', ''/STATUS.TXT'', ''/ROADMAP.TXT'', ''/COMMANDS.TXT'']"
  by (simp add: files_def build_initramfs_def)

lemma length_files [layout_simps]: "length files = INITRAMFS_FILE_COUNT"
  by (simp add: files_def build_initramfs_def INITRAMFS_FILE_COUNT_def)

lemma distinct_files: "distinct (map init_path files)"
  by (simp add: files_paths)

lemma valid_files:
  assumes "f \<in> set files"
  shows "valid_str (init_path f)" and "valid_str (init_contents f)"
  using assms by (auto simp: files_def build_initramfs_def)

lemma dom_initramfs_map: "dom initramfs_map = set (map init_path files)"
  by (simp add: initramfs_map_def dom_map_of_conv_image_fst image_image)

text \<open>Looking a path up by a linear search, as \<open>find\<close> of the file system does, is the map lookup.\<close>

lemma map_of_find_index:
  "map_of (map (\<lambda>x. (k x, v x)) xs) p =
     (case find_index (\<lambda>x. k x = p) xs of None \<Rightarrow> None | Some i \<Rightarrow> Some (v (xs ! i)))"
  by (induction xs) (auto split: option.splits)

end
