(* ===== verification/Vfs.thy ===== *)
theory Vfs
  imports Initramfs
begin

text \<open>
  \<^verbatim>\<open>kernel/src/fs/vfs.rs\<close>: a table of eight writable files laid over the read-only initramfs.
  Slots are fixed byte arrays with lengths, paths are normalised to start with a slash, and every
  slicing and copying step is a checked operation of the model.  \<open>read\<close> does not copy: it
  returns a reference into the slot (\<open>leak_str\<close> extends its lifetime), so the model returns a
  reference too and \<open>deref\<close> reads through it in a given table.
\<close>

section \<open>Slots\<close>

definition MAX_OVERLAY_FILES :: nat where "MAX_OVERLAY_FILES = 8"
definition MAX_PATH_LEN :: nat where "MAX_PATH_LEN = 32"
definition MAX_CONTENT_LEN :: nat where "MAX_CONTENT_LEN = 256"

lemmas vfs_limits [layout_simps] = MAX_OVERLAY_FILES_def MAX_PATH_LEN_def MAX_CONTENT_LEN_def

record OverlayFile =
  used :: bool
  path_len :: nat
  contents_len :: nat
  file_path :: "u8 list"
  file_contents :: "u8 list"

definition OverlayFile_EMPTY :: OverlayFile where
  "OverlayFile_EMPTY =
     \<lparr>used = False, path_len = 0, contents_len = 0,
      file_path = replicate MAX_PATH_LEN 0, file_contents = replicate MAX_CONTENT_LEN 0\<rparr>"

definition OverlayFile_write :: "rstr \<Rightarrow> u8 list \<Rightarrow> OverlayFile \<Rightarrow> OverlayFile res" where
  "OverlayFile_write p bytes e =
     rbind (copy_prefix (file_path e) (as_bytes p)) (\<lambda>fp.
     rbind (copy_prefix (file_contents e) bytes) (\<lambda>fc.
       Inr \<lparr>used = True, path_len = str_len p, contents_len = length bytes,
            file_path = fp, file_contents = fc\<rparr>))"

definition OverlayFile_matches :: "u8 list \<Rightarrow> OverlayFile \<Rightarrow> bool res" where
  "OverlayFile_matches p e =
     (if used e \<and> path_len e = length p
      then rbind (slice_to (file_path e) (path_len e)) (\<lambda>q. Inr (q = p))
      else Inr False)"

definition OverlayFile_path :: "OverlayFile \<Rightarrow> rstr option res" where
  "OverlayFile_path e =
     rbind (slice_to (file_path e) (path_len e)) (\<lambda>q. Inr (from_utf8 q))"

definition OverlayFile_contents_bytes :: "OverlayFile \<Rightarrow> u8 list res" where
  "OverlayFile_contents_bytes e = slice_to (file_contents e) (contents_len e)"

datatype VfsError = InvalidPath | PathTooLong | ContentTooLong | NoSpace | ReadOnly | NotFound

fun VfsError_message :: "VfsError \<Rightarrow> rstr" where
  "VfsError_message InvalidPath = lit ''invalid path''"
| "VfsError_message PathTooLong = lit ''path too long''"
| "VfsError_message ContentTooLong = lit ''content too long''"
| "VfsError_message NoSpace = lit ''filesystem overlay full''"
| "VfsError_message ReadOnly = lit ''cannot remove read-only initramfs file''"
| "VfsError_message NotFound = lit ''file not found''"

section \<open>Paths\<close>

text \<open>The slash that \<open>starts_with\<close> looks for; \<open>buffer\<close> is the caller's 32-byte array.\<close>

definition slash :: rchar where "slash = 0x2F"

definition copy_with_slash_prefix :: "rstr \<Rightarrow> u8 list \<Rightarrow> (VfsError + rstr) res" where
  "copy_with_slash_prefix p buffer =
     (if str_len p + 1 > MAX_PATH_LEN then Inr (Inl PathTooLong)
      else rbind (update_chk buffer 0 0x2F) (\<lambda>b.
           rbind (copy_prefix (drop 1 b) (as_bytes p)) (\<lambda>t.
           rbind (slice_to (take 1 b @ t) (str_len p + 1)) (\<lambda>q.
             Inr (case from_utf8 q of None \<Rightarrow> Inl InvalidPath | Some s \<Rightarrow> Inr s)))))"

definition normalize_path :: "rstr \<Rightarrow> u8 list \<Rightarrow> (VfsError + rstr) res" where
  "normalize_path p buffer =
     (let trimmed = trim p in
      if trimmed = [] then Inr (Inl InvalidPath)
      else rbind (if starts_with trimmed slash then Inr (Inr trimmed)
                  else copy_with_slash_prefix trimmed buffer)
             (\<lambda>r. Inr (rbind r (\<lambda>normalized.
                if str_len normalized > MAX_PATH_LEN then Inl PathTooLong else Inr normalized))))"

section \<open>The table of writable files\<close>

text \<open>\<open>iter().find(..)\<close> with a predicate that may panic.\<close>

fun find_slot :: "('a \<Rightarrow> bool res) \<Rightarrow> 'a list \<Rightarrow> nat option res" where
  "find_slot P [] = Inr None"
| "find_slot P (x # xs) =
     rbind (P x) (\<lambda>b. if b then Inr (Some 0)
                      else rbind (find_slot P xs) (\<lambda>i. Inr (map_option Suc i)))"

datatype str_ref = OverlayRef nat nat | StaticRef rstr

definition vfs_find :: "rstr \<Rightarrow> InitramfsFile option" where
  "vfs_find p = map_option (\<lambda>i. files ! i) (find_index (\<lambda>f. init_path f = p) files)"

definition read_overlay :: "rstr \<Rightarrow> OverlayFile list \<Rightarrow> str_ref option res" where
  "read_overlay p fs =
     rbind (find_slot (OverlayFile_matches (as_bytes p)) fs) (\<lambda>slot.
       case slot of
         None \<Rightarrow> Inr None
       | Some i \<Rightarrow>
           rbind (OverlayFile_contents_bytes (fs ! i)) (\<lambda>bytes.
             Inr (case from_utf8 bytes of
                    None \<Rightarrow> None
                  | Some _ \<Rightarrow> Some (OverlayRef i (contents_len (fs ! i))))))"

definition vfs_read :: "rstr \<Rightarrow> OverlayFile list \<Rightarrow> str_ref option res" where
  "vfs_read p fs =
     rbind (normalize_path p (replicate MAX_PATH_LEN 0)) (\<lambda>r.
       case r of
         Inl _ \<Rightarrow> Inr None
       | Inr normalized \<Rightarrow>
           rbind (read_overlay normalized fs) (\<lambda>ov.
             case ov of
               Some c \<Rightarrow> Inr (Some c)
             | None \<Rightarrow> Inr (map_option (\<lambda>f. StaticRef (init_contents f)) (vfs_find normalized))))"

definition vfs_exists :: "rstr \<Rightarrow> OverlayFile list \<Rightarrow> bool res" where
  "vfs_exists p fs =
     rbind (normalize_path p (replicate MAX_PATH_LEN 0)) (\<lambda>r.
       case r of
         Inl _ \<Rightarrow> Inr False
       | Inr normalized \<Rightarrow>
           rbind (read_overlay normalized fs) (\<lambda>ov. Inr (ov \<noteq> None \<or> vfs_find normalized \<noteq> None)))"

text \<open>\<open>write\<close> updates the slot that already has the path, else the first unused one.\<close>

definition store_slot :: "nat \<Rightarrow> rstr \<Rightarrow> u8 list \<Rightarrow> OverlayFile list \<Rightarrow> OverlayFile list res" where
  "store_slot i p bytes fs = rbind (OverlayFile_write p bytes (fs ! i)) (\<lambda>e. Inr (fs[i := e]))"

definition vfs_write :: "rstr \<Rightarrow> rstr \<Rightarrow> OverlayFile list \<Rightarrow> ((VfsError + unit) \<times> OverlayFile list) res" where
  "vfs_write p contents fs =
     rbind (normalize_path p (replicate MAX_PATH_LEN 0)) (\<lambda>r.
       case r of
         Inl e \<Rightarrow> Inr (Inl e, fs)
       | Inr normalized \<Rightarrow>
           if length (as_bytes contents) > MAX_CONTENT_LEN then Inr (Inl ContentTooLong, fs)
           else rbind (find_slot (OverlayFile_matches (as_bytes normalized)) fs) (\<lambda>slot.
             case slot of
               Some i \<Rightarrow>
                 rbind (store_slot i normalized (as_bytes contents) fs) (\<lambda>fs'. Inr (Inr (), fs'))
             | None \<Rightarrow>
                 (case find_index (\<lambda>e. \<not> used e) fs of
                    Some i \<Rightarrow>
                      rbind (store_slot i normalized (as_bytes contents) fs) (\<lambda>fs'. Inr (Inr (), fs'))
                  | None \<Rightarrow> Inr (Inl NoSpace, fs))))"

definition vfs_remove :: "rstr \<Rightarrow> OverlayFile list \<Rightarrow> ((VfsError + unit) \<times> OverlayFile list) res" where
  "vfs_remove p fs =
     rbind (normalize_path p (replicate MAX_PATH_LEN 0)) (\<lambda>r.
       case r of
         Inl e \<Rightarrow> Inr (Inl e, fs)
       | Inr normalized \<Rightarrow>
           rbind (find_slot (OverlayFile_matches (as_bytes normalized)) fs) (\<lambda>slot.
             case slot of
               Some i \<Rightarrow> Inr (Inr (), fs[i := OverlayFile_EMPTY])
             | None \<Rightarrow>
                 if vfs_find normalized \<noteq> None then Inr (Inl ReadOnly, fs)
                 else Inr (Inl NotFound, fs)))"

text \<open>\<open>for_each_entry\<close>: the paths the visitor is called with, in order.\<close>

fun overlay_entries :: "OverlayFile list \<Rightarrow> rstr list res" where
  "overlay_entries [] = Inr []"
| "overlay_entries (e # es) =
     (if used e
      then rbind (OverlayFile_path e) (\<lambda>p. rbind (overlay_entries es) (\<lambda>ps.
             Inr (case p of None \<Rightarrow> ps | Some q \<Rightarrow> q # ps)))
      else overlay_entries es)"

fun initramfs_entries :: "OverlayFile list \<Rightarrow> InitramfsFile list \<Rightarrow> rstr list res" where
  "initramfs_entries fs [] = Inr []"
| "initramfs_entries fs (f # rest) =
     rbind (find_slot (OverlayFile_matches (as_bytes (init_path f))) fs) (\<lambda>hit.
     rbind (initramfs_entries fs rest) (\<lambda>ps.
       Inr (if hit \<noteq> None then ps else init_path f # ps)))"

definition for_each_entry :: "OverlayFile list \<Rightarrow> rstr list res" where
  "for_each_entry fs =
     rbind (overlay_entries fs) (\<lambda>over. rbind (initramfs_entries fs files) (\<lambda>base. Inr (over @ base)))"

definition empty_table :: "OverlayFile list" where
  "empty_table = replicate MAX_OVERLAY_FILES OverlayFile_EMPTY"

record VfsState =
  vfs_initialized :: bool
  writable_files :: "OverlayFile list"

definition vfs_static :: VfsState where
  "vfs_static = \<lparr>vfs_initialized = False, writable_files = empty_table\<rparr>"

definition vfs_initialize :: "VfsState \<Rightarrow> VfsState" where
  "vfs_initialize s =
     (if vfs_initialized s then s
      else \<lparr>vfs_initialized = True, writable_files = empty_table\<rparr>)"

text \<open>What a returned reference shows when it is read in the table \<open>fs\<close>.\<close>

fun deref :: "OverlayFile list \<Rightarrow> str_ref \<Rightarrow> u8 list" where
  "deref fs (OverlayRef i n) = take n (file_contents (fs ! i))"
| "deref fs (StaticRef s) = as_bytes s"

section \<open>Path normalisation\<close>

text \<open>The normal form of a path, and what \<open>normalize_path\<close> computes without its buffer.\<close>

definition normal_path :: "rstr \<Rightarrow> bool" where
  "normal_path k \<longleftrightarrow> valid_str k \<and> starts_with k slash \<and> trim k = k \<and> str_len k \<le> MAX_PATH_LEN"

definition spec_path :: "rstr \<Rightarrow> VfsError + rstr" where
  "spec_path p =
     (if trim p = [] then Inl InvalidPath
      else let k = (if starts_with (trim p) slash then trim p else slash # trim p) in
           if str_len k > MAX_PATH_LEN then Inl PathTooLong else Inr k)"

lemma scalar_slash [simp]: "scalar slash"
  by (simp add: slash_def scalar_def)

lemma slash_not_whitespace [simp]: "\<not> is_whitespace slash"
  by (simp add: slash_def is_whitespace_def)

lemma as_bytes_slash: "as_bytes (slash # p) = 0x2F # as_bytes p"
  by (simp add: as_bytes_def slash_def encode_char.simps)

lemma str_len_slash: "str_len (slash # p) = Suc (str_len p)"
  by (simp add: str_len_def as_bytes_slash)

lemma copy_with_slash_prefix_spec:
  assumes "valid_str p" and "length buffer = MAX_PATH_LEN"
  shows "copy_with_slash_prefix p buffer =
    Inr (if str_len p + 1 > MAX_PATH_LEN then Inl PathTooLong else Inr (slash # p))"
proof (cases "str_len p + 1 > MAX_PATH_LEN")
  case True
  then show ?thesis by (simp add: copy_with_slash_prefix_def)
next
  case False
  then have len: "length (as_bytes p) \<le> 31" by (simp add: str_len_def MAX_PATH_LEN_def)
  obtain b bs where b: "buffer = b # bs" "length bs = 31"
    using assms(2) by (cases buffer) (auto simp: MAX_PATH_LEN_def)
  have "from_utf8 (0x2F # as_bytes p) = Some (slash # p)"
    using assms(1) by (simp add: from_utf8_iff as_bytes_slash)
  with False len b show ?thesis
    by (simp add: copy_with_slash_prefix_def panic_free str_len_def)
qed

lemma normalize_path_spec:
  assumes "valid_str p" and "length buffer = MAX_PATH_LEN"
  shows "normalize_path p buffer = Inr (spec_path p)"
  using copy_with_slash_prefix_spec [of "trim p" buffer] assms
  by (auto simp: normalize_path_def spec_path_def Let_def str_len_slash)

lemma spec_path_normal:
  assumes "valid_str p" and "spec_path p = Inr k"
  shows "normal_path k"
proof -
  have ne: "trim p \<noteq> []" and k: "k = (if starts_with (trim p) slash then trim p else slash # trim p)"
    and len: "str_len k \<le> MAX_PATH_LEN"
    using assms(2) by (auto simp: spec_path_def Let_def split: if_splits)
  have "trim k = k" using ne k trim_ends [OF ne] by (auto intro: trim_fixed)
  moreover have "starts_with k slash" using k by (auto simp: starts_with_def)
  ultimately show ?thesis using assms(1) k len by (simp add: normal_path_def)
qed

lemma spec_path_fixed: "normal_path k \<Longrightarrow> spec_path k = Inr k"
  by (auto simp: normal_path_def spec_path_def starts_with_def)

section \<open>The invariant of the table\<close>

definition slot_path :: "OverlayFile \<Rightarrow> rstr option" where
  "slot_path e = (if used e then from_utf8 (take (path_len e) (file_path e)) else None)"

definition slot_text :: "OverlayFile \<Rightarrow> rstr option" where
  "slot_text e = (if used e then from_utf8 (take (contents_len e) (file_contents e)) else None)"

definition slot_ok :: "OverlayFile \<Rightarrow> bool" where
  "slot_ok e \<longleftrightarrow>
     length (file_path e) = MAX_PATH_LEN \<and> length (file_contents e) = MAX_CONTENT_LEN \<and>
     (used e \<longrightarrow> path_len e \<le> MAX_PATH_LEN \<and> contents_len e \<le> MAX_CONTENT_LEN \<and>
        (case slot_path e of None \<Rightarrow> False | Some p \<Rightarrow> normal_path p) \<and> slot_text e \<noteq> None)"

definition overlay_ok :: "OverlayFile list \<Rightarrow> bool" where
  "overlay_ok fs \<longleftrightarrow>
     length fs = MAX_OVERLAY_FILES \<and> list_all slot_ok fs \<and>
     (\<forall>i<length fs. \<forall>j<length fs.
        used (fs ! i) \<longrightarrow> used (fs ! j) \<longrightarrow> slot_path (fs ! i) = slot_path (fs ! j) \<longrightarrow> i = j)"

definition slot_of :: "OverlayFile list \<Rightarrow> rstr \<Rightarrow> nat option" where
  "slot_of fs p = find_index (\<lambda>e. slot_path e = Some p) fs"

text \<open>The table as a map from normal paths to texts.\<close>

definition abs_overlay :: "OverlayFile list \<Rightarrow> rstr \<Rightarrow> rstr option" where
  "abs_overlay fs p = (case slot_of fs p of None \<Rightarrow> None | Some i \<Rightarrow> slot_text (fs ! i))"

lemma slot_path_used: "slot_path e = Some p \<Longrightarrow> used e"
  by (simp add: slot_path_def split: if_splits)

lemma used_slot_path: "slot_ok e \<Longrightarrow> used e \<Longrightarrow> \<exists>p. slot_path e = Some p \<and> normal_path p"
  by (auto simp: slot_ok_def split: option.splits)

lemma used_slot_text: "slot_ok e \<Longrightarrow> used e \<Longrightarrow> \<exists>t. slot_text e = Some t"
  by (auto simp: slot_ok_def)

lemma slot_path_normal: "slot_ok e \<Longrightarrow> slot_path e = Some p \<Longrightarrow> normal_path p"
  using used_slot_path slot_path_used by fastforce

lemma slot_text_bytes:
  assumes "slot_ok e" and "slot_text e = Some t"
  shows "valid_str t" and "as_bytes t = take (contents_len e) (file_contents e)"
    and "str_len t = contents_len e" and "contents_len e \<le> MAX_CONTENT_LEN"
  using assms by (auto simp: slot_text_def slot_ok_def from_utf8_iff str_len_def split: if_splits)

lemma slot_ok_EMPTY [simp]: "slot_ok OverlayFile_EMPTY" "\<not> used OverlayFile_EMPTY"
  by (simp_all add: slot_ok_def OverlayFile_EMPTY_def)

lemma slot_path_EMPTY [simp]: "slot_path OverlayFile_EMPTY = None"
  by (simp add: slot_path_def)

lemma overlay_okD:
  assumes "overlay_ok fs"
  shows "length fs = MAX_OVERLAY_FILES" and "i < length fs \<Longrightarrow> slot_ok (fs ! i)"
    and "e \<in> set fs \<Longrightarrow> slot_ok e"
  using assms by (auto simp: overlay_ok_def list_all_iff)

lemma overlay_ok_inj:
  assumes "overlay_ok fs" and "i < length fs" and "j < length fs"
    and "slot_path (fs ! i) = Some p" and "slot_path (fs ! j) = Some p"
  shows "i = j"
  using assms slot_path_used [OF assms(4)] slot_path_used [OF assms(5)] by (simp add: overlay_ok_def)

lemma overlay_ok_empty: "overlay_ok empty_table"
  by (simp add: overlay_ok_def empty_table_def list_all_iff)

lemma slot_of_SomeD:
  "slot_of fs p = Some i \<Longrightarrow> i < length fs \<and> slot_path (fs ! i) = Some p"
  by (auto simp: slot_of_def dest: find_index_SomeD)

lemma slot_of_eq_Some_iff:
  assumes "overlay_ok fs"
  shows "slot_of fs p = Some i \<longleftrightarrow> i < length fs \<and> slot_path (fs ! i) = Some p"
  using slot_of_SomeD find_index_unique [of i fs "\<lambda>e. slot_path e = Some p"]
    overlay_ok_inj [OF assms] unfolding slot_of_def by blast

lemma abs_overlay_eq_Some_iff:
  assumes "overlay_ok fs"
  shows "abs_overlay fs p = Some t \<longleftrightarrow>
    (\<exists>i<length fs. slot_path (fs ! i) = Some p \<and> slot_text (fs ! i) = Some t)"
proof -
  have "abs_overlay fs p = Some t \<longleftrightarrow> (\<exists>i. slot_of fs p = Some i \<and> slot_text (fs ! i) = Some t)"
    by (auto simp: abs_overlay_def split: option.splits)
  then show ?thesis using slot_of_eq_Some_iff [OF assms] by blast
qed

lemma abs_overlay_SomeD:
  assumes "overlay_ok fs" and "abs_overlay fs p = Some t"
  shows "normal_path p" and "valid_str t" and "str_len t \<le> MAX_CONTENT_LEN"
proof -
  obtain i where i: "i < length fs" "slot_path (fs ! i) = Some p" "slot_text (fs ! i) = Some t"
    using assms abs_overlay_eq_Some_iff by auto
  note ok = overlay_okD(2) [OF assms(1) i(1)]
  show "normal_path p" by (rule slot_path_normal [OF ok i(2)])
  show "valid_str t" "str_len t \<le> MAX_CONTENT_LEN" using slot_text_bytes [OF ok i(3)] by simp_all
qed

lemma slot_of_None_iff:
  assumes "overlay_ok fs"
  shows "slot_of fs p = None \<longleftrightarrow> p \<notin> dom (abs_overlay fs)"
proof (cases "slot_of fs p")
  case (Some i)
  then have i: "i < length fs" "slot_path (fs ! i) = Some p" using slot_of_SomeD by auto
  then obtain t where "slot_text (fs ! i) = Some t"
    using used_slot_text overlay_okD(2) [OF assms] slot_path_used by blast
  with Some show ?thesis by (auto simp: abs_overlay_def)
qed (simp add: abs_overlay_def domIff)

lemma card_abs_overlay:
  assumes "overlay_ok fs"
  shows "card (dom (abs_overlay fs)) = length (filter used fs)"
proof -
  let ?U = "{i. i < length fs \<and> used (fs ! i)}"
  have "dom (abs_overlay fs) = (\<lambda>i. the (slot_path (fs ! i))) ` ?U" (is "_ = ?f ` _")
  proof (intro set_eqI iffI)
    fix p assume "p \<in> dom (abs_overlay fs)"
    then obtain i where "i < length fs" "slot_path (fs ! i) = Some p"
      using slot_of_None_iff [OF assms, of p] slot_of_SomeD by blast
    then show "p \<in> ?f ` ?U" using slot_path_used by force
  next
    fix p assume "p \<in> ?f ` ?U"
    then obtain i where i: "i < length fs" "used (fs ! i)" "p = the (slot_path (fs ! i))" by auto
    then have "slot_path (fs ! i) = Some p"
      using used_slot_path overlay_okD(2) [OF assms i(1)] by fastforce
    with i(1) show "p \<in> dom (abs_overlay fs)"
      using slot_of_None_iff [OF assms, of p] slot_of_eq_Some_iff [OF assms, of p i] by auto
  qed
  moreover have "inj_on ?f ?U"
    using assms used_slot_path overlay_okD(2) [OF assms]
    by (intro inj_onI) (metis (mono_tags, lifting) mem_Collect_eq option.sel overlay_ok_inj)
  ultimately show ?thesis by (simp add: card_image length_filter_conv_card)
qed

section \<open>The operations on a well-formed table\<close>

lemma find_slot_total:
  "\<forall>x\<in>set xs. P x = Inr (Q x) \<Longrightarrow> find_slot P xs = Inr (find_index Q xs)"
  by (induction xs) auto

lemma matches_spec:
  assumes "slot_ok e" and "valid_str p"
  shows "OverlayFile_matches (as_bytes p) e = Inr (slot_path e = Some p)"
proof (cases "used e")
  case True
  with assms(1) have le: "path_len e \<le> length (file_path e)" by (simp add: slot_ok_def)
  have m: "OverlayFile_matches (as_bytes p) e =
    Inr (path_len e = length (as_bytes p) \<and> take (path_len e) (file_path e) = as_bytes p)"
    using True le by (simp add: OverlayFile_matches_def panic_free)
  have len: "path_len e = length (as_bytes p)" if "take (path_len e) (file_path e) = as_bytes p"
    using le that [symmetric] by simp
  have "slot_path e = Some p \<longleftrightarrow> take (path_len e) (file_path e) = as_bytes p"
    using True assms(2) by (auto simp: slot_path_def from_utf8_iff)
  then have "(path_len e = length (as_bytes p) \<and> take (path_len e) (file_path e) = as_bytes p) \<longleftrightarrow>
      slot_path e = Some p" using len by blast
  then show ?thesis unfolding m by (rule arg_cong)
qed (simp add: OverlayFile_matches_def slot_path_def)

lemma find_slot_matches [simp]:
  assumes "overlay_ok fs" and "valid_str p"
  shows "find_slot (OverlayFile_matches (as_bytes p)) fs = Inr (slot_of fs p)"
  unfolding slot_of_def
  by (rule find_slot_total) (simp add: matches_spec overlay_okD(3) [OF assms(1)] assms(2))

lemma find_initramfs: "initramfs_map p = map_option init_contents (vfs_find p)"
  unfolding vfs_find_def initramfs_map_def map_of_find_index by (auto split: option.splits)

lemma find_initramfs_None: "vfs_find p = None \<longleftrightarrow> initramfs_map p = None"
  by (simp add: find_initramfs)

lemma read_overlay_spec:
  assumes "overlay_ok fs" and "valid_str p"
  shows "read_overlay p fs = Inr (map_option (\<lambda>i. OverlayRef i (contents_len (fs ! i))) (slot_of fs p))"
proof (cases "slot_of fs p")
  case (Some i)
  then have i: "i < length fs" "slot_path (fs ! i) = Some p" using slot_of_SomeD by auto
  note ok = overlay_okD(2) [OF assms(1) i(1)]
  obtain t where t: "slot_text (fs ! i) = Some t"
    using used_slot_text [OF ok slot_path_used [OF i(2)]] by blast
  then have "from_utf8 (take (contents_len (fs ! i)) (file_contents (fs ! i))) = Some t"
    by (simp add: slot_text_def split: if_splits)
  with Some assms slot_text_bytes(4) [OF ok t] ok show ?thesis
    by (simp add: read_overlay_def OverlayFile_contents_bytes_def panic_free slot_ok_def)
qed (use assms in \<open>simp add: read_overlay_def\<close>)

text \<open>Reading through a fresh reference shows the text of the abstract map.\<close>

lemma deref_overlay:
  assumes "overlay_ok fs" and "slot_of fs p = Some i"
  shows "map_option as_bytes (abs_overlay fs p) = Some (deref fs (OverlayRef i (contents_len (fs ! i))))"
proof -
  have i: "i < length fs" "slot_path (fs ! i) = Some p" using slot_of_SomeD [OF assms(2)] by auto
  note ok = overlay_okD(2) [OF assms(1) i(1)]
  obtain t where t: "slot_text (fs ! i) = Some t"
    using used_slot_text [OF ok slot_path_used [OF i(2)]] by blast
  with assms(2) slot_text_bytes(2) [OF ok t] show ?thesis by (simp add: abs_overlay_def)
qed

definition vfs_view :: "OverlayFile list \<Rightarrow> rstr \<Rightarrow> rstr option" where
  "vfs_view fs = initramfs_map ++ abs_overlay fs"

lemma initramfs_text_valid: "initramfs_map p = Some t \<Longrightarrow> valid_str t"
  unfolding initramfs_map_def by (auto dest!: map_of_SomeD intro: valid_files)

lemma read_spec:
  assumes "overlay_ok fs" and "valid_str p"
  shows "\<exists>r. vfs_read p fs = Inr r \<and>
    map_option (deref fs) r =
      (case spec_path p of Inl _ \<Rightarrow> None | Inr k \<Rightarrow> map_option as_bytes (vfs_view fs k))"
proof (cases "spec_path p")
  case (Inl e)
  with assms show ?thesis by (simp add: vfs_read_def normalize_path_spec)
next
  case (Inr k)
  then have k: "valid_str k" using spec_path_normal [OF assms(2)] by (simp add: normal_path_def)
  note eq = vfs_read_def normalize_path_spec read_overlay_spec vfs_view_def
  show ?thesis
  proof (cases "slot_of fs k")
    case None
    then have "abs_overlay fs k = None" by (simp add: abs_overlay_def)
    with None Inr k assms find_initramfs [of k] show ?thesis
      by (cases "vfs_find k") (auto simp: eq map_add_def)
  next
    case (Some i)
    with deref_overlay [OF assms(1) Some] Inr k assms show ?thesis by (auto simp: eq)
  qed
qed

lemma exists_spec:
  assumes "overlay_ok fs" and "valid_str p"
  shows "vfs_exists p fs =
    Inr (case spec_path p of Inl _ \<Rightarrow> False | Inr k \<Rightarrow> vfs_view fs k \<noteq> None)"
proof (cases "spec_path p")
  case (Inr k)
  then have k: "valid_str k" using spec_path_normal [OF assms(2)] by (simp add: normal_path_def)
  then show ?thesis using Inr assms slot_of_None_iff [OF assms(1), of k] find_initramfs_None [of k]
    by (auto simp: vfs_exists_def normalize_path_spec read_overlay_spec vfs_view_def domIff)
qed (use assms in \<open>simp add: vfs_exists_def normalize_path_spec\<close>)

lemma slot_write_spec:
  assumes "slot_ok e" and "normal_path p" and "valid_str t" and "str_len t \<le> MAX_CONTENT_LEN"
  obtains e' where "OverlayFile_write p (as_bytes t) e = Inr e'" and "slot_ok e'"
    and "slot_path e' = Some p" and "slot_text e' = Some t" and "used e'"
proof -
  have len: "length (as_bytes p) \<le> length (file_path e)" "length (as_bytes t) \<le> length (file_contents e)"
    using assms by (auto simp: slot_ok_def normal_path_def str_len_def)
  let ?e = "\<lparr>used = True, path_len = str_len p, contents_len = length (as_bytes t),
    file_path = as_bytes p @ drop (length (as_bytes p)) (file_path e),
    file_contents = as_bytes t @ drop (length (as_bytes t)) (file_contents e)\<rparr>"
  have "slot_path ?e = Some p" "slot_text ?e = Some t"
    using assms by (simp_all add: slot_path_def slot_text_def str_len_def normal_path_def)
  moreover from this have "slot_ok ?e"
    using assms len by (auto simp: slot_ok_def normal_path_def str_len_def)
  ultimately show thesis
    using that [of ?e] len by (simp add: OverlayFile_write_def panic_free)
qed

lemma update_slot:
  assumes ok: "overlay_ok fs" and i: "i < length fs" and e: "slot_ok e"
    and free: "slot_of fs p = Some i \<or> slot_of fs p = None \<and> \<not> used (fs ! i)"
    and new: "slot_path e = Some p" "slot_text e = Some t"
  shows "overlay_ok (fs[i := e])" and "abs_overlay (fs[i := e]) = (abs_overlay fs)(p \<mapsto> t)"
proof -
  have others: "slot_path (fs ! j) \<noteq> Some p" if "j < length fs" "j \<noteq> i" for j
    using that free slot_of_eq_Some_iff [OF ok, of p i] slot_of_eq_Some_iff [OF ok, of p j] by auto
  have inj: "j = k"
    if "j < length fs" "k < length fs" "slot_path (fs[i := e] ! j) = Some q" "slot_path (fs[i := e] ! k) = Some q"
    for j k q
    using that others [of j] others [of k] new i overlay_ok_inj [OF ok, of j k q]
    by (cases "j = i"; cases "k = i") simp_all
  have slots: "slot_ok (fs[i := e] ! j)" if "j < length fs" for j
    using overlay_okD(2) [OF ok that] e that by (cases "j = i") simp_all
  show ok': "overlay_ok (fs[i := e])"
    unfolding overlay_ok_def
  proof (intro conjI allI impI)
    show "length (fs[i := e]) = MAX_OVERLAY_FILES" using overlay_okD(1) [OF ok] by simp
    show "list_all slot_ok (fs[i := e])" using slots by (simp add: list_all_length)
    fix j k
    assume jk: "j < length (fs[i := e])" "k < length (fs[i := e])" "used (fs[i := e] ! j)"
      "slot_path (fs[i := e] ! j) = slot_path (fs[i := e] ! k)"
    have j: "j < length fs" "k < length fs" using jk(1,2) by simp_all
    from used_slot_path [OF slots [OF j(1)] jk(3)]
    obtain q where q: "slot_path (fs[i := e] ! j) = Some q" by blast
    show "j = k" by (rule inj [OF j q q [unfolded jk(4)]])
  qed
  have at: "abs_overlay (fs[i := e]) q = Some u \<longleftrightarrow> ((abs_overlay fs)(p \<mapsto> t)) q = Some u" for q u
  proof (cases "q = p")
    case True
    have "slot_of (fs[i := e]) p = Some i" using slot_of_eq_Some_iff [OF ok', of p i] i new by simp
    then show ?thesis using True i new by (simp add: abs_overlay_def)
  next
    case False
    have "slot_path (fs ! i) \<noteq> Some q"
      using free slot_of_SomeD [of fs p i] False slot_path_used [of "fs ! i" q] by auto
    then have "slot_path (fs[i := e] ! j) = Some q \<and> slot_text (fs[i := e] ! j) = Some u \<longleftrightarrow>
               slot_path (fs ! j) = Some q \<and> slot_text (fs ! j) = Some u" if "j < length fs" for j
      using that new False by (cases "j = i") auto
    then show ?thesis
      using False abs_overlay_eq_Some_iff [OF ok', of q u] abs_overlay_eq_Some_iff [OF ok, of q u]
      by auto
  qed
  show "abs_overlay (fs[i := e]) = (abs_overlay fs)(p \<mapsto> t)"
  proof
    show "abs_overlay (fs[i := e]) q = ((abs_overlay fs)(p \<mapsto> t)) q" for q
      using at [of q] by (metis not_None_eq)
  qed
qed

lemma clear_slot:
  assumes ok: "overlay_ok fs" and i: "slot_of fs p = Some i"
  shows "overlay_ok (fs[i := OverlayFile_EMPTY])"
    and "abs_overlay (fs[i := OverlayFile_EMPTY]) = (abs_overlay fs)(p := None)"
proof -
  let ?g = "fs[i := OverlayFile_EMPTY]"
  have ip: "i < length fs" "slot_path (fs ! i) = Some p" using slot_of_SomeD [OF i] by auto
  have nth: "?g ! j = (if j = i then OverlayFile_EMPTY else fs ! j)" if "j < length fs" for j
    using that by auto
  show ok': "overlay_ok ?g"
    unfolding overlay_ok_def
  proof (intro conjI allI impI)
    show "length ?g = MAX_OVERLAY_FILES" using overlay_okD(1) [OF ok] by simp
    show "list_all slot_ok ?g"
      using overlay_okD(2) [OF ok] by (simp add: list_all_length nth)
    fix j k
    assume "j < length ?g" "k < length ?g" "used (?g ! j)" "used (?g ! k)"
      "slot_path (?g ! j) = slot_path (?g ! k)"
    then show "j = k" using ok nth by (auto simp: overlay_ok_def split: if_splits)
  qed
  have "abs_overlay ?g q = Some u \<longleftrightarrow> ((abs_overlay fs)(p := None)) q = Some u" for q u
  proof (cases "q = p")
    case True
    have "slot_path (?g ! j) \<noteq> Some p" if "j < length fs" for j
      using nth [OF that] overlay_ok_inj [OF ok that ip(1), of p] ip(2) by (cases "j = i") auto
    then show ?thesis using True abs_overlay_eq_Some_iff [OF ok', of q u] by auto
  next
    case False
    then have "slot_path (?g ! j) = Some q \<and> slot_text (?g ! j) = Some u \<longleftrightarrow>
               slot_path (fs ! j) = Some q \<and> slot_text (fs ! j) = Some u" if "j < length fs" for j
      using nth [OF that] ip(2) by (cases "j = i") auto
    then show ?thesis
      using False abs_overlay_eq_Some_iff [OF ok', of q u] abs_overlay_eq_Some_iff [OF ok, of q u]
      by auto
  qed
  then show "abs_overlay ?g = (abs_overlay fs)(p := None)"
    by (intro ext) (metis not_None_eq)
qed

lemma free_slot_iff:
  assumes "overlay_ok fs"
  shows "find_index (\<lambda>e. \<not> used e) fs = None \<longleftrightarrow> card (dom (abs_overlay fs)) = MAX_OVERLAY_FILES"
proof -
  have "(\<forall>x\<in>set fs. used x) \<longleftrightarrow> length (filter used fs) = length fs"
    by (metis filter_True length_filter_less less_irrefl)
  then show ?thesis
    by (simp add: find_index_None_iff card_abs_overlay [OF assms] overlay_okD(1) [OF assms])
qed

lemma card_abs_overlay_le: "overlay_ok fs \<Longrightarrow> card (dom (abs_overlay fs)) \<le> MAX_OVERLAY_FILES"
  by (metis card_abs_overlay length_filter_le overlay_okD(1))

section \<open>The abstract file system\<close>

text \<open>
  The contract of the component: a map from paths to texts with room for eight entries, shown over
  the read-only files.  Reads are the texts a caller sees when it uses the returned reference at
  once, as the shell's \<open>cat\<close> does.
\<close>

datatype fs_call = Write rstr rstr | Remove rstr | Read rstr | Exists rstr

datatype fs_reply = Done "VfsError + unit" | Text "rstr option" | Present bool

fun spec_call :: "(rstr \<Rightarrow> rstr option) \<Rightarrow> fs_call \<Rightarrow> (rstr \<Rightarrow> rstr option) \<Rightarrow> fs_reply \<times> (rstr \<Rightarrow> rstr option)" where
  "spec_call base (Write p t) m =
     (case spec_path p of
        Inl e \<Rightarrow> (Done (Inl e), m)
      | Inr k \<Rightarrow>
          if str_len t > MAX_CONTENT_LEN then (Done (Inl ContentTooLong), m)
          else if k \<in> dom m \<or> card (dom m) < MAX_OVERLAY_FILES then (Done (Inr ()), m(k \<mapsto> t))
          else (Done (Inl NoSpace), m))"
| "spec_call base (Remove p) m =
     (case spec_path p of
        Inl e \<Rightarrow> (Done (Inl e), m)
      | Inr k \<Rightarrow>
          if k \<in> dom m then (Done (Inr ()), m(k := None))
          else (Done (Inl (if k \<in> dom base then ReadOnly else NotFound)), m))"
| "spec_call base (Read p) m =
     (Text (case spec_path p of Inl _ \<Rightarrow> None | Inr k \<Rightarrow> (base ++ m) k), m)"
| "spec_call base (Exists p) m =
     (Present (case spec_path p of Inl _ \<Rightarrow> False | Inr k \<Rightarrow> k \<in> dom (base ++ m)), m)"

fun fs_call_ok :: "fs_call \<Rightarrow> bool" where
  "fs_call_ok (Write p t) \<longleftrightarrow> valid_str p \<and> valid_str t"
| "fs_call_ok (Remove p) \<longleftrightarrow> valid_str p"
| "fs_call_ok (Read p) \<longleftrightarrow> valid_str p"
| "fs_call_ok (Exists p) \<longleftrightarrow> valid_str p"

text \<open>The same calls on the table of slots.\<close>

fun vfs_call :: "fs_call \<Rightarrow> OverlayFile list \<Rightarrow> (fs_reply \<times> OverlayFile list) res" where
  "vfs_call (Write p t) fs = rbind (vfs_write p t fs) (\<lambda>(r, fs'). Inr (Done r, fs'))"
| "vfs_call (Remove p) fs = rbind (vfs_remove p fs) (\<lambda>(r, fs'). Inr (Done r, fs'))"
| "vfs_call (Read p) fs =
     rbind (vfs_read p fs) (\<lambda>r.
       Inr (Text (case r of None \<Rightarrow> None | Some ref \<Rightarrow> from_utf8 (deref fs ref)), fs))"
| "vfs_call (Exists p) fs = rbind (vfs_exists p fs) (\<lambda>b. Inr (Present b, fs))"

lemma store_slot_spec:
  assumes ok: "overlay_ok fs" and i: "i < length fs"
    and free: "slot_of fs k = Some i \<or> slot_of fs k = None \<and> \<not> used (fs ! i)"
    and k: "normal_path k" and t: "valid_str t" "str_len t \<le> MAX_CONTENT_LEN"
  shows "\<exists>fs'. store_slot i k (as_bytes t) fs = Inr fs' \<and> overlay_ok fs' \<and>
    abs_overlay fs' = (abs_overlay fs)(k \<mapsto> t)"
proof -
  obtain e where "OverlayFile_write k (as_bytes t) (fs ! i) = Inr e" "slot_ok e"
    "slot_path e = Some k" "slot_text e = Some t"
    using slot_write_spec [OF overlay_okD(2) [OF ok i] k t] by metis
  with update_slot [OF ok i _ free] show ?thesis by (auto simp: store_slot_def)
qed

lemma write_sim:
  assumes ok: "overlay_ok fs" and v: "valid_str p" "valid_str t"
  shows "\<exists>fs'. vfs_call (Write p t) fs = Inr (fst (spec_call base (Write p t) (abs_overlay fs)), fs') \<and>
    overlay_ok fs' \<and> abs_overlay fs' = snd (spec_call base (Write p t) (abs_overlay fs))"
proof (cases "spec_path p")
  case (Inl e)
  with assms show ?thesis by (simp add: vfs_write_def normalize_path_spec)
next
  case (Inr k)
  note k = spec_path_normal [OF v(1) Inr]
  then have vk: "valid_str k" by (simp add: normal_path_def)
  note eq = vfs_write_def normalize_path_spec str_len_def [symmetric]
  show ?thesis
  proof (cases "str_len t > MAX_CONTENT_LEN")
    case True
    with Inr assms show ?thesis by (simp add: eq)
  next
    case short: False
    show ?thesis
    proof (cases "slot_of fs k")
      case (Some i)
      with store_slot_spec [OF ok _ _ k v(2), of i] slot_of_SomeD [OF Some] short
      obtain fs' where "store_slot i k (as_bytes t) fs = Inr fs'" "overlay_ok fs'"
        "abs_overlay fs' = (abs_overlay fs)(k \<mapsto> t)" by auto
      moreover have "k \<in> dom (abs_overlay fs)" using Some slot_of_None_iff [OF ok, of k] by simp
      ultimately show ?thesis using Inr v ok vk short Some by (simp add: eq)
    next
      case None
      then have nk: "k \<notin> dom (abs_overlay fs)" using slot_of_None_iff [OF ok, of k] by simp
      show ?thesis
      proof (cases "find_index (\<lambda>e. \<not> used e) fs")
        case full: None
        then have "card (dom (abs_overlay fs)) = MAX_OVERLAY_FILES" using free_slot_iff [OF ok] by simp
        with full Inr v ok vk short None nk show ?thesis by (simp add: eq)
      next
        case (Some i)
        then have "i < length fs" "\<not> used (fs ! i)" using find_index_SomeD by fastforce+
        with store_slot_spec [OF ok _ _ k v(2), of i] short None
        obtain fs' where "store_slot i k (as_bytes t) fs = Inr fs'" "overlay_ok fs'"
          "abs_overlay fs' = (abs_overlay fs)(k \<mapsto> t)" by auto
        moreover have "card (dom (abs_overlay fs)) < MAX_OVERLAY_FILES"
          using Some free_slot_iff [OF ok] card_abs_overlay_le [OF ok] by force
        ultimately show ?thesis using Inr v ok vk short None Some by (simp add: eq)
      qed
    qed
  qed
qed

lemma remove_sim:
  assumes ok: "overlay_ok fs" and v: "valid_str p"
  shows "\<exists>fs'. vfs_call (Remove p) fs =
      Inr (fst (spec_call initramfs_map (Remove p) (abs_overlay fs)), fs') \<and>
    overlay_ok fs' \<and> abs_overlay fs' = snd (spec_call initramfs_map (Remove p) (abs_overlay fs))"
proof (cases "spec_path p")
  case (Inl e)
  with assms show ?thesis by (simp add: vfs_remove_def normalize_path_spec)
next
  case (Inr k)
  then have vk: "valid_str k" using spec_path_normal [OF v Inr] by (simp add: normal_path_def)
  show ?thesis
  proof (cases "slot_of fs k")
    case None
    then have "k \<notin> dom (abs_overlay fs)" using slot_of_None_iff [OF ok, of k] by simp
    with None Inr v ok vk find_initramfs_None [of k] show ?thesis
      by (auto simp: vfs_remove_def normalize_path_spec domIff)
  next
    case (Some i)
    then have "k \<in> dom (abs_overlay fs)" using slot_of_None_iff [OF ok, of k] by simp
    with Some Inr v ok vk clear_slot [OF ok Some] show ?thesis
      by (auto simp: vfs_remove_def normalize_path_spec)
  qed
qed

lemma view_text_valid: "overlay_ok fs \<Longrightarrow> vfs_view fs k = Some t \<Longrightarrow> valid_str t"
  by (auto simp: vfs_view_def map_add_Some_iff dest: abs_overlay_SomeD(2) initramfs_text_valid)

lemma read_sim:
  assumes ok: "overlay_ok fs" and v: "valid_str p"
  shows "vfs_call (Read p) fs = Inr (fst (spec_call initramfs_map (Read p) (abs_overlay fs)), fs)"
proof -
  obtain r where r: "vfs_read p fs = Inr r" "map_option (deref fs) r =
      (case spec_path p of Inl _ \<Rightarrow> None | Inr k \<Rightarrow> map_option as_bytes (vfs_view fs k))"
    using read_spec [OF assms] by blast
  have "(case r of None \<Rightarrow> None | Some ref \<Rightarrow> from_utf8 (deref fs ref)) =
      (case spec_path p of Inl _ \<Rightarrow> None | Inr k \<Rightarrow> vfs_view fs k)"
  proof (cases "spec_path p")
    case (Inr k)
    show ?thesis
    proof (cases "vfs_view fs k")
      case (Some t)
      with Inr r(2) obtain ref where "r = Some ref" "deref fs ref = as_bytes t" by auto
      with Some Inr view_text_valid [OF ok Some] show ?thesis by simp
    qed (use Inr r(2) in simp)
  qed (use r(2) in simp)
  with r(1) show ?thesis by (simp add: vfs_view_def cong: sum.case_cong)
qed

lemma vfs_call_sim:
  assumes "overlay_ok fs" and "fs_call_ok c"
  shows "\<exists>fs'. vfs_call c fs = Inr (fst (spec_call initramfs_map c (abs_overlay fs)), fs') \<and>
    overlay_ok fs' \<and> abs_overlay fs' = snd (spec_call initramfs_map c (abs_overlay fs))"
proof (cases c)
  case (Write p t)
  with assms show ?thesis using write_sim by auto
next
  case (Remove p)
  with assms show ?thesis using remove_sim by auto
next
  case (Read p)
  with assms show ?thesis using read_sim [of fs p] by auto
next
  case (Exists p)
  with assms show ?thesis
    using exists_spec [of fs p] by (auto simp: vfs_view_def domIff split: sum.splits)
qed

interpretation vfs: call_simulation vfs_call "spec_call initramfs_map" overlay_ok abs_overlay fs_call_ok
  by unfold_locales (rule vfs_call_sim)

section \<open>Listing\<close>

lemma overlay_entries_spec:
  "\<forall>e\<in>set es. slot_ok e \<Longrightarrow> overlay_entries es = Inr (map (the \<circ> slot_path) (filter used es))"
proof (induction es)
  case (Cons e es)
  show ?case
  proof (cases "used e")
    case True
    then obtain p where "slot_path e = Some p" using used_slot_path Cons.prems by auto
    moreover have "OverlayFile_path e = Inr (slot_path e)"
      using True Cons.prems by (simp add: OverlayFile_path_def slot_path_def slot_ok_def panic_free)
    ultimately show ?thesis using True Cons by simp
  qed (use Cons in simp)
qed simp

lemma initramfs_entries_spec:
  assumes "overlay_ok fs" and "\<forall>f\<in>set gs. valid_str (init_path f)"
  shows "initramfs_entries fs gs =
    Inr (filter (\<lambda>p. p \<notin> dom (abs_overlay fs)) (map init_path gs))"
  using assms(2)
  by (induction gs) (auto simp: assms(1) slot_of_None_iff [OF assms(1), symmetric])

lemma set_used_paths:
  assumes "overlay_ok fs"
  shows "set (map (the \<circ> slot_path) (filter used fs)) = dom (abs_overlay fs)"
proof -
  have "p \<in> dom (abs_overlay fs) \<longleftrightarrow> (\<exists>i<length fs. slot_path (fs ! i) = Some p)" for p
    using slot_of_None_iff [OF assms, of p] slot_of_eq_Some_iff [OF assms, of p]
    by (cases "slot_of fs p") auto
  moreover have "p \<in> set (map (the \<circ> slot_path) (filter used fs)) \<longleftrightarrow>
      (\<exists>i<length fs. slot_path (fs ! i) = Some p)" for p
    using used_slot_path overlay_okD(2) [OF assms] slot_path_used
    by (fastforce simp: in_set_conv_nth image_iff)
  ultimately show ?thesis by blast
qed

lemma distinct_used_paths:
  assumes "overlay_ok fs"
  shows "distinct (map (the \<circ> slot_path) (filter used fs))"
proof (rule card_distinct)
  show "card (set (map (the \<circ> slot_path) (filter used fs))) =
        length (map (the \<circ> slot_path) (filter used fs))"
    using card_abs_overlay [OF assms] set_used_paths [OF assms] by simp
qed

lemma for_each_entry_spec:
  assumes "overlay_ok fs"
  shows "\<exists>ps. for_each_entry fs = Inr ps \<and> distinct ps \<and> set ps = dom (vfs_view fs)"
proof -
  let ?over = "map (the \<circ> slot_path) (filter used fs)"
  let ?base = "filter (\<lambda>p. p \<notin> dom (abs_overlay fs)) (map init_path files)"
  have "for_each_entry fs = Inr (?over @ ?base)"
    using assms overlay_entries_spec [of fs] initramfs_entries_spec [of fs files]
    by (simp add: for_each_entry_def overlay_okD valid_files)
  moreover have "distinct (?over @ ?base)"
    using distinct_used_paths [OF assms] set_used_paths [OF assms] distinct_files by auto
  moreover have "set (?over @ ?base) = dom (vfs_view fs)"
    unfolding set_append set_used_paths [OF assms]
    by (auto simp: vfs_view_def dom_initramfs_map)
  ultimately show ?thesis by blast
qed

section \<open>Properties\<close>

lemma abs_overlay_empty: "abs_overlay empty_table = Map.empty"
proof -
  have "slot_of empty_table p = None" for p
    by (simp add: slot_of_def find_index_None_iff empty_table_def)
  then show ?thesis by (simp add: abs_overlay_def fun_eq_iff)
qed

lemma initialized_table [simp]: "writable_files (vfs_initialize vfs_static) = empty_table"
  by (simp add: vfs_initialize_def vfs_static_def)

lemma zero_buffer [simp]: "length (replicate MAX_PATH_LEN (0 :: u8)) = MAX_PATH_LEN"
  by simp

lemma write_OkD:
  assumes "overlay_ok fs" "valid_str p" "valid_str t" "vfs_write p t fs = Inr (Inr (), fs')"
  obtains k where "spec_path p = Inr k" "overlay_ok fs'" "abs_overlay fs' = (abs_overlay fs)(k \<mapsto> t)"
proof -
  have "fst (spec_call initramfs_map (Write p t) (abs_overlay fs)) = Done (Inr ())" "overlay_ok fs'"
    "abs_overlay fs' = snd (spec_call initramfs_map (Write p t) (abs_overlay fs))"
    using write_sim [OF assms(1-3), of initramfs_map] assms(4) by auto
  then show thesis using that by (auto split: sum.splits if_splits)
qed

lemma remove_OkD:
  assumes "overlay_ok fs" "valid_str p" "vfs_remove p fs = Inr (Inr (), fs')"
  obtains k where "spec_path p = Inr k" "overlay_ok fs'" "abs_overlay fs' = (abs_overlay fs)(k := None)"
proof -
  have "fst (spec_call initramfs_map (Remove p) (abs_overlay fs)) = Done (Inr ())" "overlay_ok fs'"
    "abs_overlay fs' = snd (spec_call initramfs_map (Remove p) (abs_overlay fs))"
    using remove_sim [OF assms(1,2)] assms(3) by auto
  then show thesis using that by (auto split: sum.splits if_splits)
qed

lemma write_error_keeps:
  assumes "overlay_ok fs" "valid_str p" "vfs_write p t fs = Inr (Inl e, fs')"
  shows "fs' = fs"
  using assms
  by (auto simp: vfs_write_def normalize_path_spec split: sum.splits if_splits option.splits
      elim!: rbind_eq_InrE)

text \<open>Small concrete paths and texts for the witnesses.\<close>

lemmas path_eval = spec_path_def trim_def lit_def is_whitespace_def starts_with_def slash_def
  str_len_ascii MAX_PATH_LEN_def

lemma spec_path_a:
  "spec_path (lit ''a'') = Inr (lit ''/a'')" "spec_path (lit '' /a '') = Inr (lit ''/a'')"
  "spec_path (lit ''b'') = Inr (lit ''/b'')" "spec_path (lit ''STATUS.TXT'') = Inr (lit ''/STATUS.TXT'')"
  by (simp_all add: path_eval)

lemma len_small: "str_len (lit ''hi'') = 2" "str_len [0xE9] = 2" "str_len (lit ''x'') = 1"
  by (simp_all add: lit_def str_len_def as_bytes_def encode_char.simps)

lemma initramfs_a: "initramfs_map (lit ''/a'') = None"
proof -
  have "lit ''/a'' \<notin> dom initramfs_map" unfolding dom_initramfs_map files_paths by simp
  then show ?thesis by blast
qed

lemma write_a:
  assumes "overlay_ok fs" "card (dom (abs_overlay fs)) < MAX_OVERLAY_FILES" "valid_str t"
    "str_len t \<le> MAX_CONTENT_LEN"
  obtains fs' where "vfs_write (lit ''a'') t fs = Inr (Inr (), fs')" "overlay_ok fs'"
    "abs_overlay fs' = (abs_overlay fs)(lit ''/a'' \<mapsto> t)"
  using write_sim [OF assms(1) valid_str_lit assms(3), of "''a''" Map.empty] assms that
  by (auto simp: spec_path_a elim!: rbind_eq_InrE split: if_splits)

lemma remove_a:
  assumes "overlay_ok fs" "lit ''/a'' \<in> dom (abs_overlay fs)"
  obtains fs' where "vfs_remove (lit ''a'') fs = Inr (Inr (), fs')"
  using remove_sim [OF assms(1) valid_str_lit, of "''a''"] assms that
  by (auto simp: spec_path_a elim!: rbind_eq_InrE split: if_splits)

lemmas write_a_empty = write_a [OF overlay_ok_empty]

text \<open>(C6) The file system implements its contract: starting from the table that
  \<open>initialize\<close> sets up, any sequence of \<open>write\<close>, \<open>remove\<close>, \<open>read\<close> and \<open>exists\<close> calls
  runs without a panic (no slice or copy is out of range), keeps the table well formed, and returns
  call by call what a map from paths to texts with eight entries over the initramfs returns, errors
  included.\<close>

theorem vfs_refines_map:
  assumes "list_all fs_call_ok cs"
  shows "\<exists>fs. run_calls vfs_call cs (writable_files (vfs_initialize vfs_static)) =
      Inr (fst (run_spec (spec_call initramfs_map) cs Map.empty), fs) \<and>
    overlay_ok fs \<and> abs_overlay fs = snd (run_spec (spec_call initramfs_map) cs Map.empty)"
  using vfs.run_sim [OF overlay_ok_empty assms] by (simp add: abs_overlay_empty)

theorem vfs_refines_map_witness:
  "\<exists>fs. run_calls vfs_call
      [Write (lit ''a'') (lit ''hi''), Read (lit '' /a ''), Remove (lit ''a''), Read (lit ''a''),
       Remove (lit ''a''), Remove (lit ''STATUS.TXT''), Read []]
      (writable_files (vfs_initialize vfs_static)) =
    Inr ([Done (Inr ()), Text (Some (lit ''hi'')), Done (Inr ()), Text None,
          Done (Inl NotFound), Done (Inl ReadOnly), Text None], fs)"
proof -
  have "lit ''/STATUS.TXT'' \<in> dom initramfs_map" unfolding dom_initramfs_map files_paths by simp
  moreover have "spec_path [] = Inl InvalidPath" by (simp add: spec_path_def trim_def)
  ultimately show ?thesis
    using vfs_refines_map [of "[Write (lit ''a'') (lit ''hi''), Read (lit '' /a ''), Remove (lit ''a''),
        Read (lit ''a''), Remove (lit ''a''), Remove (lit ''STATUS.TXT''), Read []]"]
    by (auto simp: spec_path_a initramfs_a len_small vfs_limits Let_def)
qed

text \<open>\<open>for_each_entry\<close> never panics and visits every file of the view exactly once: the
  writable files, then the initramfs files that are not overwritten.\<close>

theorem vfs_listing_complete:
  assumes "list_all fs_call_ok cs"
    and "run_calls vfs_call cs (writable_files (vfs_initialize vfs_static)) = Inr (rs, fs)"
  shows "\<exists>ps. for_each_entry fs = Inr ps \<and> distinct ps \<and> set ps = dom (vfs_view fs)"
  using for_each_entry_spec vfs.run_inv [OF overlay_ok_empty assms(1)] assms(2) by simp

theorem vfs_listing_complete_witness:
  "\<exists>rs fs ps. run_calls vfs_call [Write (lit ''a'') (lit ''hi'')]
      (writable_files (vfs_initialize vfs_static)) = Inr (rs, fs) \<and>
    for_each_entry fs = Inr ps \<and> distinct ps \<and> set ps = dom (vfs_view fs)"
proof -
  obtain fs where "vfs_write (lit ''a'') (lit ''hi'') empty_table = Inr (Inr (), fs)"
    using write_a_empty [of "lit ''hi''"] by (auto simp: abs_overlay_empty len_small vfs_limits)
  then have run: "run_calls vfs_call [Write (lit ''a'') (lit ''hi'')]
      (writable_files (vfs_initialize vfs_static)) = Inr ([Done (Inr ())], fs)" by simp
  with vfs_listing_complete [OF _ run] show ?thesis by auto
qed

text \<open>After a successful \<open>write\<close> of \<open>t\<close> to \<open>p\<close>, reading any path with the same normal
  form shows exactly the bytes of \<open>t\<close>, and reading any other path shows what it showed
  before.\<close>

theorem vfs_write_then_read:
  assumes ok: "overlay_ok fs" and v: "valid_str p" "valid_str t" "valid_str q"
    and w: "vfs_write p t fs = Inr (Inr (), fs')" and buf: "length b = MAX_PATH_LEN"
  shows "\<exists>r r'. vfs_read q fs = Inr r \<and> vfs_read q fs' = Inr r' \<and>
    map_option (deref fs') r' =
      (if normalize_path q b = normalize_path p b then Some (as_bytes t) else map_option (deref fs) r)"
proof -
  obtain k where k: "spec_path p = Inr k" "overlay_ok fs'" "abs_overlay fs' = (abs_overlay fs)(k \<mapsto> t)"
    using write_OkD [OF ok v(1,2) w] .
  have view: "vfs_view fs' = (vfs_view fs)(k \<mapsto> t)" by (simp add: vfs_view_def k(3))
  obtain r r' where "vfs_read q fs = Inr r" "map_option (deref fs) r =
      (case spec_path q of Inl _ \<Rightarrow> None | Inr k \<Rightarrow> map_option as_bytes (vfs_view fs k))"
    and "vfs_read q fs' = Inr r'" "map_option (deref fs') r' =
      (case spec_path q of Inl _ \<Rightarrow> None | Inr k \<Rightarrow> map_option as_bytes (vfs_view fs' k))"
    using read_spec [OF ok v(3)] read_spec [OF k(2) v(3)] by metis
  then show ?thesis
    using k(1) view v buf by (auto simp: normalize_path_spec split: sum.splits)
qed

theorem vfs_write_then_read_witness:
  "\<exists>fs' r'. vfs_write (lit ''a'') (lit ''hi'') empty_table = Inr (Inr (), fs') \<and>
    vfs_read (lit '' /a '') fs' = Inr r' \<and> map_option (deref fs') r' = Some (as_bytes (lit ''hi''))"
proof -
  obtain fs' where w: "vfs_write (lit ''a'') (lit ''hi'') empty_table = Inr (Inr (), fs')"
    using write_a_empty [of "lit ''hi''"] by (auto simp: abs_overlay_empty len_small vfs_limits)
  from vfs_write_then_read [OF overlay_ok_empty valid_str_lit valid_str_lit valid_str_lit w zero_buffer,
      of "'' /a ''"] w
  show ?thesis by (auto simp: normalize_path_spec spec_path_a)
qed

text \<open>A successful \<open>remove\<close> takes away only the writable copy: reading the path again
  shows the initramfs file of that name, or nothing, and a second \<open>remove\<close> reports
  \<open>ReadOnly\<close> or \<open>NotFound\<close> accordingly and changes nothing.\<close>

theorem vfs_remove_reveals_initramfs:
  assumes ok: "overlay_ok fs" and v: "valid_str p" and r: "vfs_remove p fs = Inr (Inr (), fs')"
  shows "\<exists>k ref. normalize_path p (replicate MAX_PATH_LEN 0) = Inr (Inr k) \<and>
    vfs_read p fs' = Inr ref \<and>
    map_option (deref fs') ref = map_option (as_bytes \<circ> init_contents) (vfs_find k) \<and>
    (\<exists>fs''. vfs_remove p fs' = Inr (Inl (if vfs_find k = None then NotFound else ReadOnly), fs'') \<and>
      abs_overlay fs'' = abs_overlay fs')"
proof -
  obtain k where k: "spec_path p = Inr k" "overlay_ok fs'" "abs_overlay fs' = (abs_overlay fs)(k := None)"
    using remove_OkD [OF assms] .
  have "vfs_view fs' k = map_option init_contents (vfs_find k)"
    by (simp add: vfs_view_def k(3) map_add_def find_initramfs)
  with read_spec [OF k(2) v] k(1) obtain ref where "vfs_read p fs' = Inr ref"
    "map_option (deref fs') ref = map_option (as_bytes \<circ> init_contents) (vfs_find k)"
    by (auto simp: option.map_comp)
  moreover have "\<exists>fs''. vfs_remove p fs' = Inr (Inl (if vfs_find k = None then NotFound else ReadOnly), fs'') \<and>
      abs_overlay fs'' = abs_overlay fs'"
    using remove_sim [OF k(2) v] k(1,3) find_initramfs_None [of k] by (auto simp: domIff elim!: rbind_eq_InrE)
  ultimately show ?thesis using k(1) v by (auto simp: normalize_path_spec)
qed

theorem vfs_remove_reveals_initramfs_witness:
  "\<exists>fs fs'. vfs_write (lit ''a'') (lit ''hi'') empty_table = Inr (Inr (), fs) \<and>
    vfs_remove (lit ''a'') fs = Inr (Inr (), fs') \<and> vfs_read (lit ''a'') fs' = Inr None"
proof -
  obtain fs where w: "vfs_write (lit ''a'') (lit ''hi'') empty_table = Inr (Inr (), fs)" "overlay_ok fs"
    "abs_overlay fs = (abs_overlay empty_table)(lit ''/a'' \<mapsto> lit ''hi'')"
    using write_a_empty [of "lit ''hi''"] by (auto simp: abs_overlay_empty len_small vfs_limits)
  then obtain fs' where r: "vfs_remove (lit ''a'') fs = Inr (Inr (), fs')"
    using remove_a [of fs] by auto
  have "vfs_find (lit ''/a'') = None" using initramfs_a find_initramfs_None by blast
  with vfs_remove_reveals_initramfs [OF w(2) valid_str_lit r] w(1) r show ?thesis
    by (auto simp: normalize_path_spec spec_path_a)
qed

text \<open>\<open>normalize_path\<close> never panics, whatever the path; a path it accepts starts with a
  slash, has no surrounding white space, fits the 32 bytes of a slot, and is left alone when it is
  normalised again.\<close>

theorem normalize_path_idempotent:
  assumes "valid_str p" and "length b = MAX_PATH_LEN"
  shows "\<exists>r. normalize_path p b = Inr r \<and>
    (case r of
       Inl e \<Rightarrow> e = (if trim p = [] then InvalidPath else PathTooLong)
     | Inr k \<Rightarrow> starts_with k slash \<and> trim k = k \<and> str_len k \<le> MAX_PATH_LEN \<and>
         normalize_path k b = Inr (Inr k))"
proof (cases "spec_path p")
  case (Inl e)
  then have "e = (if trim p = [] then InvalidPath else PathTooLong)"
    by (auto simp: spec_path_def Let_def split: if_splits)
  with Inl assms show ?thesis by (simp add: normalize_path_spec)
next
  case (Inr k)
  note n = spec_path_normal [OF assms(1) Inr]
  with Inr assms spec_path_fixed [OF n] show ?thesis by (simp add: normalize_path_spec normal_path_def)
qed

theorem normalize_path_idempotent_witness:
  "normalize_path (lit '' /a '') (replicate MAX_PATH_LEN 0) = Inr (Inr (lit ''/a'')) \<and>
   starts_with (lit ''/a'') slash"
  using normalize_path_idempotent [OF valid_str_lit zero_buffer, of "'' /a ''"]
  by (auto simp: normalize_path_spec spec_path_a)

text \<open>(C37) The text a \<open>read\<close> returns is an alias of the slot, not a copy: after a later
  \<open>write\<close> to the same path the old reference shows a prefix of the new bytes, and after a
  \<open>remove\<close> it shows zero bytes.\<close>

theorem leaked_text_follows_slot:
  assumes ok: "overlay_ok fs" and v: "valid_str p" "valid_str t"
    and rd: "vfs_read p fs = Inr (Some (OverlayRef i n))"
    and wr: "vfs_write p t fs = Inr (Inr (), fw)" and rm: "vfs_remove p fs = Inr (Inr (), fr)"
  shows "deref fr (OverlayRef i n) = replicate n 0 \<and>
    (n \<le> str_len t \<longrightarrow> deref fw (OverlayRef i n) = take n (as_bytes t))"
proof -
  obtain k where k: "spec_path p = Inr k" using write_OkD [OF ok v wr] .
  then have vk: "valid_str k" using spec_path_normal [OF v(1)] by (simp add: normal_path_def)
  have s: "slot_of fs k = Some i" "n = contents_len (fs ! i)"
    using rd k vk ok v by (auto simp: vfs_read_def normalize_path_spec read_overlay_spec
        split: option.splits)
  then have i: "i < length fs" "slot_path (fs ! i) = Some k" using slot_of_SomeD by auto
  have n: "n \<le> MAX_CONTENT_LEN"
    using overlay_okD(2) [OF ok i(1)] slot_path_used [OF i(2)] s(2) by (simp add: slot_ok_def)
  have "fr = fs[i := OverlayFile_EMPTY]"
    using rm k vk ok v s by (simp add: vfs_remove_def normalize_path_spec)
  then have "deref fr (OverlayRef i n) = replicate n 0"
    using i n by (simp add: OverlayFile_EMPTY_def min_def)
  moreover have "store_slot i k (as_bytes t) fs = Inr fw"
    using wr k vk ok v s
    by (auto simp: vfs_write_def normalize_path_spec split: if_splits elim!: rbind_eq_InrE)
  then have "\<exists>rest. file_contents (fw ! i) = as_bytes t @ rest"
    using i by (auto simp: store_slot_def OverlayFile_write_def copy_prefix_def split: if_splits
        elim!: rbind_eq_InrE)
  ultimately show ?thesis by (auto simp: str_len_def)
qed

theorem leaked_text_follows_slot_witness:
  "\<exists>fs fw ref. vfs_write (lit ''a'') (lit ''x'') empty_table = Inr (Inr (), fs) \<and>
    vfs_read (lit ''a'') fs = Inr (Some ref) \<and> from_utf8 (deref fs ref) = Some (lit ''x'') \<and>
    vfs_write (lit ''a'') [0xE9] fs = Inr (Inr (), fw) \<and> from_utf8 (deref fw ref) = None"
proof -
  obtain fs where w: "vfs_write (lit ''a'') (lit ''x'') empty_table = Inr (Inr (), fs)" "overlay_ok fs"
    "abs_overlay fs = [lit ''/a'' \<mapsto> lit ''x'']"
    using write_a_empty [of "lit ''x''"] by (auto simp: abs_overlay_empty len_small vfs_limits)
  have E9: "valid_str [0xE9]" by (simp add: scalar_def)
  obtain fw where w2: "vfs_write (lit ''a'') [0xE9] fs = Inr (Inr (), fw)"
    using write_a [OF w(2), of "[0xE9]"] w(3) E9 by (auto simp: len_small vfs_limits)
  obtain fr where r: "vfs_remove (lit ''a'') fs = Inr (Inr (), fr)" using remove_a [of fs] w(2,3) by auto
  have norm: "valid_str (lit ''/a'')" "normalize_path (lit ''a'') (replicate MAX_PATH_LEN 0) = Inr (Inr (lit ''/a''))"
    by (simp_all add: normalize_path_spec spec_path_a)
  obtain i where i: "slot_of fs (lit ''/a'') = Some i"
    using slot_of_None_iff [OF w(2), of "lit ''/a''"] w(3) by (cases "slot_of fs (lit ''/a'')") auto
  let ?n = "contents_len (fs ! i)"
  have rd: "vfs_read (lit ''a'') fs = Inr (Some (OverlayRef i ?n))"
    using i w(2) norm by (simp add: vfs_read_def read_overlay_spec)
  have d: "deref fs (OverlayRef i ?n) = as_bytes (lit ''x'')"
    using deref_overlay [OF w(2) i] w(3) by simp
  then have n: "?n = 1"
    using slot_of_SomeD [OF i] overlay_okD(2) [OF w(2)] w(3) i slot_text_bytes(3) len_small(3)
    by (metis abs_overlay_def fun_upd_same option.simps(5))
  have "deref fw (OverlayRef i ?n) = take ?n (as_bytes [0xE9])"
    using leaked_text_follows_slot [OF w(2) valid_str_lit E9 rd w2 r] n len_small(2) by simp
  then have "from_utf8 (deref fw (OverlayRef i ?n)) = None"
    by (simp add: n as_bytes_def encode_char.simps from_utf8_def decode_bytes.simps)
  with w(1) rd d w2 show ?thesis by auto
qed

end
