(* ===== verification/Task.thy ===== *)
theory Task
  imports Rust_Str
begin

text \<open>
  The task descriptions: \<^verbatim>\<open>kernel/src/memory/address_space.rs\<close>, \<^verbatim>\<open>memory/mapper.rs\<close>,
  \<^verbatim>\<open>task/context.rs\<close>, \<^verbatim>\<open>task/image.rs\<close> and \<^verbatim>\<open>task/process.rs\<close>.  Virtual addresses are values
  of the \<^verbatim>\<open>x86_64\<close> crate; their type is the parameter \<open>'va\<close> and the constructor
  \<^verbatim>\<open>VirtAddr::new\<close> is the argument \<open>vnew\<close> of the definitions that call it.  What the
  kernel relies on is documented behaviour of that constructor: it accepts canonical addresses
  (\<open>accepts_canonical\<close>).
\<close>

section \<open>Virtual addresses\<close>

definition canonical :: "u64 \<Rightarrow> bool" where
  "canonical a \<longleftrightarrow> a < 0x0000800000000000 \<or> 0xFFFF800000000000 \<le> a"

definition accepts_canonical :: "(u64 \<Rightarrow> 'va res) \<Rightarrow> bool" where
  "accepts_canonical vnew \<longleftrightarrow> (\<forall>a. canonical a \<longrightarrow> (\<exists>v. vnew a = Inr v))"

definition to_higher_half :: "(u64 \<Rightarrow> 'va res) \<Rightarrow> u64 \<Rightarrow> u64 \<Rightarrow> 'va res" where
  "to_higher_half vnew physical_address hhdm_offset =
     vnew (saturating_add physical_address hhdm_offset)"

section \<open>Address spaces\<close>

datatype AddressSpaceKind = KernelOnly | KernelAndUser

fun AddressSpaceKind_label :: "AddressSpaceKind \<Rightarrow> rstr" where
  "AddressSpaceKind_label KernelOnly = lit ''kernel-only''"
| "AddressSpaceKind_label KernelAndUser = lit ''kernel-and-user''"

record 'va AddressSpace =
  space_hhdm_offset :: 'va
  kind :: AddressSpaceKind
  user_range_start :: 'va
  user_range_end :: 'va

definition AddressSpace_new :: "(u64 \<Rightarrow> 'va res) \<Rightarrow> 'va \<Rightarrow> 'va AddressSpace res" where
  "AddressSpace_new vnew offset =
     rbind (vnew 0) (\<lambda>us. rbind (vnew 0) (\<lambda>ue.
       Inr \<lparr>space_hhdm_offset = offset, kind = KernelOnly, user_range_start = us, user_range_end = ue\<rparr>))"

definition AddressSpace_with_user_range :: "'va \<Rightarrow> 'va \<Rightarrow> 'va \<Rightarrow> 'va AddressSpace" where
  "AddressSpace_with_user_range offset us ue =
     \<lparr>space_hhdm_offset = offset, kind = KernelAndUser, user_range_start = us, user_range_end = ue\<rparr>"

section \<open>Processes\<close>

record TaskContext =
  ctx_id :: usize
  timeslice_ticks :: u64

definition TaskContext_new :: "usize \<Rightarrow> u64 \<Rightarrow> TaskContext" where
  "TaskContext_new i ts = \<lparr>ctx_id = i, timeslice_ticks = ts\<rparr>"

record UserProgramImage =
  image_name :: rstr
  entry_point :: u64
  stack_top :: u64
  image_size :: usize

definition UserProgramImage_new :: "rstr \<Rightarrow> u64 \<Rightarrow> u64 \<Rightarrow> usize \<Rightarrow> UserProgramImage" where
  "UserProgramImage_new n e s sz = \<lparr>image_name = n, entry_point = e, stack_top = s, image_size = sz\<rparr>"

datatype ProcessState = Ready | Running | Idle

fun ProcessState_label :: "ProcessState \<Rightarrow> rstr" where
  "ProcessState_label Ready = lit ''ready''"
| "ProcessState_label Running = lit ''running''"
| "ProcessState_label Idle = lit ''idle''"

datatype ExecutionMode = Kernel | User

fun ExecutionMode_label :: "ExecutionMode \<Rightarrow> rstr" where
  "ExecutionMode_label Kernel = lit ''kernel''"
| "ExecutionMode_label User = lit ''user''"

record 'va Process =
  proc_id :: usize
  proc_name :: rstr
  context_of :: TaskContext
  state :: ProcessState
  execution_mode :: ExecutionMode
  address_space :: "'va AddressSpace"
  image_of :: "UserProgramImage option"

definition Process_new :: "(u64 \<Rightarrow> 'va res) \<Rightarrow> usize \<Rightarrow> rstr \<Rightarrow> 'va Process res" where
  "Process_new vnew i n =
     rbind (vnew 0) (\<lambda>offset. rbind (AddressSpace_new vnew offset) (\<lambda>sp.
       Inr \<lparr>proc_id = i, proc_name = n, context_of = TaskContext_new i 0, state = Ready,
            execution_mode = Kernel, address_space = sp, image_of = None\<rparr>))"

definition Process_new_user_stub ::
  "(u64 \<Rightarrow> 'va res) \<Rightarrow> usize \<Rightarrow> rstr \<Rightarrow> UserProgramImage \<Rightarrow> u64 \<Rightarrow> u64 \<Rightarrow> u64 \<Rightarrow> 'va Process res" where
  "Process_new_user_stub vnew i n img offset us ue =
     rbind (vnew offset) (\<lambda>off. rbind (vnew us) (\<lambda>vs. rbind (vnew ue) (\<lambda>ve.
       Inr \<lparr>proc_id = i, proc_name = n, context_of = TaskContext_new i 0, state = Ready,
            execution_mode = User, address_space = AddressSpace_with_user_range off vs ve,
            image_of = Some img\<rparr>)))"

section \<open>Construction does not panic\<close>

text \<open>The concrete instance used by the witnesses: addresses are their own values.\<close>

definition identity_virt_addr :: "u64 \<Rightarrow> u64 res" where
  "identity_virt_addr a = (if canonical a then Inr a else Inl (LibraryPanic ''VirtAddr''))"

lemma canonical_zero [simp]: "canonical 0"
  by (simp add: canonical_def)

lemma accepts_canonical_identity: "accepts_canonical identity_virt_addr"
  by (simp add: accepts_canonical_def identity_virt_addr_def)

lemma accepts_canonicalE:
  assumes "accepts_canonical vnew" and "canonical a"
  obtains v where "vnew a = Inr v"
  using assms by (auto simp: accepts_canonical_def)

lemma Process_new_ok:
  assumes "accepts_canonical vnew"
  obtains p where "Process_new vnew i n = Inr p" and "proc_id p = i" and "proc_name p = n"
    and "state p = Ready" and "execution_mode p = Kernel" and "kind (address_space p) = KernelOnly"
    and "ctx_id (context_of p) = i" and "image_of p = None"
proof -
  obtain v where "vnew 0 = Inr v" using accepts_canonicalE [OF assms canonical_zero] .
  then show thesis
    by (intro that [of "\<lparr>proc_id = i, proc_name = n, context_of = TaskContext_new i 0, state = Ready,
        execution_mode = Kernel, address_space = \<lparr>space_hhdm_offset = v, kind = KernelOnly,
        user_range_start = v, user_range_end = v\<rparr>, image_of = None\<rparr>"])
      (simp_all add: Process_new_def AddressSpace_new_def TaskContext_new_def)
qed

text \<open>A process records its execution mode, its image and the kind of its address space
  consistently: user processes have an image and a user range, kernel processes neither.\<close>

definition process_consistent :: "'va Process \<Rightarrow> bool" where
  "process_consistent p \<longleftrightarrow>
     (execution_mode p = User \<longleftrightarrow> kind (address_space p) = KernelAndUser) \<and>
     (execution_mode p = User \<longleftrightarrow> image_of p \<noteq> None) \<and> ctx_id (context_of p) = proc_id p"

lemma Process_new_consistent: "Process_new vnew i n = Inr p \<Longrightarrow> process_consistent p"
  by (auto simp: Process_new_def AddressSpace_new_def TaskContext_new_def process_consistent_def
      elim!: rbind_eq_InrE)

lemma Process_new_user_stub_consistent:
  "Process_new_user_stub vnew i n img off us ue = Inr p \<Longrightarrow> process_consistent p"
  by (auto simp: Process_new_user_stub_def AddressSpace_with_user_range_def TaskContext_new_def
      process_consistent_def elim!: rbind_eq_InrE)

text \<open>Adding an offset of the higher half to any physical address gives a canonical address: the
  sum saturates instead of wrapping into the lower half.\<close>

lemma canonical_higher_half:
  assumes "0xFFFF800000000000 \<le> offset"
  shows "canonical (saturating_add a offset)"
proof -
  have "0xFFFF800000000000 \<le> unat offset" using assms by (simp add: word_le_nat_alt)
  then have "0xFFFF800000000000 \<le> unat (saturating_add a offset)"
    by (simp add: unat_saturating_add)
  then show ?thesis by (simp add: canonical_def word_le_nat_alt)
qed

end
