(* ===== verification/Scheduler.thy ===== *)
theory Scheduler
  imports Task
begin

text \<open>
  \<^verbatim>\<open>kernel/src/task/scheduler.rs\<close>: a table of sixteen task slots, the index of the running task,
  and two atomics (\<open>TASK_COUNT\<close>, \<open>CURRENT_TASK_ID\<close>) that publish its state to readers that do
  not take the lock.  The component's contract is a ring: every tick moves to the next task.
\<close>

section \<open>The table\<close>

definition MAX_TASKS :: nat where "MAX_TASKS = 16"

record 'va Scheduler =
  tasks :: "'va Process option list"
  sched_len :: nat
  current :: "nat option"

definition Scheduler_new :: "'va Scheduler" where
  "Scheduler_new = \<lparr>tasks = replicate MAX_TASKS None, sched_len = 0, current = None\<rparr>"

definition Scheduler_add :: "'va Process \<Rightarrow> 'va Scheduler \<Rightarrow> 'va Scheduler res" where
  "Scheduler_add process s =
     (if sched_len s < MAX_TASKS
      then rbind (update_chk (tasks s) (sched_len s) (Some process)) (\<lambda>ts.
             Inr (s\<lparr>tasks := ts, sched_len := sched_len s + 1\<rparr>))
      else Inr s)"

definition Scheduler_len :: "'va Scheduler \<Rightarrow> nat" where
  "Scheduler_len s = sched_len s"

text \<open>\<open>if let Some(mut process) = self.tasks[i] { .. self.tasks[i] = Some(process) }\<close>\<close>

definition set_state :: "('va Process \<Rightarrow> ProcessState) \<Rightarrow> nat \<Rightarrow> 'va Process option list \<Rightarrow>
    'va Process option list res" where
  "set_state f i ts =
     rbind (index_chk ts i) (\<lambda>slot.
       case slot of
         None \<Rightarrow> Inr ts
       | Some p \<Rightarrow> update_chk ts i (Some (p\<lparr>state := f p\<rparr>)))"

definition Scheduler_run_next :: "'va Scheduler \<Rightarrow> 'va Scheduler res" where
  "Scheduler_run_next s =
     (if sched_len s = 0 then Inr s
      else rbind (case current s of
                    Some c \<Rightarrow> set_state (\<lambda>p. if proc_id p = 0 then Idle else Ready) c (tasks s)
                  | None \<Rightarrow> Inr (tasks s)) (\<lambda>ts.
           let nxt = (case current s of Some c \<Rightarrow> (c + 1) mod sched_len s | None \<Rightarrow> 0) in
           rbind (set_state (\<lambda>_. Running) nxt ts) (\<lambda>ts'.
             Inr (s\<lparr>tasks := ts', current := Some nxt\<rparr>))))"

definition Scheduler_current_task :: "'va Scheduler \<Rightarrow> 'va Process option res" where
  "Scheduler_current_task s =
     (case current s of None \<Rightarrow> Inr None | Some i \<Rightarrow> index_chk (tasks s) i)"

definition USIZE_MAX :: usize where "USIZE_MAX = - 1"

definition Scheduler_current_task_id :: "'va Scheduler \<Rightarrow> usize res" where
  "Scheduler_current_task_id s =
     rbind (Scheduler_current_task s) (\<lambda>t.
       Inr (case t of None \<Rightarrow> USIZE_MAX | Some p \<Rightarrow> proc_id p))"

section \<open>The module's statics and functions\<close>

record 'va sched_state =
  SCHEDULER :: "'va Scheduler"
  TASK_COUNT :: usize
  CURRENT_TASK_ID :: usize

definition sched_static :: "'va sched_state" where
  "sched_static = \<lparr>SCHEDULER = Scheduler_new, TASK_COUNT = 0, CURRENT_TASK_ID = USIZE_MAX\<rparr>"

definition scheduler_initialize :: "(u64 \<Rightarrow> 'va res) \<Rightarrow> 'va sched_state \<Rightarrow> 'va sched_state res" where
  "scheduler_initialize vnew s =
     rbind (Process_new vnew 0 (lit ''idle'')) (\<lambda>p0.
     rbind (Scheduler_add p0 (SCHEDULER s)) (\<lambda>s1.
     rbind (Process_new vnew 1 (lit ''init'')) (\<lambda>p1.
     rbind (Scheduler_add p1 s1) (\<lambda>s2.
     rbind (Scheduler_run_next s2) (\<lambda>s3.
     rbind (Scheduler_current_task_id s3) (\<lambda>cid.
       Inr \<lparr>SCHEDULER = s3, TASK_COUNT = word_of_nat (Scheduler_len s3), CURRENT_TASK_ID = cid\<rparr>))))))"

definition scheduler_tick :: "'va sched_state \<Rightarrow> 'va sched_state res" where
  "scheduler_tick s =
     rbind (Scheduler_run_next (SCHEDULER s)) (\<lambda>s1.
     rbind (Scheduler_current_task_id s1) (\<lambda>cid.
       Inr (s\<lparr>SCHEDULER := s1, CURRENT_TASK_ID := cid\<rparr>)))"

definition task_count :: "'va sched_state \<Rightarrow> usize" where
  "task_count s = TASK_COUNT s"

definition current_task_id :: "'va sched_state \<Rightarrow> usize option" where
  "current_task_id s = (let i = CURRENT_TASK_ID s in if i = USIZE_MAX then None else Some i)"

definition current_task_name :: "'va sched_state \<Rightarrow> rstr option res" where
  "current_task_name s = rbind (Scheduler_current_task (SCHEDULER s)) (\<lambda>t. Inr (map_option proc_name t))"

definition current_task_state :: "'va sched_state \<Rightarrow> ProcessState option res" where
  "current_task_state s = rbind (Scheduler_current_task (SCHEDULER s)) (\<lambda>t. Inr (map_option state t))"

definition current_task_execution_mode :: "'va sched_state \<Rightarrow> ExecutionMode option res" where
  "current_task_execution_mode s =
     rbind (Scheduler_current_task (SCHEDULER s)) (\<lambda>t. Inr (map_option execution_mode t))"

definition current_task_address_space_kind :: "'va sched_state \<Rightarrow> AddressSpaceKind option res" where
  "current_task_address_space_kind s =
     rbind (Scheduler_current_task (SCHEDULER s)) (\<lambda>t. Inr (map_option (kind \<circ> address_space) t))"

definition scheduling_model :: rstr where
  "scheduling_model = lit ''cooperative round-robin demo''"

text \<open>Repeated timer ticks.\<close>

fun ticks_run :: "('s \<Rightarrow> 's res) \<Rightarrow> nat \<Rightarrow> 's \<Rightarrow> 's res" where
  "ticks_run tick 0 s = Inr s"
| "ticks_run tick (Suc n) s = rbind (tick s) (ticks_run tick n)"

section \<open>The contract of a round-robin ring\<close>

text \<open>
  Each tick, from a state with tasks, makes the next task of the ring current.  The consequences
  hold for every such scheduler: the current task after any number of ticks, and fairness.
\<close>

locale round_robin =
  fixes tick :: "'s \<Rightarrow> 's res"
    and inv :: "'s \<Rightarrow> bool"
    and ring_size :: "'s \<Rightarrow> nat"
    and position :: "'s \<Rightarrow> nat"
  assumes position_less: "inv s \<Longrightarrow> position s < ring_size s"
    and tick_next: "inv s \<Longrightarrow>
      \<exists>s'. tick s = Inr s' \<and> inv s' \<and> ring_size s' = ring_size s \<and>
        position s' = Suc (position s) mod ring_size s"
begin

lemma ticks_position:
  "inv s \<Longrightarrow> \<exists>s'. ticks_run tick n s = Inr s' \<and> inv s' \<and> ring_size s' = ring_size s \<and>
     position s' = (position s + n) mod ring_size s"
proof (induction n arbitrary: s)
  case 0
  then show ?case using position_less by simp
next
  case (Suc n)
  obtain s1 where s1: "tick s = Inr s1" "inv s1" "ring_size s1 = ring_size s"
    "position s1 = Suc (position s) mod ring_size s" using tick_next [OF Suc.prems] by blast
  obtain s2 where "ticks_run tick n s1 = Inr s2" "inv s2" "ring_size s2 = ring_size s1"
    "position s2 = (position s1 + n) mod ring_size s1" using Suc.IH [OF s1(2)] by blast
  with s1 show ?case by (simp add: mod_add_left_eq)
qed

text \<open>Within one round every task becomes current, and after a full round the ring is back.\<close>

lemma reaches_every_position:
  assumes "inv s" and "i < ring_size s"
  shows "\<exists>n s'. 0 < n \<and> n \<le> ring_size s \<and> ticks_run tick n s = Inr s' \<and> position s' = i"
proof -
  let ?m = "ring_size s" and ?c = "position s"
  have c: "?c < ?m" by (rule position_less [OF assms(1)])
  define n where "n = (if ?c < i then i - ?c else i + ?m - ?c)"
  have "0 < n" "n \<le> ?m" using c assms(2) by (auto simp: n_def)
  moreover have "(?c + n) mod ?m = i" using c assms(2) by (auto simp: n_def)
  ultimately show ?thesis using ticks_position [OF assms(1), of n] by metis
qed

lemma full_round:
  assumes "inv s"
  shows "\<exists>s'. ticks_run tick (k * ring_size s) s = Inr s' \<and> position s' = position s"
  using ticks_position [OF assms, of "k * ring_size s"] position_less [OF assms] by auto

end

section \<open>The invariant\<close>

definition task_at :: "'va Scheduler \<Rightarrow> nat \<Rightarrow> 'va Process" where
  "task_at s i = the (tasks s ! i)"

definition sched_wf :: "'va Scheduler \<Rightarrow> bool" where
  "sched_wf s \<longleftrightarrow>
     length (tasks s) = MAX_TASKS \<and> sched_len s \<le> MAX_TASKS \<and>
     (\<forall>i<MAX_TASKS. tasks s ! i \<noteq> None \<longleftrightarrow> i < sched_len s) \<and>
     (\<forall>i < sched_len s. state (task_at s i) = Running \<longleftrightarrow> current s = Some i) \<and>
     (\<forall>c. current s = Some c \<longrightarrow> c < sched_len s)"

lemma sched_wfD:
  assumes "sched_wf s"
  shows "length (tasks s) = MAX_TASKS" and "sched_len s \<le> MAX_TASKS"
    and "i < sched_len s \<Longrightarrow> tasks s ! i = Some (task_at s i)"
    and "i < sched_len s \<Longrightarrow> state (task_at s i) = Running \<longleftrightarrow> current s = Some i"
    and "current s = Some i \<Longrightarrow> i < sched_len s"
  using assms by (auto simp: sched_wf_def task_at_def)

lemma sched_wf_new: "sched_wf Scheduler_new"
  by (simp add: sched_wf_def Scheduler_new_def)

lemma set_state_ok:
  "i < length ts \<Longrightarrow> ts ! i = Some p \<Longrightarrow> set_state f i ts = Inr (ts[i := Some (p\<lparr>state := f p\<rparr>)])"
  by (simp add: set_state_def panic_free)

lemma add_spec:
  assumes wf: "sched_wf s" and p: "state p \<noteq> Running"
  shows "\<exists>s'. Scheduler_add p s = Inr s' \<and> sched_wf s' \<and> current s' = current s \<and>
    sched_len s' = min MAX_TASKS (sched_len s + 1) \<and>
    (\<forall>i < sched_len s. task_at s' i = task_at s i) \<and>
    (sched_len s < MAX_TASKS \<longrightarrow> task_at s' (sched_len s) = p)"
proof (cases "sched_len s < MAX_TASKS")
  case False
  with sched_wfD(2) [OF wf] have "sched_len s = MAX_TASKS" by simp
  with wf show ?thesis by (simp add: Scheduler_add_def)
next
  case True
  let ?s = "s\<lparr>tasks := (tasks s)[sched_len s := Some p], sched_len := sched_len s + 1\<rparr>"
  have at: "tasks ?s ! i = (if i = sched_len s then Some p else tasks s ! i)" if "i < MAX_TASKS" for i
    using that sched_wfD(1) [OF wf] by simp
  have "current s \<noteq> Some (sched_len s)" using sched_wfD(5) [OF wf] by blast
  then have "sched_wf ?s"
    using wf p True at unfolding sched_wf_def task_at_def by (simp add: less_Suc_eq)
  then show ?thesis
    using True at sched_wfD(1) [OF wf] by (auto simp: Scheduler_add_def panic_free task_at_def)
qed

text \<open>One step of the ring: the old task is marked idle or ready, then the next one running.\<close>

definition next_index :: "'va Scheduler \<Rightarrow> nat" where
  "next_index s = (case current s of Some c \<Rightarrow> (c + 1) mod sched_len s | None \<Rightarrow> 0)"

definition parked :: "'va Process \<Rightarrow> ProcessState" where
  "parked p = (if proc_id p = 0 then Idle else Ready)"

lemma run_next_spec:
  assumes wf: "sched_wf s" and ne: "0 < sched_len s"
  shows "\<exists>s'. Scheduler_run_next s = Inr s' \<and> sched_wf s' \<and> sched_len s' = sched_len s \<and>
    current s' = Some (next_index s) \<and>
    (\<forall>i < sched_len s. task_at s' i = (task_at s i)\<lparr>state :=
       if i = next_index s then Running
       else if current s = Some i then parked (task_at s i) else state (task_at s i)\<rparr>)"
proof -
  let ?n = "next_index s"
  have n: "?n < sched_len s" using ne by (simp add: next_index_def split: option.split)
  define ts where "ts = (case current s of
      Some c \<Rightarrow> (tasks s)[c := Some ((task_at s c)\<lparr>state := parked (task_at s c)\<rparr>)] | None \<Rightarrow> tasks s)"
  have first: "(case current s of
        Some c \<Rightarrow> set_state (\<lambda>p. if proc_id p = 0 then Idle else Ready) c (tasks s)
      | None \<Rightarrow> Inr (tasks s)) = Inr ts"
  proof (cases "current s")
    case (Some c)
    then have "c < length (tasks s)" using sched_wfD(1,2,5) [OF wf] by fastforce
    then show ?thesis
      using Some sched_wfD(3,5) [OF wf] by (simp add: ts_def set_state_ok parked_def)
  qed (simp add: ts_def)
  have len: "length ts = MAX_TASKS" using sched_wfD(1) [OF wf] by (simp add: ts_def split: option.split)
  have at: "ts ! i = Some (if current s = Some i then (task_at s i)\<lparr>state := parked (task_at s i)\<rparr>
      else task_at s i)" if "i < sched_len s" for i
    using that sched_wfD [OF wf] by (auto simp: ts_def split: option.split)
  have beyond: "ts ! i = None" if "sched_len s \<le> i" "i < MAX_TASKS" for i
    using that wf sched_wfD(5) [OF wf] by (auto simp: ts_def sched_wf_def split: option.split)
  let ?p = "(if current s = Some ?n then (task_at s ?n)\<lparr>state := parked (task_at s ?n)\<rparr> else task_at s ?n)
      \<lparr>state := Running\<rparr>"
  let ?s = "s\<lparr>tasks := ts[?n := Some ?p], current := Some ?n\<rparr>"
  have n16: "?n < MAX_TASKS" using n sched_wfD(2) [OF wf] by simp
  have run: "Scheduler_run_next s = Inr ?s"
    using ne first set_state_ok [of ?n ts _ "\<lambda>_. Running"] at [OF n] len n16
    by (simp add: Scheduler_run_next_def next_index_def [symmetric] Let_def)
  have new: "task_at ?s i = (task_at s i)\<lparr>state := if i = ?n then Running
       else if current s = Some i then parked (task_at s i) else state (task_at s i)\<rparr>"
    if "i < sched_len s" for i
    using that at [OF that] len n16 by (auto simp: task_at_def)
  have "sched_wf ?s"
    unfolding sched_wf_def
  proof (intro conjI allI impI)
    show "length (tasks ?s) = MAX_TASKS" "sched_len ?s \<le> MAX_TASKS" using len sched_wfD(2) [OF wf] by simp_all
    show "tasks ?s ! i \<noteq> None \<longleftrightarrow> i < sched_len ?s" if "i < MAX_TASKS" for i
      using that at [of i] beyond [of i] n len by (cases "i = ?n"; cases "i < sched_len s") auto
    show "state (task_at ?s i) = Running \<longleftrightarrow> current ?s = Some i" if "i < sched_len ?s" for i
      using that new [of i] sched_wfD(4) [OF wf, of i] by (auto simp: parked_def)
    show "c < sched_len ?s" if "current ?s = Some c" for c using that n by simp
  qed
  with run new show ?thesis by auto
qed

lemma current_task_spec:
  assumes "sched_wf s" and "current s = Some c"
  shows "Scheduler_current_task s = Inr (Some (task_at s c))"
proof -
  have "c < sched_len s" "c < length (tasks s)" using sched_wfD(1,2,5) [OF assms(1)] assms(2) by fastforce+
  then show ?thesis using assms sched_wfD(3) by (auto simp: Scheduler_current_task_def panic_free)
qed

text \<open>The published atomics agree with the locked state.\<close>

definition sched_ok :: "'va sched_state \<Rightarrow> bool" where
  "sched_ok st \<longleftrightarrow> sched_wf (SCHEDULER st) \<and> 0 < sched_len (SCHEDULER st) \<and>
     (case current (SCHEDULER st) of
        None \<Rightarrow> False
      | Some c \<Rightarrow> CURRENT_TASK_ID st = proc_id (task_at (SCHEDULER st) c)) \<and>
     TASK_COUNT st = word_of_nat (sched_len (SCHEDULER st))"

definition running_index :: "'va sched_state \<Rightarrow> nat" where
  "running_index st = the (current (SCHEDULER st))"

lemma tick_spec:
  assumes "sched_ok st"
  shows "\<exists>st'. scheduler_tick st = Inr st' \<and> sched_ok st' \<and>
    sched_len (SCHEDULER st') = sched_len (SCHEDULER st) \<and>
    running_index st' = Suc (running_index st) mod sched_len (SCHEDULER st) \<and>
    (\<forall>i < sched_len (SCHEDULER st).
       proc_id (task_at (SCHEDULER st') i) = proc_id (task_at (SCHEDULER st) i) \<and>
       proc_name (task_at (SCHEDULER st') i) = proc_name (task_at (SCHEDULER st) i))"
proof -
  let ?s = "SCHEDULER st"
  obtain c where c: "sched_wf ?s" "0 < sched_len ?s" "current ?s = Some c"
    using assms by (auto simp: sched_ok_def split: option.splits)
  obtain s1 where s1: "Scheduler_run_next ?s = Inr s1" "sched_wf s1" "sched_len s1 = sched_len ?s"
    "current s1 = Some (next_index ?s)" and at: "\<forall>i < sched_len ?s. task_at s1 i = (task_at ?s i)\<lparr>state :=
       if i = next_index ?s then Running
       else if current ?s = Some i then parked (task_at ?s i) else state (task_at ?s i)\<rparr>"
    using run_next_spec [OF c(1,2)] by blast
  have "Scheduler_current_task_id s1 = Inr (proc_id (task_at s1 (next_index ?s)))"
    by (simp add: Scheduler_current_task_id_def current_task_spec [OF s1(2,4)])
  then have "scheduler_tick st =
      Inr (st\<lparr>SCHEDULER := s1, CURRENT_TASK_ID := proc_id (task_at s1 (next_index ?s))\<rparr>)"
    by (simp add: scheduler_tick_def s1(1))
  then show ?thesis
    using assms s1 c at by (simp add: sched_ok_def running_index_def next_index_def)
qed

interpretation ring: round_robin scheduler_tick sched_ok "\<lambda>st. sched_len (SCHEDULER st)" running_index
proof unfold_locales
  fix st :: "'va sched_state"
  assume ok: "sched_ok st"
  then show "running_index st < sched_len (SCHEDULER st)"
    using sched_wfD(5) by (auto simp: sched_ok_def running_index_def split: option.splits)
  show "\<exists>st'. scheduler_tick st = Inr st' \<and> sched_ok st' \<and>
      sched_len (SCHEDULER st') = sched_len (SCHEDULER st) \<and>
      running_index st' = Suc (running_index st) mod sched_len (SCHEDULER st)"
    using tick_spec [OF ok] by blast
qed

section \<open>Properties\<close>

lemma ticks_keep_tasks:
  "sched_ok st \<Longrightarrow> ticks_run scheduler_tick n st = Inr st' \<Longrightarrow> i < sched_len (SCHEDULER st) \<Longrightarrow>
   proc_id (task_at (SCHEDULER st') i) = proc_id (task_at (SCHEDULER st) i) \<and>
   proc_name (task_at (SCHEDULER st') i) = proc_name (task_at (SCHEDULER st) i)"
proof (induction n arbitrary: st)
  case (Suc n)
  obtain st1 where "scheduler_tick st = Inr st1" "sched_ok st1"
    "sched_len (SCHEDULER st1) = sched_len (SCHEDULER st)"
    "proc_id (task_at (SCHEDULER st1) i) = proc_id (task_at (SCHEDULER st) i) \<and>
     proc_name (task_at (SCHEDULER st1) i) = proc_name (task_at (SCHEDULER st) i)"
    using tick_spec [OF Suc.prems(1)] Suc.prems(3) by blast
  with Suc.IH [of st1] Suc.prems show ?case by simp
qed simp

lemma sched_ok_current:
  assumes "sched_ok st"
  shows "current (SCHEDULER st) = Some (running_index st)"
    and "Scheduler_current_task (SCHEDULER st) = Inr (Some (task_at (SCHEDULER st) (running_index st)))"
    and "state (task_at (SCHEDULER st) (running_index st)) = Running"
    and "CURRENT_TASK_ID st = proc_id (task_at (SCHEDULER st) (running_index st))"
proof -
  show c: "current (SCHEDULER st) = Some (running_index st)"
    using assms by (auto simp: sched_ok_def running_index_def split: option.splits)
  have wf: "sched_wf (SCHEDULER st)" using assms by (simp add: sched_ok_def)
  show "Scheduler_current_task (SCHEDULER st) = Inr (Some (task_at (SCHEDULER st) (running_index st)))"
    by (rule current_task_spec [OF wf c])
  show "state (task_at (SCHEDULER st) (running_index st)) = Running"
    using sched_wfD(4) [OF wf sched_wfD(5) [OF wf c]] c by simp
  show "CURRENT_TASK_ID st = proc_id (task_at (SCHEDULER st) (running_index st))"
    using assms c by (simp add: sched_ok_def)
qed

lemma initialize_spec:
  assumes "accepts_canonical vnew"
  obtains st where "scheduler_initialize vnew sched_static = Inr st" and "sched_ok st"
    and "sched_len (SCHEDULER st) = 2" and "running_index st = 0"
    and "proc_id (task_at (SCHEDULER st) 0) = 0" and "proc_name (task_at (SCHEDULER st) 0) = lit ''idle''"
    and "proc_id (task_at (SCHEDULER st) 1) = 1" and "proc_name (task_at (SCHEDULER st) 1) = lit ''init''"
proof -
  obtain p0 where p0: "Process_new vnew 0 (lit ''idle'') = Inr p0" "proc_id p0 = 0"
    "proc_name p0 = lit ''idle''" "state p0 = Ready" using Process_new_ok [OF assms] by metis
  obtain p1 where p1: "Process_new vnew 1 (lit ''init'') = Inr p1" "proc_id p1 = 1"
    "proc_name p1 = lit ''init''" "state p1 = Ready" using Process_new_ok [OF assms] by metis
  obtain s1 where s1: "Scheduler_add p0 Scheduler_new = Inr s1" "sched_wf s1" "current s1 = None"
    "sched_len s1 = 1" "task_at s1 0 = p0"
    using add_spec [OF sched_wf_new, of p0] p0(4) by (auto simp: Scheduler_new_def MAX_TASKS_def)
  obtain s2 where s2: "Scheduler_add p1 s1 = Inr s2" "sched_wf s2" "current s2 = None"
    "sched_len s2 = 2" "task_at s2 0 = p0" "task_at s2 1 = p1"
    using add_spec [OF s1(2), of p1] p1(4) s1(3-5) by (auto simp: MAX_TASKS_def)
  obtain s3 where s3: "Scheduler_run_next s2 = Inr s3" "sched_wf s3" "sched_len s3 = 2"
    "current s3 = Some 0" "task_at s3 0 = p0\<lparr>state := Running\<rparr>" "task_at s3 1 = p1"
    using run_next_spec [OF s2(2)] s2(3-6) by (auto simp: next_index_def)
  let ?st = "\<lparr>SCHEDULER = s3, TASK_COUNT = word_of_nat 2, CURRENT_TASK_ID = 0\<rparr>"
  have "Scheduler_current_task_id s3 = Inr 0"
    using current_task_spec [OF s3(2,4)] s3(5) p0(2) by (simp add: Scheduler_current_task_id_def)
  then have "scheduler_initialize vnew sched_static = Inr ?st"
    using p0(1) p1(1) s1(1) s2(1) s3(1,3)
    by (simp add: scheduler_initialize_def sched_static_def Scheduler_len_def)
  moreover have "sched_ok ?st" using s3 p0(2) by (simp add: sched_ok_def)
  ultimately show thesis
    using that [of ?st] s3 p0 p1 by (simp add: running_index_def)
qed

text \<open>(C30) From boot, the timer drives a strict alternation: initialisation and every tick run
  without a panic, the published task count stays 2, and after \<open>n\<close> ticks the published and the
  locked view both name task \<open>n mod 2\<close>, which is the one in state \<open>Running\<close>.\<close>

theorem scheduler_boot_schedule:
  assumes "accepts_canonical vnew"
  shows "\<exists>st. scheduler_initialize vnew sched_static = Inr st \<and>
    (\<forall>n. \<exists>st'. ticks_run scheduler_tick n st = Inr st' \<and> task_count st' = 2 \<and>
       current_task_id st' = Some (word_of_nat (n mod 2)) \<and>
       current_task_name st' = Inr (Some (if even n then lit ''idle'' else lit ''init'')) \<and>
       current_task_state st' = Inr (Some Running))"
proof -
  obtain st where st: "scheduler_initialize vnew sched_static = Inr st" "sched_ok st"
    "sched_len (SCHEDULER st) = 2" "running_index st = 0"
    and t: "proc_id (task_at (SCHEDULER st) 0) = 0" "proc_name (task_at (SCHEDULER st) 0) = lit ''idle''"
    "proc_id (task_at (SCHEDULER st) 1) = 1" "proc_name (task_at (SCHEDULER st) 1) = lit ''init''"
    using initialize_spec [OF assms] .
  have "\<exists>st'. ticks_run scheduler_tick n st = Inr st' \<and> task_count st' = 2 \<and>
       current_task_id st' = Some (word_of_nat (n mod 2)) \<and>
       current_task_name st' = Inr (Some (if even n then lit ''idle'' else lit ''init'')) \<and>
       current_task_state st' = Inr (Some Running)" for n
  proof -
    obtain st' where run: "ticks_run scheduler_tick n st = Inr st'" and ok: "sched_ok st'"
      and len: "sched_len (SCHEDULER st') = 2" and pos: "running_index st' = n mod 2"
      using ring.ticks_position [OF st(2), of n] st(3,4) by auto
    note keep = ticks_keep_tasks [OF st(2) run, unfolded st(3)]
    have "task_count st' = 2" using ok len by (simp add: sched_ok_def task_count_def)
    moreover have "USIZE_MAX \<noteq> 0" "USIZE_MAX \<noteq> 1" by (simp_all add: USIZE_MAX_def)
    moreover have "n mod 2 = (if even n then 0 else 1)" by (simp add: odd_iff_mod_2_eq_one)
    ultimately show ?thesis
      using run sched_ok_current [OF ok] keep [of 0] keep [of 1] t pos
      by (cases "even n")
        (simp_all add: current_task_id_def current_task_name_def current_task_state_def)
  qed
  with st(1) show ?thesis by blast
qed

theorem scheduler_boot_schedule_witness:
  "\<exists>st st'. scheduler_initialize identity_virt_addr sched_static = Inr st \<and>
     ticks_run scheduler_tick 3 st = Inr st' \<and> current_task_id st' = Some 1"
proof -
  have "word_of_nat (3 mod 2) = (1 :: usize)" by simp
  with scheduler_boot_schedule [OF accepts_canonical_identity] show ?thesis by metis
qed

text \<open>(C11) Round-robin fairness for any table: every task becomes the running one within one round
  of ticks, it is then the only task in state \<open>Running\<close>, and its identifier is the published
  one.\<close>

theorem scheduler_fair:
  assumes ok: "sched_ok st" and i: "i < sched_len (SCHEDULER st)"
  shows "\<exists>n st'. 0 < n \<and> n \<le> sched_len (SCHEDULER st) \<and> ticks_run scheduler_tick n st = Inr st' \<and>
    CURRENT_TASK_ID st' = proc_id (task_at (SCHEDULER st) i) \<and>
    (\<forall>j < sched_len (SCHEDULER st). state (task_at (SCHEDULER st') j) = Running \<longleftrightarrow> j = i)"
proof -
  obtain n st' where n: "0 < n" "n \<le> sched_len (SCHEDULER st)"
    and run: "ticks_run scheduler_tick n st = Inr st'" and pos: "running_index st' = i"
    using ring.reaches_every_position [OF ok i] by blast
  have ok': "sched_ok st'" and len: "sched_len (SCHEDULER st') = sched_len (SCHEDULER st)"
    using ring.ticks_position [OF ok, of n] run by auto
  then have "state (task_at (SCHEDULER st') j) = Running \<longleftrightarrow> j = i" if "j < sched_len (SCHEDULER st)" for j
    using sched_wfD(4) [of "SCHEDULER st'" j] sched_ok_current(1) [OF ok'] pos that
    by (auto simp: sched_ok_def)
  with n run sched_ok_current(4) [OF ok'] pos ticks_keep_tasks [OF ok run i] show ?thesis by auto
qed

theorem scheduler_fair_witness:
  "\<exists>st st' n. scheduler_initialize identity_virt_addr sched_static = Inr st \<and> n \<le> 2 \<and>
     ticks_run scheduler_tick n st = Inr st' \<and> CURRENT_TASK_ID st' = 1"
proof -
  obtain st where st: "scheduler_initialize identity_virt_addr sched_static = Inr st" "sched_ok st"
    "sched_len (SCHEDULER st) = 2" "proc_id (task_at (SCHEDULER st) 1) = 1"
    using initialize_spec [OF accepts_canonical_identity] .
  with scheduler_fair [OF st(2), of 1] show ?thesis by auto
qed

text \<open>The table has room for sixteen tasks: adding a list of tasks that are not running
  never panics, keeps the first sixteen in order and silently drops the others.\<close>

theorem scheduler_add_capacity:
  assumes "\<forall>p\<in>set ps. state p \<noteq> Running"
  shows "\<exists>s. fold (\<lambda>p r. rbind r (Scheduler_add p)) ps (Inr Scheduler_new) = Inr s \<and> sched_wf s \<and>
    Scheduler_len s = min MAX_TASKS (length ps) \<and>
    (\<forall>i < Scheduler_len s. tasks s ! i = Some (ps ! i))"
  using assms
proof (induction ps rule: rev_induct)
  case Nil
  then show ?case by (simp add: sched_wf_new Scheduler_len_def) (simp add: Scheduler_new_def)
next
  case (snoc p ps)
  then obtain s where s: "fold (\<lambda>p r. rbind r (Scheduler_add p)) ps (Inr Scheduler_new) = Inr s"
    "sched_wf s" "sched_len s = min MAX_TASKS (length ps)"
    "\<forall>i < sched_len s. tasks s ! i = Some (ps ! i)" by (auto simp: Scheduler_len_def)
  obtain s' where s': "Scheduler_add p s = Inr s'" "sched_wf s'"
    "sched_len s' = min MAX_TASKS (sched_len s + 1)" "\<forall>i < sched_len s. task_at s' i = task_at s i"
    "sched_len s < MAX_TASKS \<longrightarrow> task_at s' (sched_len s) = p"
    using add_spec [OF s(2), of p] snoc.prems by auto
  have "tasks s' ! i = Some ((ps @ [p]) ! i)" if i: "i < sched_len s'" for i
  proof (cases "i < sched_len s")
    case True
    then show ?thesis using sched_wfD(3) [OF s'(2) i] s'(4) s(3,4) by (simp add: nth_append task_at_def)
  next
    case False
    then have "i = length ps" "sched_len s < MAX_TASKS" "i = sched_len s" using i s'(3) s(3) by auto
    then show ?thesis using sched_wfD(3) [OF s'(2) i] s'(5) by (simp add: nth_append)
  qed
  with s(1,3) s'(1-3) show ?case by (simp add: Scheduler_len_def)
qed

theorem scheduler_add_capacity_witness:
  "\<exists>p s. Process_new identity_virt_addr 7 (lit ''x'') = Inr p \<and>
     fold (\<lambda>p r. rbind r (Scheduler_add p)) (replicate 20 p) (Inr Scheduler_new) = Inr s \<and>
     Scheduler_len s = 16"
proof -
  obtain p where p: "Process_new identity_virt_addr 7 (lit ''x'') = Inr p" "state p = Ready"
    using Process_new_ok [OF accepts_canonical_identity] by metis
  with scheduler_add_capacity [of "replicate 20 p"] show ?thesis by (auto simp: MAX_TASKS_def)
qed

end
