(* ===== verification/Keyboard.thy ===== *)
theory Keyboard
  imports Rust_Str
begin

text \<open>
  \<^verbatim>\<open>kernel/src/drivers/keyboard.rs\<close>: decoding of the scan codes (set 1) that the interrupt
  handler reads from port 0x60.  The match of \<open>decode_printable\<close> is the table \<open>key_arms\<close> in the
  order of the source; the shift key is the only state.  The event that \<open>on_interrupt\<close> passes to
  the shell is the result of the model's function.
\<close>

unbundle bit_operations_syntax

section \<open>The driver\<close>

datatype KeyEvent = Char_event rchar | Enter | Backspace

record keyboard =
  kbd_initialized :: bool
  shift_pressed :: bool

definition keyboard_static :: keyboard where
  "keyboard_static = \<lparr>kbd_initialized = False, shift_pressed = False\<rparr>"

definition to_ascii_uppercase :: "rchar \<Rightarrow> rchar" where
  "to_ascii_uppercase c = (if 0x61 \<le> c \<and> c \<le> 0x7A then c - 0x20 else c)"

definition alpha :: "rchar \<Rightarrow> bool \<Rightarrow> rchar" where
  "alpha lower shift = (if shift then to_ascii_uppercase lower else lower)"

text \<open>The arms of the match: \<open>if shift { s } else { u }\<close>, \<open>alpha(c, shift)\<close>, or a plain
  character.\<close>

datatype key_arm = Shifted char char | Alpha char | Plain char

fun arm_char :: "key_arm \<Rightarrow> bool \<Rightarrow> rchar" where
  "arm_char (Shifted s u) shift = (if shift then of_char s else of_char u)"
| "arm_char (Alpha c) shift = alpha (of_char c) shift"
| "arm_char (Plain c) shift = of_char c"

definition key_arms :: "(u8 \<times> key_arm) list" where
  "key_arms =
    [(0x02, Shifted CHR ''!'' CHR ''1''), (0x03, Shifted CHR ''@'' CHR ''2''),
     (0x04, Shifted CHR ''#'' CHR ''3''), (0x05, Shifted CHR ''$'' CHR ''4''),
     (0x06, Shifted CHR ''%'' CHR ''5''), (0x07, Shifted CHR ''^'' CHR ''6''),
     (0x08, Shifted CHR ''&'' CHR ''7''), (0x09, Shifted CHR ''*'' CHR ''8''),
     (0x0A, Shifted CHR ''('' CHR ''9''), (0x0B, Shifted CHR '')'' CHR ''0''),
     (0x0C, Shifted CHR ''_'' CHR ''-''), (0x0D, Shifted CHR ''+'' CHR ''=''),
     (0x10, Alpha CHR ''q''), (0x11, Alpha CHR ''w''), (0x12, Alpha CHR ''e''),
     (0x13, Alpha CHR ''r''), (0x14, Alpha CHR ''t''), (0x15, Alpha CHR ''y''),
     (0x16, Alpha CHR ''u''), (0x17, Alpha CHR ''i''), (0x18, Alpha CHR ''o''),
     (0x19, Alpha CHR ''p''),
     (0x1A, Shifted CHR ''{'' CHR ''[''), (0x1B, Shifted CHR ''}'' CHR '']''),
     (0x1E, Alpha CHR ''a''), (0x1F, Alpha CHR ''s''), (0x20, Alpha CHR ''d''),
     (0x21, Alpha CHR ''f''), (0x22, Alpha CHR ''g''), (0x23, Alpha CHR ''h''),
     (0x24, Alpha CHR ''j''), (0x25, Alpha CHR ''k''), (0x26, Alpha CHR ''l''),
     (0x27, Shifted CHR '':'' CHR '';''), (0x28, Shifted CHR 0x22 CHR 0x27),
     (0x29, Shifted CHR ''~'' CHR 0x60), (0x2B, Shifted CHR ''|'' CHR 0x5C),
     (0x2C, Alpha CHR ''z''), (0x2D, Alpha CHR ''x''), (0x2E, Alpha CHR ''c''),
     (0x2F, Alpha CHR ''v''), (0x30, Alpha CHR ''b''), (0x31, Alpha CHR ''n''),
     (0x32, Alpha CHR ''m''),
     (0x33, Shifted CHR ''<'' CHR '',''), (0x34, Shifted CHR ''>'' CHR ''.''),
     (0x35, Shifted CHR ''?'' CHR ''/''), (0x39, Plain CHR '' '')]"

definition decode_printable :: "u8 \<Rightarrow> keyboard \<Rightarrow> rchar option" where
  "decode_printable scancode k =
     map_option (\<lambda>arm. arm_char arm (shift_pressed k)) (map_of key_arms scancode)"

definition decode_scancode :: "u8 \<Rightarrow> keyboard \<Rightarrow> KeyEvent option \<times> keyboard" where
  "decode_scancode scancode k =
     (if scancode = 0x2A \<or> scancode = 0x36 then (None, k\<lparr>shift_pressed := True\<rparr>)
      else if scancode = 0xAA \<or> scancode = 0xB6 then (None, k\<lparr>shift_pressed := False\<rparr>)
      else if scancode AND 0x80 \<noteq> 0 then (None, k)
      else if scancode = 0x1C then (Some Enter, k)
      else if scancode = 0x0E then (Some Backspace, k)
      else (map_option Char_event (decode_printable scancode k), k))"

definition keyboard_initialize :: "keyboard \<Rightarrow> keyboard" where
  "keyboard_initialize k = k\<lparr>kbd_initialized := True\<rparr>"

definition is_initialized :: "keyboard \<Rightarrow> bool" where
  "is_initialized k = kbd_initialized k"

text \<open>\<open>port\<close> is the byte that port 0x60 would return; it is only read once the driver is
  initialised.\<close>

definition on_interrupt :: "u8 \<Rightarrow> keyboard \<Rightarrow> KeyEvent option \<times> keyboard" where
  "on_interrupt port k = (if \<not> kbd_initialized k then (None, k) else decode_scancode port k)"

text \<open>A run of interrupts, with the events in order.\<close>

fun key_run :: "u8 list \<Rightarrow> keyboard \<Rightarrow> KeyEvent list \<times> keyboard" where
  "key_run [] k = ([], k)"
| "key_run (b # bs) k =
     (let (e, k') = on_interrupt b k; (es, k'') = key_run bs k' in
      ((case e of None \<Rightarrow> es | Some x \<Rightarrow> x # es), k''))"

section \<open>Typing a text\<close>

text \<open>The keyboard itself, independently of the driver: on a US keyboard the scan codes of set 1 run along the
  rows of keys.  A row is the code of its first key with the characters of its keys, without and with shift.\<close>

definition us_rows :: "(nat \<times> string \<times> string) list" where
  "us_rows =
    [(0x02, ''1234567890-='', ''!@#$%^&*()_+''),
     (0x10, ''qwertyuiop[]'', ''QWERTYUIOP{}''),
     (0x1E, ''asdfghjkl;'' @ [CHR 0x27, CHR 0x60], ''ASDFGHJKL:'' @ [CHR 0x22, CHR ''~'']),
     (0x2B, CHR 0x5C # ''zxcvbnm,./'', ''|ZXCVBNM<>?''),
     (0x39, '' '', '' '')]"

definition us_keys :: "(u8 \<times> rchar \<times> rchar) list" where
  "us_keys = concat (map (\<lambda>(first, plain, shifted).
     zip (map word_of_nat [first..<first + length plain]) (zip (lit plain) (lit shifted))) us_rows)"

text \<open>The scan codes a keyboard sends when a character is typed: press and release of its key,
  between press and release of the left shift key where the character needs it.\<close>

definition plain_key :: "rchar \<Rightarrow> u8 option" where
  "plain_key c = map_option fst (find (\<lambda>(_, p, _). p = c) us_keys)"

definition shifted_key :: "rchar \<Rightarrow> u8 option" where
  "shifted_key c = map_option fst (find (\<lambda>(_, _, s). s = c) us_keys)"

definition press :: "u8 \<Rightarrow> u8 list" where
  "press code = [code, code OR 0x80]"

definition keystrokes :: "rchar \<Rightarrow> u8 list" where
  "keystrokes c =
     (case plain_key c of
        Some code \<Rightarrow> press code
      | None \<Rightarrow> (case shifted_key c of Some code \<Rightarrow> [0x2A] @ press code @ [0xAA] | None \<Rightarrow> []))"

definition type_text :: "rstr \<Rightarrow> u8 list" where
  "type_text s = concat (map keystrokes s)"

definition last_shift :: "u8 list \<Rightarrow> bool \<Rightarrow> bool" where
  "last_shift bs dflt =
     fold (\<lambda>b s. if b \<in> {0x2A, 0x36} then True else if b \<in> {0xAA, 0xB6} then False else s) bs dflt"

definition printable :: "rchar \<Rightarrow> bool" where
  "printable c \<longleftrightarrow> 0x20 \<le> c \<and> c \<le> 0x7E"

section \<open>Facts about the table\<close>

definition make_code :: "u8 \<Rightarrow> bool" where
  "make_code b \<longleftrightarrow> b \<notin> {0x2A, 0x36, 0x1C, 0x0E} \<and> b AND 0x80 = 0"

definition release_code :: "u8 \<Rightarrow> bool" where
  "release_code b \<longleftrightarrow> b \<notin> {0x2A, 0x36, 0xAA, 0xB6} \<and> b AND 0x80 \<noteq> 0"

lemma key_codes: "list_all (\<lambda>(code, a). make_code code \<and> release_code (code OR 0x80)) key_arms"
  by (simp add: key_arms_def make_code_def release_code_def)

lemma key_codes_distinct: "distinct (map fst key_arms)"
  by (simp add: key_arms_def)

lemma key_chars_printable: "list_all (\<lambda>(code, a). printable (arm_char a False) \<and> printable (arm_char a True)) key_arms"
  by (simp add: key_arms_def printable_def alpha_def to_ascii_uppercase_def)

lemma us_keys_decoded:
  "list_all (\<lambda>(code, p, s). case map_of key_arms code of None \<Rightarrow> False | Some a \<Rightarrow> arm_char a False = p \<and> arm_char a True = s) us_keys"
  by code_simp

lemma us_keys_complete: "list_all (\<lambda>c. list_ex (\<lambda>(_, p, s). p = c \<or> s = c) us_keys) [0x20..<0x7F]"
  by code_simp

lemma us_keysD:
  assumes "(code, p, s) \<in> set us_keys"
  obtains a where "(code, a) \<in> set key_arms" and "arm_char a False = p" and "arm_char a True = s"
  using assms us_keys_decoded by (fastforce simp: list_all_iff split: option.splits dest: map_of_SomeD)

lemma key_codeD:
  assumes "(code, a) \<in> set key_arms"
  shows "make_code code" and "release_code (code OR 0x80)" and "map_of key_arms code = Some a"
  using assms key_codes key_codes_distinct by (auto simp: list_all_iff map_of_eq_Some_iff)

lemma decode_key:
  assumes "(code, a) \<in> set key_arms"
  shows "decode_scancode code k = (Some (Char_event (arm_char a (shift_pressed k))), k)"
    and "decode_scancode (code OR 0x80) k = (None, k)"
  using key_codeD [OF assms]
  by (auto simp: decode_scancode_def decode_printable_def make_code_def release_code_def)

lemma press_run:
  assumes "(code, a) \<in> set key_arms" and "kbd_initialized k"
  shows "key_run (press code) k = ([Char_event (arm_char a (shift_pressed k))], k)"
  using assms by (simp add: press_def on_interrupt_def decode_key)

lemma key_run_append:
  "key_run (as @ bs) k =
     (let (es, k') = key_run as k; (fs, k'') = key_run bs k' in (es @ fs, k''))"
  by (induction as arbitrary: k) (auto simp: Let_def split: prod.splits option.splits)

lemma key_run_Cons:
  "snd (key_run (b # bs) k) = snd (key_run bs (snd (on_interrupt b k)))"
  "set (fst (key_run (b # bs) k)) =
     set_option (fst (on_interrupt b k)) \<union> set (fst (key_run bs (snd (on_interrupt b k))))"
  by (simp_all add: Let_def split: prod.split option.split)

lemma last_shift_Cons: "last_shift (b # bs) d = last_shift bs (last_shift [b] d)"
  by (simp only: last_shift_def fold.simps o_apply id_apply)

lemma plain_keyE:
  assumes "plain_key c = Some code"
  obtains a where "(code, a) \<in> set key_arms" and "arm_char a False = c"
proof -
  obtain p s where "(code, p, s) \<in> set us_keys" "p = c"
    using assms by (auto simp: plain_key_def find_Some_iff) (metis nth_mem)
  then show thesis using that by (metis us_keysD)
qed

lemma shifted_keyE:
  assumes "shifted_key c = Some code"
  obtains a where "(code, a) \<in> set key_arms" and "arm_char a True = c"
proof -
  obtain p s where "(code, p, s) \<in> set us_keys" "s = c"
    using assms by (auto simp: shifted_key_def find_Some_iff) (metis nth_mem)
  then show thesis using that by (metis us_keysD)
qed

lemma printable_has_key:
  assumes "printable c"
  shows "plain_key c \<noteq> None \<or> shifted_key c \<noteq> None"
proof -
  have "c \<in> set [0x20..<0x7F]" using assms unfolding set_upt printable_def by auto
  then have "list_ex (\<lambda>(_, p, s). p = c \<or> s = c) us_keys"
    using us_keys_complete unfolding list_all_iff by (rule bspec [rotated])
  then show ?thesis by (auto simp: plain_key_def shifted_key_def find_None_iff list_ex_iff)
qed

lemma keystrokes_run:
  assumes c: "printable c" and k: "kbd_initialized k" "\<not> shift_pressed k"
  shows "key_run (keystrokes c) k = ([Char_event c], k)"
proof (cases "plain_key c")
  case (Some code)
  then obtain a where "(code, a) \<in> set key_arms" "arm_char a False = c"
    by (rule plain_keyE)
  with Some k show ?thesis by (simp add: keystrokes_def press_run)
next
  case None
  then obtain code where code: "shifted_key c = Some code" using printable_has_key [OF c] by auto
  then obtain a where a: "(code, a) \<in> set key_arms" "arm_char a True = c"
    by (rule shifted_keyE)
  let ?k = "k\<lparr>shift_pressed := True\<rparr>"
  have "key_run (press code) ?k = ([Char_event c], ?k)" using press_run [OF a(1), of ?k] k a(2) by simp
  moreover have "keystrokes c = 0x2A # press code @ [0xAA]"
    using None code by (simp add: keystrokes_def)
  ultimately show ?thesis
    using k by (simp add: key_run_append on_interrupt_def decode_scancode_def)
qed

lemma typed_text_run:
  assumes "list_all printable s" and "kbd_initialized k" and "\<not> shift_pressed k"
  shows "key_run (type_text s) k = (map Char_event s, k)"
  using assms(1)
  by (induction s) (simp_all add: type_text_def key_run_append keystrokes_run assms(2,3))

section \<open>Properties\<close>

text \<open>(C19) Every text of printable ASCII characters can be typed: the scan codes that a US keyboard
  sends for its key presses and releases make the driver report exactly its characters, in order,
  and leave the driver as it was.\<close>

theorem typed_text_is_reported:
  assumes "list_all printable s" and "kbd_initialized k" and "\<not> shift_pressed k"
  shows "key_run (type_text s) k = (map Char_event s, k)"
  by (rule typed_text_run [OF assms])

theorem typed_text_is_reported_witness:
  "key_run (type_text (lit ''cat /A.TXT'')) (keyboard_initialize keyboard_static) =
     (map Char_event (lit ''cat /A.TXT''), keyboard_initialize keyboard_static)"
  by (rule typed_text_is_reported) (simp_all add: lit_def printable_def keyboard_initialize_def keyboard_static_def)

text \<open>Whatever bytes the controller sends, the driver reports only printable ASCII characters,
  Enter and Backspace, and it ignores everything before it is initialised.\<close>

theorem events_are_printable:
  "(e \<in> set (fst (key_run bs k)) \<longrightarrow> kbd_initialized k \<and> (\<forall>c. e = Char_event c \<longrightarrow> printable c))"
proof (induction bs arbitrary: k)
  case (Cons b bs)
  have one: "kbd_initialized k \<and> (\<forall>c. x = Char_event c \<longrightarrow> printable c)"
    if "fst (on_interrupt b k) = Some x" for x
  proof -
    have "printable (arm_char a sh)" if "map_of key_arms b = Some a" for a sh
      using key_chars_printable map_of_SomeD [OF that] by (cases sh) (auto simp: list_all_iff)
    with that show ?thesis
      by (auto simp: on_interrupt_def decode_scancode_def decode_printable_def split: if_splits)
  qed
  have "kbd_initialized (snd (on_interrupt b k)) = kbd_initialized k"
    by (simp add: on_interrupt_def decode_scancode_def)
  with one Cons.IH [of "snd (on_interrupt b k)"] show ?case
    by (auto simp: key_run_Cons simp del: key_run.simps split: option.splits)
qed simp

theorem events_are_printable_witness:
  "fst (key_run [0x2A, 0x1E] (keyboard_initialize keyboard_static)) = [Char_event 0x41] \<and> printable 0x41"
proof -
  have r: "fst (key_run [0x2A, 0x1E] (keyboard_initialize keyboard_static)) = [Char_event 0x41]"
    by (simp add: on_interrupt_def decode_scancode_def decode_printable_def key_arms_def alpha_def
        to_ascii_uppercase_def keyboard_initialize_def keyboard_static_def)
  with events_are_printable [of "Char_event 0x41" "[0x2A, 0x1E]" "keyboard_initialize keyboard_static"]
  show ?thesis by simp
qed

text \<open>The shift state is what the last shift code said: a press sets it, a release clears it,
  of either key, and no other code changes it.\<close>

theorem shift_follows_last_code:
  assumes "kbd_initialized k"
  shows "shift_pressed (snd (key_run bs k)) = last_shift bs (shift_pressed k)"
  using assms
proof (induction bs arbitrary: k)
  case (Cons b bs)
  have "kbd_initialized (snd (on_interrupt b k)) \<and>
      shift_pressed (snd (on_interrupt b k)) = last_shift [b] (shift_pressed k)"
    using Cons.prems by (auto simp: on_interrupt_def decode_scancode_def last_shift_def)
  with Cons.IH [of "snd (on_interrupt b k)"] show ?case
    by (simp only: key_run_Cons last_shift_Cons [of b bs])
qed (simp add: last_shift_def)

theorem shift_follows_last_code_witness:
  "\<not> shift_pressed (snd (key_run [0x2A, 0x36, 0xAA, 0x1E] (keyboard_initialize keyboard_static)))"
  using shift_follows_last_code [of "keyboard_initialize keyboard_static" "[0x2A, 0x36, 0xAA, 0x1E]"]
  by (simp add: keyboard_initialize_def keyboard_static_def last_shift_def)

end
