(* ===== verification/Serial.thy ===== *)
theory Serial
  imports Rust_Str
begin

text \<open>
  \<^verbatim>\<open>kernel/src/arch/x86_64/serial.rs\<close>: the polled driver of the 16550 UART that carries all kernel
  output.  The device is the machine the kernel runs on: the sequence of bytes it would return for
  the reads of the line status register is the parameter \<open>dev\<close>, indexed by the number of reads
  made so far, and what the driver does to the device is the list of its status reads and port writes.  Waiting for
  the transmitter is a loop that need not end; it is a \<open>partial_function\<close> whose value \<open>None\<close> means
  that it does not return.
\<close>

unbundle bit_operations_syntax

section \<open>The driver\<close>

definition COM1_BASE :: u16 where "COM1_BASE = 0x3F8"
definition LINE_STATUS_DATA_READY :: u8 where "LINE_STATUS_DATA_READY = push_bit 0 1"
definition LINE_STATUS_TRANSMITTER_EMPTY :: u8 where "LINE_STATUS_TRANSMITTER_EMPTY = push_bit 5 1"

record SerialPort =
  data :: u16
  interrupt_enable :: u16
  fifo_control :: u16
  line_control :: u16
  modem_control :: u16
  line_status :: u16

definition SerialPort_new :: "u16 \<Rightarrow> SerialPort res" where
  "SerialPort_new base =
     rbind (add_chk base 1) (\<lambda>ie. rbind (add_chk base 2) (\<lambda>fc. rbind (add_chk base 3) (\<lambda>lc.
     rbind (add_chk base 4) (\<lambda>mc. rbind (add_chk base 5) (\<lambda>ls.
       Inr \<lparr>data = base, interrupt_enable = ie, fifo_control = fc, line_control = lc,
            modem_control = mc, line_status = ls\<rparr>)))))"

text \<open>What the driver has done to the device, in order: reads of the line status register with the byte they returned, and
  port writes; and the number of status reads.\<close>

datatype bus_event = StatusRead u8 | PortWrite u16 u8

record serial_io =
  bus :: "bus_event list"
  status_reads :: nat

definition port_write :: "u16 \<Rightarrow> u8 \<Rightarrow> serial_io \<Rightarrow> serial_io" where
  "port_write p b io = io\<lparr>bus := bus io @ [PortWrite p b]\<rparr>"

fun written :: "bus_event \<Rightarrow> (u16 \<times> u8) list" where
  "written (StatusRead _) = []"
| "written (PortWrite p b) = [(p, b)]"

definition out_writes :: "serial_io \<Rightarrow> (u16 \<times> u8) list" where
  "out_writes io = concat (map written (bus io))"

definition SerialPort_init :: "SerialPort \<Rightarrow> serial_io \<Rightarrow> serial_io" where
  "SerialPort_init s io =
     port_write (modem_control s) 0x0B
     (port_write (fifo_control s) 0xC7
     (port_write (line_control s) 0x03
     (port_write (interrupt_enable s) 0x00
     (port_write (data s) 0x03
     (port_write (line_control s) 0x80
     (port_write (interrupt_enable s) 0x00 io))))))"

definition can_transmit :: "(nat \<Rightarrow> u8) \<Rightarrow> nat \<Rightarrow> bool" where
  "can_transmit dev n \<longleftrightarrow> dev n AND LINE_STATUS_TRANSMITTER_EMPTY \<noteq> 0"

definition has_data :: "(nat \<Rightarrow> u8) \<Rightarrow> nat \<Rightarrow> bool" where
  "has_data dev n \<longleftrightarrow> dev n AND LINE_STATUS_DATA_READY \<noteq> 0"

text \<open>\<open>while !self.can_transmit() {}\<close>: the number of status reads when the loop ends.\<close>

partial_function (option) wait_transmit :: "(nat \<Rightarrow> u8) \<Rightarrow> nat \<Rightarrow> nat option" where
  "wait_transmit dev n = (if can_transmit dev n then Some (Suc n) else wait_transmit dev (Suc n))"

definition write_raw_byte :: "(nat \<Rightarrow> u8) \<Rightarrow> SerialPort \<Rightarrow> u8 \<Rightarrow> serial_io \<Rightarrow> serial_io option" where
  "write_raw_byte dev s b io =
     (case wait_transmit dev (status_reads io) of
        None \<Rightarrow> None
      | Some n \<Rightarrow> Some (port_write (data s) b
          (io\<lparr>bus := bus io @ map (\<lambda>i. StatusRead (dev i)) [status_reads io..<n], status_reads := n\<rparr>)))"

definition write_byte :: "(nat \<Rightarrow> u8) \<Rightarrow> SerialPort \<Rightarrow> u8 \<Rightarrow> serial_io \<Rightarrow> serial_io option" where
  "write_byte dev s b io =
     (case (if b = 0x0A then write_raw_byte dev s 0x0D io else Some io) of
        None \<Rightarrow> None
      | Some io' \<Rightarrow> write_raw_byte dev s b io')"

fun write_bytes :: "(nat \<Rightarrow> u8) \<Rightarrow> SerialPort \<Rightarrow> u8 list \<Rightarrow> serial_io \<Rightarrow> serial_io option" where
  "write_bytes dev s [] io = Some io"
| "write_bytes dev s (b # bs) io =
     (case write_byte dev s b io of None \<Rightarrow> None | Some io' \<Rightarrow> write_bytes dev s bs io')"

definition write_str :: "(nat \<Rightarrow> u8) \<Rightarrow> SerialPort \<Rightarrow> rstr \<Rightarrow> serial_io \<Rightarrow> serial_io option" where
  "write_str dev s t io = write_bytes dev s (as_bytes t) io"

text \<open>\<open>write_fmt\<close> hands the formatted pieces to \<open>write_str\<close> one after the other;
  \<open>write_line\<close> is the piece and a line feed.\<close>

fun write_fmt :: "(nat \<Rightarrow> u8) \<Rightarrow> SerialPort \<Rightarrow> rstr list \<Rightarrow> serial_io \<Rightarrow> serial_io option" where
  "write_fmt dev s [] io = Some io"
| "write_fmt dev s (t # ts) io =
     (case write_str dev s t io of None \<Rightarrow> None | Some io' \<Rightarrow> write_fmt dev s ts io')"

definition write_line :: "(nat \<Rightarrow> u8) \<Rightarrow> SerialPort \<Rightarrow> rstr \<Rightarrow> serial_io \<Rightarrow> serial_io option" where
  "write_line dev s message io = write_fmt dev s [message, [0x0A]] io"

section \<open>Specification of the output\<close>

definition crlf :: "u8 list \<Rightarrow> u8 list" where
  "crlf bs = concat (map (\<lambda>b. if b = 0x0A then [0x0D, 0x0A] else [b]) bs)"

text \<open>The receiving terminal drops the carriage return in front of a line feed.\<close>

fun uncrlf :: "u8 list \<Rightarrow> u8 list" where
  "uncrlf (a # b # bs) = (if a = 0x0D \<and> b = 0x0A then 0x0A # uncrlf bs else a # uncrlf (b # bs))"
| "uncrlf [a] = [a]"
| "uncrlf [] = []"

definition sent :: "SerialPort \<Rightarrow> serial_io \<Rightarrow> u8 list" where
  "sent s io = map snd (filter (\<lambda>(p, _). p = data s) (out_writes io))"

text \<open>The transmitter becomes empty again and again.\<close>

definition drains :: "(nat \<Rightarrow> u8) \<Rightarrow> bool" where
  "drains dev \<longleftrightarrow> (\<forall>n. \<exists>m\<ge>n. can_transmit dev m)"

section \<open>The waiting loop\<close>

lemma wait_transmit_returns:
  assumes "can_transmit dev m" and "n \<le> m"
  shows "\<exists>k. wait_transmit dev n = Some k \<and> n < k \<and> can_transmit dev (k - 1)"
  using assms(2)
proof (induction n rule: inc_induct)
  case base
  then show ?case using assms(1) by (subst wait_transmit.simps) simp
next
  case (step n)
  show ?case
  proof (cases "can_transmit dev n")
    case True
    then show ?thesis by (subst wait_transmit.simps) simp
  next
    case False
    then have "wait_transmit dev n = wait_transmit dev (Suc n)" by (subst wait_transmit.simps) simp
    with step.IH show ?thesis by auto
  qed
qed

lemma wait_transmit_SomeD:
  assumes "wait_transmit dev n = Some k"
  shows "\<exists>m\<ge>n. can_transmit dev m"
proof (rule wait_transmit.raw_induct [OF _ assms])
  fix f :: "(nat \<Rightarrow> u8) \<Rightarrow> nat \<Rightarrow> nat option" and d n' r
  assume IH: "\<And>d n'' r. f d n'' = Some r \<Longrightarrow> \<exists>m\<ge>n''. can_transmit d m"
    and eq: "(if can_transmit d n' then Some (Suc n') else f d (Suc n')) = Some r"
  show "\<exists>m\<ge>n'. can_transmit d m"
    using IH [of d "Suc n'" r] eq by (auto split: if_splits dest: Suc_leD)
qed

lemma wait_transmit_drains:
  assumes "drains dev"
  obtains k where "wait_transmit dev n = Some k"
  using assms wait_transmit_returns [of dev _ n] by (auto simp: drains_def)

text \<open>A device that is busy at every second read.\<close>

lemma alternating_drains: "drains (\<lambda>n. if even n then 0x20 else 0)"
proof -
  have "can_transmit (\<lambda>n. if even n then 0x20 else 0) (2 * n)" for n
    by (simp add: can_transmit_def LINE_STATUS_TRANSMITTER_EMPTY_def)
  then show ?thesis unfolding drains_def by (metis le_add1 mult_2)
qed

section \<open>What reaches the wire\<close>

text \<open>The accesses that send bytes: for each one some reads of the status, the last of which reports an empty transmitter,
  and then one write to the data port.\<close>

inductive sends :: "SerialPort \<Rightarrow> u8 list \<Rightarrow> bus_event list \<Rightarrow> bool" for s :: SerialPort where
  sends_Nil: "sends s [] []"
| sends_Cons: "st AND LINE_STATUS_TRANSMITTER_EMPTY \<noteq> 0 \<Longrightarrow> sends s bs evs \<Longrightarrow>
    sends s (b # bs) (map StatusRead ps @ [StatusRead st, PortWrite (data s) b] @ evs)"

lemma sends_append: "sends s as es \<Longrightarrow> sends s bs fs \<Longrightarrow> sends s (as @ bs) (es @ fs)"
  by (induction rule: sends.induct) (auto intro: sends_Cons [simplified])

lemma sends_written: "sends s bs evs \<Longrightarrow> concat (map written evs) = map (Pair (data s)) bs"
  by (induction rule: sends.induct) (simp_all add: comp_def)

definition printed :: "SerialPort \<Rightarrow> u8 list \<Rightarrow> serial_io \<Rightarrow> serial_io option \<Rightarrow> bool" where
  "printed s bs io r \<longleftrightarrow> (\<exists>io' evs. r = Some io' \<and> bus io' = bus io @ evs \<and> sends s bs evs)"

lemma printed_Some [simp]: "printed s [] io (Some io)"
  by (auto simp: printed_def intro: sends_Nil)

lemma printed_then:
  assumes "printed s as io r" and "\<And>io'. printed s bs io' (f io')"
  shows "printed s (as @ bs) io (case r of None \<Rightarrow> None | Some io' \<Rightarrow> f io')"
proof -
  obtain io1 es where 1: "r = Some io1" "bus io1 = bus io @ es" "sends s as es" using assms(1) by (auto simp: printed_def)
  obtain io2 fs where 2: "f io1 = Some io2" "bus io2 = bus io1 @ fs" "sends s bs fs" using assms(2) [of io1] by (auto simp: printed_def)
  from 1 2 sends_append [OF 1(3) 2(3)] show ?thesis by (auto simp: printed_def)
qed

lemma crlf_simps [simp]:
  "crlf [] = []" "crlf (b # bs) = (if b = 0x0A then [0x0D, 0x0A] else [b]) @ crlf bs"
  "crlf (as @ bs) = crlf as @ crlf bs"
  by (simp_all add: crlf_def)

lemma write_raw_byte_printed:
  assumes "drains dev"
  shows "printed s [b] io (write_raw_byte dev s b io)"
proof -
  let ?n = "status_reads io"
  obtain m where "?n \<le> m" "can_transmit dev m" using assms by (auto simp: drains_def)
  then obtain k where k: "wait_transmit dev ?n = Some k" "?n < k" "can_transmit dev (k - 1)"
    using wait_transmit_returns by blast
  have "[?n..<k] = [?n..<k - 1] @ [k - 1]" using k(2) upt_Suc_append [of ?n "k - 1"] by simp
  then have "map (\<lambda>i. StatusRead (dev i)) [?n..<k] @ [PortWrite (data s) b] =
      map StatusRead (map dev [?n..<k - 1]) @ [StatusRead (dev (k - 1)), PortWrite (data s) b] @ []" by simp
  then have "sends s [b] (map (\<lambda>i. StatusRead (dev i)) [?n..<k] @ [PortWrite (data s) b])"
    using sends_Cons [OF k(3) [unfolded can_transmit_def] sends_Nil] by (simp only:)
  with k(1) show ?thesis by (simp add: printed_def write_raw_byte_def port_write_def)
qed

lemma write_byte_printed:
  assumes "drains dev"
  shows "printed s (crlf [b]) io (write_byte dev s b io)"
proof (cases "b = 0x0A")
  case True
  with printed_then [OF write_raw_byte_printed [OF assms, of s "0x0D" io] write_raw_byte_printed [OF assms, of s "0x0A"]]
  show ?thesis by (simp add: write_byte_def)
next
  case False
  with write_raw_byte_printed [OF assms, of s b io] show ?thesis by (simp add: write_byte_def)
qed

lemma write_bytes_printed: "drains dev \<Longrightarrow> printed s (crlf bs) io (write_bytes dev s bs io)"
proof (induction bs arbitrary: io)
  case (Cons b bs)
  from printed_then [OF write_byte_printed [OF Cons.prems, of s b io] Cons.IH [OF Cons.prems]] show ?case by simp
qed simp

lemma write_fmt_printed: "drains dev \<Longrightarrow> printed s (crlf (as_bytes (concat ts))) io (write_fmt dev s ts io)"
proof (induction ts arbitrary: io)
  case (Cons t ts)
  have "printed s (crlf (as_bytes t)) io (write_str dev s t io)" unfolding write_str_def by (rule write_bytes_printed [OF Cons.prems])
  from printed_then [OF this Cons.IH [OF Cons.prems]] show ?case by simp
qed simp

lemma write_fmt_spec:
  assumes "drains dev"
  shows "\<exists>io'. write_fmt dev s ts io = Some io' \<and>
    out_writes io' = out_writes io @ map (Pair (data s)) (crlf (as_bytes (concat ts)))"
  using write_fmt_printed [OF assms, of s ts io] by (auto simp: printed_def out_writes_def sends_written)

lemma crlf_starts_with_LF: "crlf bs = 0x0A # cs \<Longrightarrow> False"
  by (cases bs) (auto split: if_splits)

lemma uncrlf_crlf: "uncrlf (crlf bs) = bs"
proof (induction bs)
  case (Cons b bs)
  show ?case
  proof (cases "b = 0x0A")
    case True
    with Cons show ?thesis by simp
  next
    case False
    then show ?thesis
      using Cons crlf_starts_with_LF [of bs] by (cases "crlf bs") auto
  qed
qed simp

lemma sent_append:
  "out_writes io' = out_writes io @ map (Pair (data s)) bs \<Longrightarrow> sent s io' = sent s io @ bs"
  by (simp add: sent_def comp_def)

section \<open>Properties\<close>

text \<open>If the transmitter keeps draining, printing always returns, and what it puts on the wire
  is the UTF-8 encoding of the formatted pieces in order with a carriage return in front of every
  line feed and nothing else; a terminal that drops those carriage returns shows exactly the
  printed text.\<close>

theorem serial_prints_text:
  assumes "drains dev"
  shows "\<exists>io'. write_fmt dev s ts io = Some io' \<and>
    out_writes io' = out_writes io @ map (Pair (data s)) (crlf (as_bytes (concat ts))) \<and>
    uncrlf (drop (length (sent s io)) (sent s io')) = as_bytes (concat ts)"
proof -
  obtain io' where io': "write_fmt dev s ts io = Some io'"
    "out_writes io' = out_writes io @ map (Pair (data s)) (crlf (as_bytes (concat ts)))"
    using write_fmt_spec [OF assms] by blast
  then show ?thesis using sent_append [OF io'(2)] by (simp add: uncrlf_crlf)
qed

theorem serial_prints_text_witness:
  "\<exists>io'. write_line (\<lambda>n. if even n then 0x20 else 0) \<lparr>data = 0x3F8, interrupt_enable = 0x3F9,
       fifo_control = 0x3FA, line_control = 0x3FB, modem_control = 0x3FC, line_status = 0x3FD\<rparr>
       (lit ''ok'') \<lparr>bus = [], status_reads = 1\<rparr> = Some io' \<and>
     out_writes io' = [(0x3F8, 0x6F), (0x3F8, 0x6B), (0x3F8, 0x0D), (0x3F8, 0x0A)]"
  using serial_prints_text [OF alternating_drains, of "\<lparr>data = 0x3F8, interrupt_enable = 0x3F9,
     fifo_control = 0x3FA, line_control = 0x3FB, modem_control = 0x3FC, line_status = 0x3FD\<rparr>" "[lit ''ok'', [0x0A]]" "\<lparr>bus = [], status_reads = 1\<rparr>"]
  by (auto simp: write_line_def lit_def as_bytes_def encode_char.simps out_writes_def)

text \<open>(C32) The wait for the transmitter returns exactly when the device reports an empty transmitter
  at some later read; a transmitter that never empties stops the kernel for good.\<close>

theorem serial_wait_returns_iff:
  "(\<exists>k. wait_transmit dev n = Some k) \<longleftrightarrow> (\<exists>m\<ge>n. dev m AND LINE_STATUS_TRANSMITTER_EMPTY \<noteq> 0)"
  using wait_transmit_returns [of dev _ n] wait_transmit_SomeD [of dev n]
  by (auto simp: can_transmit_def)

text \<open>Initialising the port programs the device in the order of the data sheet: interrupts
  off, divisor latch opened, divisor 3 (38400 baud) written, latch closed with eight data bits, FIFO
  and modem lines set; the port numbers are the registers of COM1 and no addition
  overflows.\<close>

theorem serial_init_sequence:
  "\<exists>s. SerialPort_new COM1_BASE = Inr s \<and>
    out_writes (SerialPort_init s io) = out_writes io @
      [(0x3F9, 0x00), (0x3FB, 0x80), (0x3F8, 0x03), (0x3F9, 0x00), (0x3FB, 0x03), (0x3FA, 0xC7), (0x3FC, 0x0B)]"
  by (simp add: SerialPort_new_def COM1_BASE_def add_chk_def SerialPort_init_def port_write_def out_writes_def)

end
