(* ===== verification/Vga.thy ===== *)
theory Vga
  imports Bootinfo Rust_Str
begin

text \<open>
  \<^verbatim>\<open>kernel/src/arch/x86_64/vga.rs\<close>: the boot picture, drawn by raw 32-bit stores into the
  framebuffer.  Drawing returns the list of stores (address, colour) in program order; every
  addition and multiplication of the source is checked, and so are the preconditions that the pointer
  functions of \<^verbatim>\<open>core\<close> test in this profile.  The main results are that the drawing of the boot picture on
  an aligned framebuffer never panics and never stores outside it, whatever its size.
\<close>

section \<open>Rectangles\<close>

definition BACKGROUND :: u32 where "BACKGROUND = 0x0B1020"
definition PANEL :: u32 where "PANEL = 0x121A31"
definition PANEL_BORDER :: u32 where "PANEL_BORDER = 0x2F4F8F"
definition ACCENT :: u32 where "ACCENT = 0x62D0FF"
definition ACCENT_MUTED :: u32 where "ACCENT_MUTED = 0x24415F"
definition SUCCESS :: u32 where "SUCCESS = 0x6EE7B7"

type_synonym pixel_store = "u64 \<times> u32"

text \<open>\<open>y..max_y\<close> over \<open>u32\<close>.\<close>

definition u32_range :: "u32 \<Rightarrow> u32 \<Rightarrow> u32 list" where
  "u32_range a b = map word_of_nat [unat a..<unat b]"

text \<open>\<open>ptr::add\<close> and \<open>write_volatile::<u32>\<close>: the offset is at most \<open>isize::MAX\<close> and the sum does not wrap around; the address is not
  null and a multiple of four.  Otherwise \<^verbatim>\<open>core\<close>, built with debug assertions, panics.\<close>

definition ptr_add :: "u64 \<Rightarrow> usize \<Rightarrow> u64 res" where
  "ptr_add base offset =
     (if unat offset < 2 ^ 63 \<and> unat base + unat offset < 2 ^ 64 then Inr (base + offset)
      else Inl (LibraryPanic ''unsafe precondition violated: ptr::add''))"

definition write_volatile :: "u64 \<Rightarrow> u32 \<Rightarrow> pixel_store list res" where
  "write_volatile pixel color =
     (if pixel \<noteq> 0 \<and> unat pixel mod 4 = 0 then Inr [(pixel, color)]
      else Inl (LibraryPanic ''unsafe precondition violated: ptr::write_volatile''))"

definition fill_rect :: "FramebufferInfo \<Rightarrow> u32 \<Rightarrow> u32 \<Rightarrow> u32 \<Rightarrow> u32 \<Rightarrow> u32 \<Rightarrow> pixel_store list res" where
  "fill_rect info x y width height color =
     (if width = 0 \<or> height = 0 then Inr []
      else rbind (add_chk x width) (\<lambda>xw. rbind (add_chk y height) (\<lambda>yh.
        let max_x = min xw (fb_width info);
            max_y = min yh (fb_height info);
            bytes_per_pixel = ucast (fb_bpp info div 8) :: usize;
            base = fb_address info
        in for_each (\<lambda>py.
             rbind (mul_chk (ucast py) (ucast (fb_pitch info))) (\<lambda>row_offset.
               for_each (\<lambda>px.
                 rbind (mul_chk (ucast px) bytes_per_pixel) (\<lambda>col.
                 rbind (add_chk row_offset col) (\<lambda>offset.
                 rbind (ptr_add base offset) (\<lambda>pixel.
                   write_volatile pixel color))))
                 (u32_range x max_x)))
             (u32_range y max_y))))"

definition clear :: "FramebufferInfo \<Rightarrow> u32 \<Rightarrow> pixel_store list res" where
  "clear info color = fill_rect info 0 0 (fb_width info) (fb_height info) color"

definition stroke_rect ::
  "FramebufferInfo \<Rightarrow> u32 \<Rightarrow> u32 \<Rightarrow> u32 \<Rightarrow> u32 \<Rightarrow> u32 \<Rightarrow> u32 \<Rightarrow> pixel_store list res" where
  "stroke_rect info x y width height thickness color =
     in_order
      [fill_rect info x y width thickness color,
       rbind (add_chk y (saturating_sub height thickness)) (\<lambda>yb.
         fill_rect info x yb width thickness color),
       fill_rect info x y thickness height color,
       rbind (add_chk x (saturating_sub width thickness)) (\<lambda>xr.
         fill_rect info xr y thickness height color)]"

definition draw_mark :: "FramebufferInfo \<Rightarrow> u32 \<Rightarrow> u32 \<Rightarrow> u32 \<Rightarrow> u32 \<Rightarrow> pixel_store list res" where
  "draw_mark info x y sz color =
     (let third = sz div 3 in
      in_order
       [rbind (add_chk y third) (\<lambda>yt. fill_rect info x yt third (saturating_sub sz third) color),
        rbind (add_chk x third) (\<lambda>xt. fill_rect info xt y third sz color),
        rbind (mul_chk third 2) (\<lambda>t2. rbind (add_chk x t2) (\<lambda>x2. rbind (add_chk y third) (\<lambda>yt.
          fill_rect info x2 yt third (saturating_sub sz third) color)))])"

definition draw_progress :: "FramebufferInfo \<Rightarrow> u32 \<Rightarrow> u32 \<Rightarrow> u32 \<Rightarrow> u32 \<Rightarrow> pixel_store list res" where
  "draw_progress info x y width height =
     (let filled = saturating_mul width 2 div 5; marker_width = 14 in
      in_order
       [fill_rect info x y width height ACCENT_MUTED,
        fill_rect info x y filled height ACCENT,
        rbind (add_chk x (saturating_sub filled (marker_width div 2))) (\<lambda>marker_x.
        rbind (add_chk height 8) (\<lambda>h8.
          fill_rect info marker_x (saturating_sub y 4) marker_width h8 SUCCESS))])"

section \<open>The boot picture\<close>

text \<open>The text printed on the console and the stores into the framebuffer.\<close>

definition draw_panel :: "FramebufferInfo \<Rightarrow> u32 \<Rightarrow> u32 \<Rightarrow> u32 \<Rightarrow> u32 \<Rightarrow> pixel_store list res" where
  "draw_panel info panel_x panel_y panel_width panel_height =
     (let bar = (\<lambda>dy inset h color.
            rbind (add_chk panel_x 28) (\<lambda>bx. rbind (add_chk panel_y dy) (\<lambda>by.
              fill_rect info bx by (saturating_sub panel_width inset) h color)))
      in in_order
       [fill_rect info panel_x panel_y panel_width panel_height PANEL,
        stroke_rect info panel_x panel_y panel_width panel_height 4 PANEL_BORDER,
        bar 28 56 10 ACCENT,
        bar 58 140 18 SUCCESS,
        bar 92 72 10 ACCENT_MUTED,
        bar 116 180 10 ACCENT_MUTED,
        bar 140 240 10 ACCENT_MUTED,
        rbind (add_chk panel_x (saturating_sub panel_width 84)) (\<lambda>mx.
        rbind (add_chk panel_y 38) (\<lambda>my. draw_mark info mx my 36 ACCENT)),
        rbind (add_chk panel_x 28) (\<lambda>gx.
        rbind (add_chk panel_y (saturating_sub panel_height 42)) (\<lambda>gy.
          draw_progress info gx gy (saturating_sub panel_width 56) 12))])"

definition render_boot_visual :: "FramebufferInfo \<Rightarrow> (rstr \<times> pixel_store list) res" where
  "render_boot_visual fb =
     (if fb_bpp fb \<noteq> 32 then
        Inr (lit ''AetherOS: framebuffer detected, but unsupported bpp for visual stage: '' @
             display_nat (unat (fb_bpp fb)) @ [0x0A], [])
      else
        let panel_width = saturating_sub (fb_width fb) 120;
            panel_height = min (fb_height fb) 220;
            panel_x = 60;
            panel_y = saturating_sub (fb_height fb) panel_height div 2
        in rbind (in_order
             [clear fb BACKGROUND,
              fill_rect fb 0 0 (fb_width fb) 28 ACCENT_MUTED,
              fill_rect fb 0 (saturating_sub (fb_height fb) 18) (fb_width fb) 18 PANEL,
              draw_panel fb panel_x panel_y panel_width panel_height,
              fill_rect fb 64 (saturating_sub (fb_height fb) 84) (saturating_sub (fb_width fb) 128) 48
                0x0A0F1D])
             (\<lambda>ws. Inr ([], ws)))"

section \<open>Rectangles are what they say\<close>

text \<open>The framebuffer lies in the address space, at an aligned address with aligned rows, and its rows do not overlap.\<close>

definition fb_ok :: "FramebufferInfo \<Rightarrow> bool" where
  "fb_ok info \<longleftrightarrow> fb_bpp info = 32 \<and> 4 * unat (fb_width info) \<le> unat (fb_pitch info) \<and>
     unat (fb_address info) + unat (fb_height info) * unat (fb_pitch info) \<le> 2 ^ 64 \<and>
     unat (fb_height info) * unat (fb_pitch info) \<le> 2 ^ 63 \<and>
     fb_address info \<noteq> 0 \<and> unat (fb_address info) mod 4 = 0 \<and> unat (fb_pitch info) mod 4 = 0"

definition pixel_offset :: "FramebufferInfo \<Rightarrow> nat \<Rightarrow> nat \<Rightarrow> nat" where
  "pixel_offset info px py = py * unat (fb_pitch info) + px * 4"

definition rect_stores :: "FramebufferInfo \<Rightarrow> nat \<Rightarrow> nat \<Rightarrow> nat \<Rightarrow> nat \<Rightarrow> u32 \<Rightarrow> pixel_store list" where
  "rect_stores info x y w h color =
     concat (map (\<lambda>py. concat (map (\<lambda>px. [(fb_address info + word_of_nat (pixel_offset info px py), color)])
       [x..<min (x + w) (unat (fb_width info))])) [y..<min (y + h) (unat (fb_height info))])"

lemma unat_ucast_u32 [simp]: "unat (ucast (a :: u32) :: u64) = unat a"
  by (simp add: unsigned_ucast_eq take_bit_eq_mod unat_u32_bound [THEN le_less_trans])

lemma pixel_offset_bound:
  assumes "fb_ok info" and "px < unat (fb_width info)" and "py < unat (fb_height info)"
  shows "pixel_offset info px py + 4 \<le> unat (fb_height info) * unat (fb_pitch info)"
proof -
  have "Suc py * unat (fb_pitch info) \<le> unat (fb_height info) * unat (fb_pitch info)"
    using assms(3) by (intro mult_right_mono) auto
  moreover have "px * 4 + 4 \<le> unat (fb_pitch info)" using assms by (auto simp: fb_ok_def)
  ultimately show ?thesis by (simp add: pixel_offset_def)
qed

lemma for_each_map: "for_each f (map h xs) = for_each (f \<circ> h) xs"
  by (induction xs) auto

lemma ucast_of_nat_u32: "i < 4294967296 \<Longrightarrow> (ucast (word_of_nat i :: u32) :: u64) = word_of_nat i"
  by (simp add: word_unat_eq_iff unat_of_nat take_bit_eq_mod)

lemma store_address:
  assumes "fb_ok info" and "px < unat (fb_width info)" and "py < unat (fb_height info)"
  shows "unat (fb_address info + word_of_nat (pixel_offset info px py)) =
    unat (fb_address info) + pixel_offset info px py"
proof -
  have b: "unat (fb_address info) + pixel_offset info px py < 2 ^ 64"
    using pixel_offset_bound [OF assms] assms(1) by (auto simp: fb_ok_def)
  then have "unat (word_of_nat (pixel_offset info px py) :: u64) = pixel_offset info px py"
    by (simp add: unat_of_nat take_bit_eq_mod)
  with b show ?thesis by (simp add: unat_plus_exact)
qed

lemma pixel_aligned: "fb_ok info \<Longrightarrow> (unat (fb_address info) + pixel_offset info px py) mod 4 = 0"
  unfolding fb_ok_def pixel_offset_def mod_eq_0_iff_dvd by (intro dvd_add dvd_mult) simp_all

lemma pixel_pointer_ok:
  assumes "fb_ok info" and "px < unat (fb_width info)" and "py < unat (fb_height info)"
  shows "rbind (ptr_add (fb_address info) (word_of_nat (pixel_offset info px py))) (\<lambda>pixel. write_volatile pixel color) =
    Inr [(fb_address info + word_of_nat (pixel_offset info px py), color)]"
proof -
  let ?o = "pixel_offset info px py"
  note b = pixel_offset_bound [OF assms] and a = store_address [OF assms]
  have ok: "?o < 2 ^ 63" "unat (fb_address info) + ?o < 2 ^ 64" "unat (fb_address info) \<noteq> 0"
    using b assms(1) by (auto simp: fb_ok_def unat_eq_0)
  have "unat (word_of_nat ?o :: u64) = ?o" using ok(1) by (simp add: unat_of_nat take_bit_eq_mod)
  moreover have "fb_address info + word_of_nat ?o \<noteq> 0" using a ok(3) by (metis add_is_0 unat_0)
  moreover have "unat (fb_address info + word_of_nat ?o) mod 4 = 0" unfolding a by (rule pixel_aligned [OF assms(1)])
  ultimately show ?thesis using ok(1,2) by (simp add: ptr_add_def write_volatile_def)
qed

lemma pixel_store_ok:
  assumes ok: "fb_ok info" and px: "px < unat (fb_width info)" and py: "py < unat (fb_height info)"
  shows "rbind (mul_chk (ucast (word_of_nat py :: u32)) (ucast (fb_pitch info))) (\<lambda>row_offset.
      rbind (mul_chk (ucast (word_of_nat px :: u32)) (ucast (fb_bpp info div 8))) (\<lambda>col.
      rbind (add_chk row_offset col) (\<lambda>offset.
      rbind (ptr_add (fb_address info) offset) (\<lambda>pixel. write_volatile pixel color)))) =
    Inr [(fb_address info + word_of_nat (pixel_offset info px py) :: u64, color)]"
proof -
  have lt: "px < 4294967296" "py < 4294967296"
    using px py unat_u32_bound [of "fb_width info"] unat_u32_bound [of "fb_height info"] by auto
  have off: "pixel_offset info px py < 2 ^ 64"
    using pixel_offset_bound [OF ok px py] ok by (auto simp: fb_ok_def)
  have bpp: "ucast (fb_bpp info div 8) = (4 :: u64)" using ok by (simp add: fb_ok_def)
  have u: "unat (word_of_nat py :: u64) = py" "unat (word_of_nat px :: u64) = px"
    using lt by (simp_all add: unat_of_nat take_bit_eq_mod)
  let ?row = "word_of_nat py * ucast (fb_pitch info) :: u64" and ?col = "word_of_nat px * 4 :: u64"
  have prods: "py * unat (fb_pitch info) < 2 ^ 64" "px * 4 < 2 ^ 64"
    using off by (simp_all add: pixel_offset_def)
  then have r: "unat ?row = py * unat (fb_pitch info)" "unat ?col = px * 4"
    using u by (simp_all add: unat_word_ariths)
  have "word_of_nat (pixel_offset info px py) = ?row + ?col"
    using off r by (simp add: word_unat_eq_iff unat_of_nat take_bit_eq_mod pixel_offset_def unat_word_ariths)
  then show ?thesis
    using prods u r off pixel_pointer_ok [OF ok px py] by (simp add: ucast_of_nat_u32 lt bpp panic_free pixel_offset_def)
qed

lemma row_mul_ok: "\<exists>r. mul_chk (ucast (a :: u32)) (ucast (b :: u32)) = Inr (r :: u64)"
proof -
  have "unat a * unat b \<le> 4294967295 * 4294967295"
    by (intro mult_mono unat_u32_bound) auto
  then show ?thesis by (simp add: mul_chk_def)
qed

lemma for_each_row:
  assumes ok: "fb_ok info" and py: "py < unat (fb_height info)" and X: "X \<le> unat (fb_width info)"
  shows "rbind (mul_chk (ucast (word_of_nat py :: u32)) (ucast (fb_pitch info))) (\<lambda>row_offset.
      for_each (\<lambda>px. rbind (mul_chk (ucast px) (ucast (fb_bpp info div 8))) (\<lambda>col.
        rbind (add_chk row_offset col) (\<lambda>offset.
        rbind (ptr_add (fb_address info) offset) (\<lambda>pixel. write_volatile pixel color))))
        (map word_of_nat [x..<X] :: u32 list)) =
    Inr (concat (map (\<lambda>px. [(fb_address info + word_of_nat (pixel_offset info px py) :: u64, color)]) [x..<X]))"
proof -
  obtain r :: u64 where r: "mul_chk (ucast (word_of_nat py :: u32)) (ucast (fb_pitch info)) = Inr r"
    using row_mul_ok by blast
  have "rbind (mul_chk (ucast (word_of_nat px :: u32)) (ucast (fb_bpp info div 8))) (\<lambda>col.
        rbind (add_chk r col) (\<lambda>offset.
        rbind (ptr_add (fb_address info) offset) (\<lambda>pixel. write_volatile pixel color))) =
      Inr [(fb_address info + word_of_nat (pixel_offset info px py), color)]" if "px < X" for px
    using pixel_store_ok [OF ok _ py, of px color] that X r by simp
  then show ?thesis unfolding r rbind_Inr for_each_map by (intro for_each_ok) simp
qed

lemma fill_rect_spec:
  assumes ok: "fb_ok info" and x: "unat x + unat w < 2 ^ 32" and y: "unat y + unat h < 2 ^ 32"
  shows "fill_rect info x y w h color = Inr (rect_stores info (unat x) (unat y) (unat w) (unat h) color)"
proof (cases "w = 0 \<or> h = 0")
  case True
  then show ?thesis by (auto simp: fill_rect_def rect_stores_def concat_eq_Nil_conv)
next
  case False
  let ?X = "min (unat x + unat w) (unat (fb_width info))"
  let ?Y = "min (unat y + unat h) (unat (fb_height info))"
  have u: "unat (min (x + w) (fb_width info)) = ?X" "unat (min (y + h) (fb_height info)) = ?Y"
    using x y by (simp_all add: unat_min unat_plus_exact)
  show ?thesis
    unfolding rect_stores_def
    using False x y for_each_row [OF ok, of _ ?X color "unat x"]
    by (simp add: fill_rect_def Let_def panic_free u32_range_def u for_each_map for_each_ok)
qed

section \<open>The picture as a list of rectangles\<close>

type_synonym rect = "nat \<times> nat \<times> nat \<times> nat \<times> u32"

definition rect_list_stores :: "FramebufferInfo \<Rightarrow> rect list \<Rightarrow> pixel_store list" where
  "rect_list_stores info rs = concat (map (\<lambda>(x, y, w, h, c). rect_stores info x y w h c) rs)"

definition stroke_rects :: "nat \<Rightarrow> nat \<Rightarrow> nat \<Rightarrow> nat \<Rightarrow> nat \<Rightarrow> u32 \<Rightarrow> rect list" where
  "stroke_rects x y w h t c =
     [(x, y, w, t, c), (x, y + (h - t), w, t, c), (x, y, t, h, c), (x + (w - t), y, t, h, c)]"

definition mark_rects :: "nat \<Rightarrow> nat \<Rightarrow> u32 \<Rightarrow> rect list" where
  "mark_rects x y c = [(x, y + 12, 12, 24, c), (x + 12, y, 12, 36, c), (x + 24, y + 12, 12, 24, c)]"

definition progress_rects :: "nat \<Rightarrow> nat \<Rightarrow> nat \<Rightarrow> rect list" where
  "progress_rects x y w =
     (let filled = min (w * 2) 4294967295 div 5 in
      [(x, y, w, 12, ACCENT_MUTED), (x, y, filled, 12, ACCENT),
       (x + (filled - 7), y - 4, 14, 20, SUCCESS)])"

definition panel_rects :: "nat \<Rightarrow> nat \<Rightarrow> nat \<Rightarrow> nat \<Rightarrow> rect list" where
  "panel_rects x y w h =
     (x, y, w, h, PANEL) # stroke_rects x y w h 4 PANEL_BORDER @
     [(x + 28, y + 28, w - 56, 10, ACCENT), (x + 28, y + 58, w - 140, 18, SUCCESS),
      (x + 28, y + 92, w - 72, 10, ACCENT_MUTED), (x + 28, y + 116, w - 180, 10, ACCENT_MUTED),
      (x + 28, y + 140, w - 240, 10, ACCENT_MUTED)] @
     mark_rects (x + (w - 84)) (y + 38) ACCENT @ progress_rects (x + 28) (y + (h - 42)) (w - 56)"

definition boot_rects :: "nat \<Rightarrow> nat \<Rightarrow> rect list" where
  "boot_rects W H =
     [(0, 0, W, H, BACKGROUND), (0, 0, W, 28, ACCENT_MUTED), (0, H - 18, W, 18, PANEL)] @
     panel_rects 60 ((H - min H 220) div 2) (W - 120) (min H 220) @
     [(64, H - 84, W - 128, 48, 0x0A0F1D)]"

lemma rect_list_stores_simps [simp]:
  "rect_list_stores info [] = []"
  "rect_list_stores info ((x, y, w, h, c) # rs) = rect_stores info x y w h c @ rect_list_stores info rs"
  "rect_list_stores info (rs @ ss) = rect_list_stores info rs @ rect_list_stores info ss"
  by (simp_all add: rect_list_stores_def)

lemma unat_sum_u32:
  "unat a + unat b < 4294967296 \<Longrightarrow> add_chk a b = Inr (a + b) \<and> unat (a + b :: u32) = unat a + unat b"
  by (simp add: add_chk_def unat_plus_exact)

lemma add_chk_u32:
  fixes a b :: u32
  assumes "unat b = m" and "unat a + m < 4294967296"
  obtains c where "add_chk a b = Inr c" and "unat c = unat a + m"
  using unat_sum_u32 [of a b] assms by auto

lemma stroke_rect_spec:
  assumes ok: "fb_ok info" and b: "unat x + unat w + 4 < 4294967296" "unat y + unat h + 4 < 4294967296"
  shows "stroke_rect info x y w h 4 color =
    Inr (rect_list_stores info (stroke_rects (unat x) (unat y) (unat w) (unat h) 4 color))"
proof -
  have u: "unat (saturating_sub w 4) = unat w - 4" "unat (saturating_sub h 4) = unat h - 4"
    by (simp_all add: unat_saturating_sub)
  obtain yb where yb: "add_chk y (saturating_sub h 4) = Inr yb" "unat yb = unat y + (unat h - 4)"
    by (rule add_chk_u32 [OF u(2), of y]) (use b in linarith)
  obtain xr where xr: "add_chk x (saturating_sub w 4) = Inr xr" "unat xr = unat x + (unat w - 4)"
    by (rule add_chk_u32 [OF u(1), of x]) (use b in linarith)
  show ?thesis
    using ok b yb xr by (simp add: stroke_rect_def stroke_rects_def fill_rect_spec panic_free)
qed

lemma draw_mark_spec:
  assumes ok: "fb_ok info" and b: "unat x + 36 < 4294967296" "unat y + 36 < 4294967296"
  shows "draw_mark info x y 36 color = Inr (rect_list_stores info (mark_rects (unat x) (unat y) color))"
proof -
  obtain yt where yt: "add_chk y 12 = Inr yt" "unat yt = unat y + 12" by (rule add_chk_u32 [of 12 12 y]) (use b in simp_all)
  obtain xt where xt: "add_chk x 12 = Inr xt" "unat xt = unat x + 12" by (rule add_chk_u32 [of 12 12 x]) (use b in simp_all)
  obtain x2 where x2: "add_chk x 24 = Inr x2" "unat x2 = unat x + 24" by (rule add_chk_u32 [of 24 24 x]) (use b in simp_all)
  have "(36 :: u32) div 3 = 12" "saturating_sub (36 :: u32) 12 = 24" "mul_chk (12 :: u32) 2 = Inr 24"
    by (simp_all add: saturating_sub_def mul_chk_def)
  then show ?thesis
    using ok b yt xt x2 by (simp add: draw_mark_def mark_rects_def Let_def fill_rect_spec panic_free)
qed

lemma unat_saturating_mul:
  fixes a :: "'a::len word"
  shows "unat (saturating_mul a b) = min (unat a * unat b) (2 ^ LENGTH('a) - 1)"
proof (cases "unat a * unat b < 2 ^ LENGTH('a)")
  case True
  then show ?thesis by (simp add: saturating_mul_def unat_word_ariths)
next
  case False
  then show ?thesis by (simp add: saturating_mul_def unsigned_minus_1_eq_mask mask_eq_exp_minus_1)
qed

lemma draw_progress_spec:
  assumes ok: "fb_ok info" and b: "unat x + unat w + 20 < 4294967296" "unat y + 20 < 4294967296"
  shows "draw_progress info x y w 12 = Inr (rect_list_stores info (progress_rects (unat x) (unat y) (unat w)))"
proof -
  let ?f = "saturating_mul w 2 div 5"
  have f: "unat ?f = min (unat w * 2) 4294967295 div 5" by (simp add: unat_div unat_saturating_mul)
  then have le: "unat ?f \<le> unat w" by simp
  have m: "unat (saturating_sub ?f 7) = unat ?f - 7" by (simp add: unat_saturating_sub)
  obtain mx where mx: "add_chk x (saturating_sub ?f 7) = Inr mx" "unat mx = unat x + (unat ?f - 7)"
    by (rule add_chk_u32 [OF m, of x]) (use b le in linarith)
  have "(14 :: u32) div 2 = 7" "add_chk (12 :: u32) 8 = Inr 20" by (simp_all add: add_chk_def)
  then show ?thesis
    using ok b le mx(2) unfolding draw_progress_def progress_rects_def Let_def f [symmetric]
    by (simp add: mx(1) fill_rect_spec in_order_ok unat_saturating_sub)
qed

lemma draw_panel_spec:
  assumes ok: "fb_ok info" and b: "unat x + unat w + 300 < 4294967296" "unat y + unat h + 300 < 4294967296"
  shows "draw_panel info x y w h = Inr (rect_list_stores info (panel_rects (unat x) (unat y) (unat w) (unat h)))"
proof -
  have bar: "rbind (add_chk x 28) (\<lambda>bx. rbind (add_chk y dy) (\<lambda>by. fill_rect info bx by (saturating_sub w inset) hh c)) =
      Inr (rect_stores info (unat x + 28) (unat y + unat dy) (unat w - unat inset) (unat hh) c)"
    if d: "unat dy \<le> 140" and hh: "unat hh \<le> 18" for dy inset hh c
  proof -
    obtain bx where bx: "add_chk x 28 = Inr bx" "unat bx = unat x + 28"
      by (rule add_chk_u32 [of 28 28 x]) (use b in simp_all)
    obtain yy where yy: "add_chk y dy = Inr yy" "unat yy = unat y + unat dy"
      by (rule add_chk_u32 [OF refl, of y dy]) (use b d in linarith)
    have "unat bx + unat (saturating_sub w inset) < 2 ^ 32" "unat yy + unat hh < 2 ^ 32"
      using b d hh bx yy by (simp_all add: unat_saturating_sub)
    from fill_rect_spec [OF ok this] bx yy show ?thesis by (simp add: unat_saturating_sub)
  qed
  have u: "unat (saturating_sub w 84) = unat w - 84" "unat (saturating_sub h 42) = unat h - 42"
    "unat (saturating_sub w 56) = unat w - 56" by (simp_all add: unat_saturating_sub)
  obtain mx where mx: "add_chk x (saturating_sub w 84) = Inr mx" "unat mx = unat x + (unat w - 84)"
    by (rule add_chk_u32 [OF u(1), of x]) (use b in linarith)
  obtain my where my: "add_chk y 38 = Inr my" "unat my = unat y + 38"
    by (rule add_chk_u32 [of 38 38 y]) (use b in simp_all)
  obtain gx where gx: "add_chk x 28 = Inr gx" "unat gx = unat x + 28"
    by (rule add_chk_u32 [of 28 28 x]) (use b in simp_all)
  obtain gy where gy: "add_chk y (saturating_sub h 42) = Inr gy" "unat gy = unat y + (unat h - 42)"
    by (rule add_chk_u32 [OF u(2), of y]) (use b in linarith)
  have mark: "draw_mark info mx my 36 ACCENT =
      Inr (rect_list_stores info (mark_rects (unat x + (unat w - 84)) (unat y + 38) ACCENT))"
    using draw_mark_spec [OF ok, of mx my ACCENT] mx(2) my(2) b by simp
  have progress: "draw_progress info gx gy (saturating_sub w 56) 12 =
      Inr (rect_list_stores info (progress_rects (unat x + 28) (unat y + (unat h - 42)) (unat w - 56)))"
    using draw_progress_spec [OF ok, of gx "saturating_sub w 56" gy] gx(2) gy(2) u(3) b by simp
  have "stroke_rect info x y w h 4 PANEL_BORDER =
      Inr (rect_list_stores info (stroke_rects (unat x) (unat y) (unat w) (unat h) 4 PANEL_BORDER))"
    using stroke_rect_spec [OF ok] b by simp
  moreover have "fill_rect info x y w h PANEL = Inr (rect_stores info (unat x) (unat y) (unat w) (unat h) PANEL)"
    using fill_rect_spec [OF ok] b by simp
  ultimately show ?thesis
    unfolding draw_panel_def panel_rects_def Let_def
    by (simp add: bar mx(1) my(1) gy(1) mark progress in_order_ok) (simp add: gx(1) progress in_order_ok)
qed

lemma render_spec:
  assumes ok: "fb_ok fb"
  shows "render_boot_visual fb =
    Inr ([], rect_list_stores fb (boot_rects (unat (fb_width fb)) (unat (fb_height fb))))"
proof -
  let ?W = "unat (fb_width fb)" and ?H = "unat (fb_height fb)"
  have W: "?W < 1073741824" using ok unat_u32_bound [of "fb_pitch fb"] by (auto simp: fb_ok_def)
  have H: "?H \<le> 4294967295" by (rule unat_u32_bound)
  let ?pw = "saturating_sub (fb_width fb) 120" and ?ph = "min (fb_height fb) 220"
  let ?py = "saturating_sub (fb_height fb) ?ph div 2"
  have u: "unat ?pw = ?W - 120" "unat ?ph = min ?H 220" "unat ?py = (?H - min ?H 220) div 2"
    by (simp_all add: unat_saturating_sub unat_min unat_div)
  have "(?H - min ?H 220) div 2 * 2 \<le> ?H - min ?H 220" by (rule div_times_less_eq_dividend)
  moreover have "min ?H 220 \<le> 220" by simp
  ultimately have b: "?W - 120 < 4294966936" "(?H - min ?H 220) div 2 + min ?H 220 < 4294966996"
    using W H by - linarith+
  have panel: "draw_panel fb 60 ?py ?pw ?ph =
      Inr (rect_list_stores fb (panel_rects 60 ((?H - min ?H 220) div 2) (?W - 120) (min ?H 220)))"
    using draw_panel_spec [OF ok, of 60 ?pw ?py ?ph] u b by simp
  have rects: "clear fb BACKGROUND = Inr (rect_stores fb 0 0 ?W ?H BACKGROUND)"
    "fill_rect fb 0 0 (fb_width fb) 28 ACCENT_MUTED = Inr (rect_stores fb 0 0 ?W 28 ACCENT_MUTED)"
    "fill_rect fb 0 (saturating_sub (fb_height fb) 18) (fb_width fb) 18 PANEL =
       Inr (rect_stores fb 0 (?H - 18) ?W 18 PANEL)"
    "fill_rect fb 64 (saturating_sub (fb_height fb) 84) (saturating_sub (fb_width fb) 128) 48 0x0A0F1D =
       Inr (rect_stores fb 64 (?H - 84) (?W - 128) 48 0x0A0F1D)"
    using W H unfolding clear_def by (simp_all add: fill_rect_spec [OF ok] unat_saturating_sub)
  have "fb_bpp fb = 32" using ok by (simp add: fb_ok_def)
  then show ?thesis
    unfolding render_boot_visual_def boot_rects_def Let_def
    by (simp add: panel rects in_order_ok)
qed

lemma set_rect_stores:
  "set (rect_stores info x y w h c) =
     (\<lambda>(px, py). (fb_address info + word_of_nat (pixel_offset info px py), c)) `
       ({x..<min (x + w) (unat (fb_width info))} \<times> {y..<min (y + h) (unat (fb_height info))})"
  unfolding rect_stores_def set_concat set_map set_upt by fastforce

lemma set_rect_list_stores:
  "set (rect_list_stores info rs) = (\<Union>(x, y, w, h, c)\<in>set rs. set (rect_stores info x y w h c))"
  by (auto simp: rect_list_stores_def)

section \<open>Properties\<close>

text \<open>(C15) Drawing the boot picture on a 32-bit framebuffer whose address and row length are multiples of
  four never panics, whatever its width and height, prints nothing, and every store is one whole pixel inside the visible part of the
  framebuffer: no byte outside \<open>height * pitch\<close> bytes from the base address is touched.\<close>

theorem boot_picture_stays_inside:
  assumes "fb_ok fb"
  shows "\<exists>ws. render_boot_visual fb = Inr ([], ws) \<and>
    (\<forall>(a, c)\<in>set ws. \<exists>px py. px < unat (fb_width fb) \<and> py < unat (fb_height fb) \<and>
       unat a = unat (fb_address fb) + py * unat (fb_pitch fb) + px * 4 \<and>
       unat a + 4 \<le> unat (fb_address fb) + unat (fb_height fb) * unat (fb_pitch fb) \<and> unat a mod 4 = 0)"
proof -
  let ?rs = "boot_rects (unat (fb_width fb)) (unat (fb_height fb))"
  have "\<exists>px py. px < unat (fb_width fb) \<and> py < unat (fb_height fb) \<and>
       unat a = unat (fb_address fb) + py * unat (fb_pitch fb) + px * 4 \<and>
       unat a + 4 \<le> unat (fb_address fb) + unat (fb_height fb) * unat (fb_pitch fb) \<and> unat a mod 4 = 0"
    if m: "(a, c) \<in> set (rect_list_stores fb ?rs)" for a c
  proof -
    obtain px py where p: "px < unat (fb_width fb)" "py < unat (fb_height fb)"
      and a: "a = fb_address fb + word_of_nat (pixel_offset fb px py)"
      using m unfolding set_rect_list_stores set_rect_stores by fastforce
    have "unat a mod 4 = 0"
      unfolding a store_address [OF assms p] by (rule pixel_aligned [OF assms])
    then show ?thesis
      using store_address [OF assms p] pixel_offset_bound [OF assms p] p unfolding a
      by (intro exI [of _ px] exI [of _ py]) (simp add: pixel_offset_def)
  qed
  then show ?thesis using render_spec [OF assms] by auto
qed

text \<open>An 800 by 600 framebuffer at the address QEMU gives it.\<close>

definition example_framebuffer :: FramebufferInfo where
  "example_framebuffer = \<lparr>fb_address = 0xFFFF8000FD000000, fb_width = 800, fb_height = 600,
     fb_pitch = 3200, fb_bpp = 32\<rparr>"

lemma example_framebuffer_ok: "fb_ok example_framebuffer"
  by (simp add: fb_ok_def example_framebuffer_def)

theorem boot_picture_stays_inside_witness:
  "\<exists>ws. render_boot_visual example_framebuffer = Inr ([], ws) \<and>
    (\<forall>(a, c)\<in>set ws. unat a + 4 \<le> unat (0xFFFF8000FD000000 :: u64) + 600 * 3200)"
proof -
  obtain ws where ws: "render_boot_visual example_framebuffer = Inr ([], ws)"
    "\<forall>(a, c)\<in>set ws. \<exists>px py. px < unat (fb_width example_framebuffer) \<and> py < unat (fb_height example_framebuffer) \<and>
       unat a = unat (fb_address example_framebuffer) + py * unat (fb_pitch example_framebuffer) + px * 4 \<and>
       unat a + 4 \<le> unat (fb_address example_framebuffer) +
         unat (fb_height example_framebuffer) * unat (fb_pitch example_framebuffer) \<and> unat a mod 4 = 0"
    using boot_picture_stays_inside [OF example_framebuffer_ok] by blast
  have v: "unat (fb_address example_framebuffer) = unat (0xFFFF8000FD000000 :: u64)"
    "unat (fb_height example_framebuffer) * unat (fb_pitch example_framebuffer) = 600 * 3200"
    by (simp_all add: example_framebuffer_def)
  have "unat a + 4 \<le> unat (0xFFFF8000FD000000 :: u64) + 600 * 3200" if "(a, c) \<in> set ws" for a c
    using ws(2) that unfolding v by fast
  with ws(1) show ?thesis by blast
qed

text \<open>A misaligned framebuffer: the first store of the picture panics.\<close>

lemma misaligned_framebuffer_panics:
  assumes "fb_bpp fb = 32" and "fb_width fb \<noteq> 0" "fb_height fb \<noteq> 0" and "unat (fb_address fb) mod 4 \<noteq> 0"
  shows "\<exists>e. render_boot_visual fb = Inl e"
proof -
  have "\<exists>e. clear fb BACKGROUND = Inl e"
  proof -
    have r: "u32_range 0 (fb_height fb) = 0 # map word_of_nat [1..<unat (fb_height fb)]"
      "u32_range 0 (fb_width fb) = 0 # map word_of_nat [1..<unat (fb_width fb)]"
      using assms(2,3) by (simp_all add: u32_range_def upt_rec [of 0] unat_gt_0)
    have "write_volatile (fb_address fb) c = Inl (LibraryPanic ''unsafe precondition violated: ptr::write_volatile'')" for c
      using assms(4) by (simp add: write_volatile_def)
    then show ?thesis
      using assms(2,3) r by (simp add: clear_def fill_rect_def add_chk_def mul_chk_def ptr_add_def Let_def)
  qed
  then show ?thesis using assms(1) by (auto simp: render_boot_visual_def Let_def in_order_def)
qed

text \<open>(C31) The picture is the list of rectangles \<open>boot_rects\<close>, drawn back to front and clipped to
  the screen; in particular every visible pixel is painted.\<close>

theorem boot_picture_rectangles:
  assumes "fb_ok fb"
  shows "\<exists>ws. render_boot_visual fb =
      Inr ([], rect_list_stores fb (boot_rects (unat (fb_width fb)) (unat (fb_height fb)))) \<and>
    render_boot_visual fb = Inr ([], ws) \<and>
    (\<forall>px < unat (fb_width fb). \<forall>py < unat (fb_height fb).
       \<exists>c. (fb_address fb + word_of_nat (py * unat (fb_pitch fb) + px * 4), c) \<in> set ws)"
proof -
  let ?rs = "boot_rects (unat (fb_width fb)) (unat (fb_height fb))"
  have "(fb_address fb + word_of_nat (py * unat (fb_pitch fb) + px * 4), BACKGROUND)
      \<in> set (rect_list_stores fb ?rs)"
    if "px < unat (fb_width fb)" "py < unat (fb_height fb)" for px py
  proof -
    have "(0, 0, unat (fb_width fb), unat (fb_height fb), BACKGROUND) \<in> set ?rs"
      by (simp add: boot_rects_def)
    moreover have "(fb_address fb + word_of_nat (py * unat (fb_pitch fb) + px * 4), BACKGROUND) \<in>
        set (rect_stores fb 0 0 (unat (fb_width fb)) (unat (fb_height fb)) BACKGROUND)"
      using that unfolding set_rect_stores pixel_offset_def by auto
    ultimately show ?thesis unfolding set_rect_list_stores by blast
  qed
  then show ?thesis using render_spec [OF assms] by blast
qed

theorem boot_picture_rectangles_witness:
  "\<exists>ws c. render_boot_visual example_framebuffer = Inr ([], ws) \<and> (0xFFFF8000FD000000, c) \<in> set ws"
proof -
  from boot_picture_rectangles [OF example_framebuffer_ok]
  have "\<exists>ws. render_boot_visual example_framebuffer = Inr ([], ws) \<and>
      (\<forall>px < unat (fb_width example_framebuffer). \<forall>py < unat (fb_height example_framebuffer). \<exists>c.
        (fb_address example_framebuffer + word_of_nat (py * unat (fb_pitch example_framebuffer) + px * 4), c) \<in> set ws)"
    by blast
  moreover have "0 < unat (fb_width example_framebuffer)" "0 < unat (fb_height example_framebuffer)"
    "fb_address example_framebuffer = 0xFFFF8000FD000000"
    by (simp_all add: example_framebuffer_def)
  ultimately show ?thesis by force
qed

end
