(* ===== verification/Interrupts.thy ===== *)
theory Interrupts
  imports Aether_Prelude
begin

text \<open>
  \<^verbatim>\<open>kernel/src/arch/x86_64/interrupts.rs\<close>, \<^verbatim>\<open>pit.rs\<close> and \<^verbatim>\<open>idt.rs\<close>: programming of the two 8259
  interrupt controllers and of the interval timer, the table of handlers, and the end-of-interrupt
  protocol.  What the kernel does to the machine is a list of actions; the bytes read from the
  controllers (their masks) are arguments.
\<close>

unbundle bit_operations_syntax

section \<open>Actions on the machine\<close>

datatype hw_action = Out u16 u8 | EnableInterrupts

section \<open>The interval timer\<close>

definition PIT_COMMAND :: u16 where "PIT_COMMAND = 0x43"
definition PIT_CHANNEL0 :: u16 where "PIT_CHANNEL0 = 0x40"
definition PIT_BASE_FREQUENCY :: u32 where "PIT_BASE_FREQUENCY = 1193182"

definition clamp :: "'a::linorder \<Rightarrow> 'a \<Rightarrow> 'a \<Rightarrow> 'a" where
  "clamp x lo hi = (if x < lo then lo else if hi < x then hi else x)"

definition pit_divisor :: "u32 \<Rightarrow> u16" where
  "pit_divisor frequency_hz = ucast (clamp (PIT_BASE_FREQUENCY div max frequency_hz 19) 1 65535)"

definition pit_init :: "u32 \<Rightarrow> hw_action list" where
  "pit_init frequency_hz =
     (let divisor = pit_divisor frequency_hz in
      [Out PIT_COMMAND 0x36, Out PIT_CHANNEL0 (ucast (divisor AND 0xFF)),
       Out PIT_CHANNEL0 (ucast (drop_bit 8 divisor))])"

section \<open>The interrupt controllers\<close>

definition PIC_1_OFFSET :: u8 where "PIC_1_OFFSET = 32"
definition PIC_2_OFFSET :: u8 where "PIC_2_OFFSET = PIC_1_OFFSET + 8"

record ChainedPics =
  offset1 :: u8
  offset2 :: u8

definition ChainedPics_new :: "u8 \<Rightarrow> u8 \<Rightarrow> ChainedPics" where
  "ChainedPics_new o1 o2 = \<lparr>offset1 = o1, offset2 = o2\<rparr>"

definition ChainedPics_initialize :: "u8 \<Rightarrow> u8 \<Rightarrow> ChainedPics \<Rightarrow> hw_action list" where
  "ChainedPics_initialize saved_mask1 saved_mask2 p =
     [Out 0x20 0x11, Out 0x21 (offset1 p), Out 0x21 4, Out 0x21 0x01,
      Out 0x21 (saved_mask1 AND NOT 0b11),
      Out 0xA0 0x11, Out 0xA1 (offset2 p), Out 0xA1 2, Out 0xA1 0x01,
      Out 0xA1 (saved_mask2 AND NOT 0b11)]"

definition ChainedPics_notify_end_of_interrupt :: "u8 \<Rightarrow> ChainedPics \<Rightarrow> hw_action list" where
  "ChainedPics_notify_end_of_interrupt interrupt_id p =
     (if offset2 p \<le> interrupt_id then [Out 0xA0 0x20] else []) @ [Out 0x20 0x20]"

datatype InterruptIndex = Timer | Keyboard

fun InterruptIndex_as_u8 :: "InterruptIndex \<Rightarrow> u8" where
  "InterruptIndex_as_u8 Timer = PIC_1_OFFSET"
| "InterruptIndex_as_u8 Keyboard = PIC_1_OFFSET + 1"

definition PICS :: ChainedPics where
  "PICS = ChainedPics_new PIC_1_OFFSET PIC_2_OFFSET"

section \<open>Initialisation and end of interrupt\<close>

record irq_state =
  irq_initialized :: bool
  hw :: "hw_action list"

definition irq_static :: irq_state where
  "irq_static = \<lparr>irq_initialized = False, hw = []\<rparr>"

definition perform :: "hw_action list \<Rightarrow> irq_state \<Rightarrow> irq_state" where
  "perform acts s = s\<lparr>hw := hw s @ acts\<rparr>"

text \<open>The four steps of \<open>init\<close>, in program order; interrupts can arrive after the third.\<close>

definition init_steps :: "u8 \<Rightarrow> u8 \<Rightarrow> (irq_state \<Rightarrow> irq_state) list" where
  "init_steps m1 m2 =
     [perform (ChainedPics_initialize m1 m2 PICS), perform (pit_init 100), perform [EnableInterrupts],
      (\<lambda>s. s\<lparr>irq_initialized := True\<rparr>)]"

definition interrupts_init :: "u8 \<Rightarrow> u8 \<Rightarrow> irq_state \<Rightarrow> irq_state" where
  "interrupts_init m1 m2 s = fold (\<lambda>f. f) (init_steps m1 m2) s"

definition notify_end_of_interrupt :: "InterruptIndex \<Rightarrow> irq_state \<Rightarrow> irq_state" where
  "notify_end_of_interrupt i s =
     (if irq_initialized s
      then perform (ChainedPics_notify_end_of_interrupt (InterruptIndex_as_u8 i) PICS) s
      else s)"

section \<open>The handler table\<close>

text \<open>The slots of the descriptor table that \<open>build_idt\<close> fills, by field or vector, and the
  interrupt stack index where one is set.\<close>

datatype idt_slot = BreakpointSlot | DoubleFaultSlot | GeneralProtectionSlot | PageFaultSlot | Vector u8

datatype handler = BreakpointHandler | DoubleFaultHandler | GeneralProtectionHandler
  | PageFaultHandler | TimerHandler | KeyboardHandler

definition DOUBLE_FAULT_IST_INDEX :: u16 where "DOUBLE_FAULT_IST_INDEX = 0"

definition build_idt :: "(idt_slot \<times> handler \<times> u16 option) list" where
  "build_idt =
    [(BreakpointSlot, BreakpointHandler, None),
     (DoubleFaultSlot, DoubleFaultHandler, Some DOUBLE_FAULT_IST_INDEX),
     (GeneralProtectionSlot, GeneralProtectionHandler, None),
     (PageFaultSlot, PageFaultHandler, None),
     (Vector (InterruptIndex_as_u8 Timer), TimerHandler, None),
     (Vector (InterruptIndex_as_u8 Keyboard), KeyboardHandler, None)]"

section \<open>The controllers as the kernel programs them\<close>

text \<open>
  The part of the 8259 protocol the kernel uses: an initialisation command is followed by
  three words on the data port (\<open>pic_icw\<close> counts them down), of which the first is the vector base; every
  other word on the data port is the mask.  A line of the second controller reaches the processor
  through line 2 of the first.
\<close>

record pic_state =
  pic_base :: u8
  pic_mask :: u8
  pic_icw :: nat
  pic_eois :: nat

fun pic_out :: "u16 \<Rightarrow> u16 \<Rightarrow> hw_action \<Rightarrow> pic_state \<Rightarrow> pic_state" where
  "pic_out cmd dat (Out p v) s =
     (if p = cmd then
        (if v = 0x11 then s\<lparr>pic_icw := 3\<rparr>
         else if v = 0x20 then s\<lparr>pic_eois := Suc (pic_eois s)\<rparr> else s)
      else if p = dat then
        (case pic_icw s of
           0 \<Rightarrow> s\<lparr>pic_mask := v\<rparr>
         | Suc n \<Rightarrow> (if n = 2 then s\<lparr>pic_base := v\<rparr> else s)\<lparr>pic_icw := n\<rparr>)
      else s)"
| "pic_out cmd dat EnableInterrupts s = s"

definition pic_run :: "u16 \<Rightarrow> u16 \<Rightarrow> hw_action list \<Rightarrow> pic_state \<Rightarrow> pic_state" where
  "pic_run cmd dat acts s = fold (pic_out cmd dat) acts s"

definition pic_reset :: "u8 \<Rightarrow> pic_state" where
  "pic_reset m = \<lparr>pic_base = 8, pic_mask = m, pic_icw = 0, pic_eois = 0\<rparr>"

text \<open>The vectors that can reach the processor: unmasked lines of the first controller and, if its
  line 2 is unmasked, unmasked lines of the second.\<close>

definition unmasked :: "pic_state \<Rightarrow> nat \<Rightarrow> bool" where
  "unmasked s line \<longleftrightarrow> line < 8 \<and> \<not> bit (pic_mask s) line"

definition deliverable :: "pic_state \<Rightarrow> pic_state \<Rightarrow> u8 set" where
  "deliverable p1 p2 =
     {pic_base p1 + word_of_nat n | n. unmasked p1 n \<and> n \<noteq> 2} \<union>
     {pic_base p2 + word_of_nat n | n. unmasked p1 2 \<and> unmasked p2 n}"

definition handled :: "u8 \<Rightarrow> bool" where
  "handled v \<longleftrightarrow> map_of build_idt (Vector v) \<noteq> None"

lemmas pic_defs = ChainedPics_initialize_def PICS_def ChainedPics_new_def PIC_1_OFFSET_def PIC_2_OFFSET_def

lemma interrupts_init_hw:
  "interrupts_init m1 m2 s =
     s\<lparr>irq_initialized := True,
       hw := hw s @ ChainedPics_initialize m1 m2 PICS @ pit_init 100 @ [EnableInterrupts]\<rparr>"
  by (simp add: interrupts_init_def init_steps_def perform_def)

lemma pit_init_not_pic:
  "pic_run 0x20 0x21 (pit_init f @ acts) s = pic_run 0x20 0x21 acts s"
  "pic_run 0xA0 0xA1 (pit_init f @ acts) s = pic_run 0xA0 0xA1 acts s"
  by (simp_all add: pic_run_def pit_init_def Let_def PIT_COMMAND_def PIT_CHANNEL0_def)

lemma pic_run_initialize:
  "pic_run 0x20 0x21 (ChainedPics_initialize m1 m2 PICS @ acts) (pic_reset m) =
     pic_run 0x20 0x21 acts \<lparr>pic_base = 32, pic_mask = m1 AND NOT 0b11, pic_icw = 0, pic_eois = 0\<rparr>"
  "pic_run 0xA0 0xA1 (ChainedPics_initialize m1 m2 PICS @ acts) (pic_reset m) =
     pic_run 0xA0 0xA1 acts \<lparr>pic_base = 40, pic_mask = m2 AND NOT 0b11, pic_icw = 0, pic_eois = 0\<rparr>"
  by (simp_all add: pic_run_def pic_reset_def pic_defs)

section \<open>Properties\<close>

text \<open>For every requested frequency the timer gets a divisor between 1 and 65535, sent low byte
  first, so that the two bytes are the divisor again; frequencies from 19 Hz up to the base
  frequency get the quotient of the base frequency, in particular 11931 for the 100 Hz of
  \<open>interrupts::init\<close>.\<close>

theorem pit_divisor_programmed:
  "\<exists>lo hi. pit_init f = [Out 0x43 0x36, Out 0x40 lo, Out 0x40 hi] \<and>
     unat lo + 256 * unat hi = unat (pit_divisor f) \<and>
     1 \<le> unat (pit_divisor f) \<and>
     (19 \<le> unat f \<and> unat f \<le> 1193182 \<longrightarrow> unat (pit_divisor f) = 1193182 div unat f)"
proof -
  let ?q = "PIT_BASE_FREQUENCY div max f 19"
  have m: "unat (max f 19) = max (unat f) 19" by (simp add: max_def word_le_nat_alt)
  have q: "unat ?q = 1193182 div max (unat f) 19" by (simp add: unat_div m PIT_BASE_FREQUENCY_def)
  have "1193182 div max (unat f) 19 \<le> 1193182 div 19" by (intro div_le_mono2) auto
  then have qs: "unat ?q \<le> 62799" using q by simp
  have c: "unat (clamp ?q 1 65535) = max (unat ?q) 1"
    using qs by (auto simp: clamp_def word_less_nat_alt)
  have "unat (clamp ?q 1 65535) < 65536" using c qs by simp
  then have d: "unat (pit_divisor f) = max (1193182 div max (unat f) 19) 1"
    using c q by (simp add: pit_divisor_def unsigned_ucast_eq take_bit_eq_mod)
  let ?d = "pit_divisor f"
  have "?d AND 0xFF = take_bit 8 ?d" by (simp add: take_bit_eq_mask mask_numeral)
  then have lo: "unat (ucast (?d AND 0xFF) :: u8) = unat ?d mod 256"
    by (simp add: unsigned_ucast_eq unsigned_take_bit_eq take_bit_eq_mod unat_mod)
  have "unat ?d < 65536" using unsigned_less [of ?d, where ?'a = nat] by simp
  then have hi: "unat (ucast (drop_bit 8 ?d) :: u8) = unat ?d div 256"
    by (simp add: unsigned_ucast_eq unsigned_drop_bit_eq take_bit_eq_mod drop_bit_eq_div unat_div)
  have big: "unat ?d = 1193182 div unat f" if "19 \<le> unat f" "unat f \<le> 1193182"
  proof -
    have "0 < 1193182 div unat f" using that unfolding div_greater_zero_iff by simp
    then show ?thesis using d that by (simp add: max_def)
  qed
  have init: "pit_init f = [Out 0x43 0x36, Out 0x40 (ucast (?d AND 0xFF)), Out 0x40 (ucast (drop_bit 8 ?d))]"
    by (simp only: pit_init_def Let_def PIT_COMMAND_def PIT_CHANNEL0_def)
  have "unat (ucast (?d AND 0xFF) :: u8) + 256 * unat (ucast (drop_bit 8 ?d) :: u8) = unat ?d"
    unfolding lo hi by (rule mod_mult_div_eq)
  moreover have "1 \<le> unat ?d" unfolding d by simp
  ultimately show ?thesis using init big by blast
qed

theorem pit_divisor_programmed_witness:
  "\<exists>lo hi. pit_init 100 = [Out 0x43 0x36, Out 0x40 lo, Out 0x40 hi] \<and>
     unat lo + 256 * unat hi = 11931 \<and> unat (pit_divisor 100) = 11931"
  using pit_divisor_programmed [of 100] by auto

lemma mask_bits:
  assumes "n < 8"
  shows "bit ((0xFF :: u8) AND NOT 0b11) n \<longleftrightarrow> n \<noteq> 0 \<and> n \<noteq> 1"
proof -
  have "n = 0 \<or> n = 1 \<or> n = 2 \<or> n = 3 \<or> n = 4 \<or> n = 5 \<or> n = 6 \<or> n = 7" using assms by linarith
  then show ?thesis by (elim disjE) simp_all
qed

text \<open>When the boot loader hands over with all interrupt lines masked, \<open>interrupts::init\<close> leaves
  exactly the timer and the keyboard line deliverable, on vectors 32 and 33; both have a handler in
  the table, no line is delivered on a vector of a processor exception, and interrupts are enabled
  only after both controllers are programmed.\<close>

theorem deliverable_irqs_have_handlers:
  assumes "acts = hw (interrupts_init 0xFF 0xFF irq_static)"
    and "p1 = pic_run 0x20 0x21 acts (pic_reset 0xFF)" and "p2 = pic_run 0xA0 0xA1 acts (pic_reset 0xFF)"
  shows "deliverable p1 p2 = {32, 33} \<and> (\<forall>v\<in>deliverable p1 p2. handled v \<and> 32 \<le> v) \<and>
    last acts = EnableInterrupts \<and> EnableInterrupts \<notin> set (butlast acts)"
proof -
  have acts: "acts = ChainedPics_initialize 0xFF 0xFF PICS @ pit_init 100 @ [EnableInterrupts]"
    by (simp add: assms(1) interrupts_init_hw irq_static_def)
  have p1: "pic_base p1 = 32" "pic_mask p1 = 0xFF AND NOT 0b11"
    and p2: "pic_base p2 = 40"
    unfolding assms(2,3) acts pic_run_initialize pit_init_not_pic by (simp_all add: pic_run_def)
  have un: "unmasked p1 n \<longleftrightarrow> n = 0 \<or> n = 1" for n
    using mask_bits [of n] by (auto simp: unmasked_def p1(2))
  have set: "deliverable p1 p2 = {32, 33}"
    unfolding deliverable_def un p1 p2 by (auto intro: exI [of _ 0] exI [of _ "1 :: nat"])
  have "handled 32" "handled 33"
    by (simp_all add: handled_def build_idt_def PIC_1_OFFSET_def)
  with set show ?thesis
    by (simp add: acts butlast_append pit_init_def Let_def pic_defs)
qed

theorem deliverable_irqs_have_handlers_witness:
  "deliverable (pic_run 0x20 0x21 (hw (interrupts_init 0xFF 0xFF irq_static)) (pic_reset 0xFF))
     (pic_run 0xA0 0xA1 (hw (interrupts_init 0xFF 0xFF irq_static)) (pic_reset 0xFF)) = {32, 33}"
  using deliverable_irqs_have_handlers [OF refl refl refl] by blast

text \<open>Once \<open>init\<close> has finished, every timer and keyboard interrupt is acknowledged with exactly
  one end-of-interrupt command, to the first controller; for the vectors of the second controller
  both are told.\<close>

theorem interrupts_are_acknowledged:
  "hw (notify_end_of_interrupt i (interrupts_init m1 m2 s)) = hw (interrupts_init m1 m2 s) @ [Out 0x20 0x20] \<and>
   (PIC_2_OFFSET \<le> v \<longrightarrow>
      ChainedPics_notify_end_of_interrupt v PICS = [Out 0xA0 0x20, Out 0x20 0x20])"
  by (cases i) (auto simp: notify_end_of_interrupt_def interrupts_init_hw perform_def
      ChainedPics_notify_end_of_interrupt_def pic_defs)

theorem interrupts_are_acknowledged_witness:
  "hw (notify_end_of_interrupt Timer (interrupts_init 0xFF 0xFF irq_static)) =
     hw (interrupts_init 0xFF 0xFF irq_static) @ [Out 0x20 0x20] \<and>
   ChainedPics_notify_end_of_interrupt 44 PICS = [Out 0xA0 0x20, Out 0x20 0x20]"
  using interrupts_are_acknowledged [of Timer "0xFF" "0xFF" irq_static 44] by (simp add: pic_defs)

text \<open>Interrupts are enabled one step before the flag that \<open>notify_end_of_interrupt\<close> tests is
  set: an interrupt taken in between is not acknowledged at all, and the controller, which waits for
  the acknowledgement, delivers no further one of the same or a lower priority.\<close>

theorem early_interrupt_unacknowledged:
  "\<exists>s. s = fold (\<lambda>f. f) (take 3 (init_steps m1 m2)) irq_static \<and> EnableInterrupts \<in> set (hw s) \<and>
     hw (notify_end_of_interrupt i s) = hw s \<and>
     interrupts_init m1 m2 irq_static = s\<lparr>irq_initialized := True\<rparr>"
  by (simp add: init_steps_def perform_def irq_static_def notify_end_of_interrupt_def interrupts_init_def)

end
