(* ===== verification/Boot.thy ===== *)
theory Boot
  imports Bootinfo Rust_Str
begin

text \<open>
  \<^verbatim>\<open>kernel/src/arch/x86_64/boot.rs\<close> and \<^verbatim>\<open>core/panic.rs\<close>: from the entry point to the call of the
  generic kernel.  What the Limine boot loader answered to the kernel's requests is the argument
  \<open>limine_responses\<close>.  The state is the boot stage (an atomic byte) and the text written to the
  serial port so far; it survives a panic, because the panic handler prints the stage, so the
  operations return the outcome and the state as a pair.
\<close>

section \<open>Boot stages\<close>

datatype BootStage =
    Entry | RevisionAccepted | RevisionRejected | CollectingBootInfo | HhdmReady | MemoryMapReady
  | RegionsMapped | FramebufferReady | BootInfoReady | KernelInit

fun BootStage_as_u8 :: "BootStage \<Rightarrow> u8" where
  "BootStage_as_u8 Entry = 0"
| "BootStage_as_u8 RevisionAccepted = 1"
| "BootStage_as_u8 RevisionRejected = 2"
| "BootStage_as_u8 CollectingBootInfo = 3"
| "BootStage_as_u8 HhdmReady = 4"
| "BootStage_as_u8 MemoryMapReady = 5"
| "BootStage_as_u8 RegionsMapped = 6"
| "BootStage_as_u8 FramebufferReady = 7"
| "BootStage_as_u8 BootInfoReady = 8"
| "BootStage_as_u8 KernelInit = 9"

definition BootStage_from_u8 :: "u8 \<Rightarrow> BootStage" where
  "BootStage_from_u8 v =
     (if v = 1 then RevisionAccepted
      else if v = 2 then RevisionRejected
      else if v = 3 then CollectingBootInfo
      else if v = 4 then HhdmReady
      else if v = 5 then MemoryMapReady
      else if v = 6 then RegionsMapped
      else if v = 7 then FramebufferReady
      else if v = 8 then BootInfoReady
      else if v = 9 then KernelInit
      else Entry)"

fun BootStage_label :: "BootStage \<Rightarrow> rstr" where
  "BootStage_label Entry = lit ''entry''"
| "BootStage_label RevisionAccepted = lit ''revision-accepted''"
| "BootStage_label RevisionRejected = lit ''revision-rejected''"
| "BootStage_label CollectingBootInfo = lit ''collecting-boot-info''"
| "BootStage_label HhdmReady = lit ''hhdm-ready''"
| "BootStage_label MemoryMapReady = lit ''memory-map-ready''"
| "BootStage_label RegionsMapped = lit ''regions-mapped''"
| "BootStage_label FramebufferReady = lit ''framebuffer-ready''"
| "BootStage_label BootInfoReady = lit ''boot-info-ready''"
| "BootStage_label KernelInit = lit ''kernel-init''"

lemma stage_roundtrip: "BootStage_from_u8 (BootStage_as_u8 st) = st"
  by (cases st) (simp_all add: BootStage_from_u8_def)

text \<open>Stages are ordered by their discriminants, the order in which a boot passes them.\<close>

instantiation BootStage :: linorder
begin

definition less_eq_BootStage :: "BootStage \<Rightarrow> BootStage \<Rightarrow> bool" where
  "less_eq_BootStage a b \<longleftrightarrow> BootStage_as_u8 a \<le> BootStage_as_u8 b"

definition less_BootStage :: "BootStage \<Rightarrow> BootStage \<Rightarrow> bool" where
  "less_BootStage a b \<longleftrightarrow> BootStage_as_u8 a < BootStage_as_u8 b"

instance
proof
  fix a b c :: BootStage
  show "(a < b) = (a \<le> b \<and> \<not> b \<le> a)"
    by (auto simp: less_BootStage_def less_eq_BootStage_def)
  show "a \<le> a" by (simp add: less_eq_BootStage_def)
  show "a \<le> b \<Longrightarrow> b \<le> c \<Longrightarrow> a \<le> c" by (simp add: less_eq_BootStage_def)
  show "a \<le> b \<Longrightarrow> b \<le> a \<Longrightarrow> a = b"
    unfolding less_eq_BootStage_def by (metis order_antisym stage_roundtrip)
  show "a \<le> b \<or> b \<le> a" by (auto simp: less_eq_BootStage_def)
qed

end

section \<open>The boot layer\<close>

record memmap_entry =
  entry_base :: u64
  entry_length :: u64
  entry_type :: u64

record limine_framebuffer =
  lfb_address :: u64
  lfb_width :: u64
  lfb_height :: u64
  lfb_pitch :: u64
  lfb_bpp :: u16

record limine_responses =
  revision_supported :: bool
  hhdm_response :: "u64 option"
  memmap_response :: "memmap_entry list option"
  framebuffer_response :: "limine_framebuffer list option"

text \<open>The state of the boot layer: the published stage, whether the serial line has been programmed, and the
  text printed on it.\<close>

record boot_state =
  boot_stage :: u8
  serial_programmed :: bool
  boot_log :: rstr

definition boot_static :: boot_state where
  "boot_static = \<lparr>boot_stage = BootStage_as_u8 Entry, serial_programmed = False, boot_log = []\<rparr>"

text \<open>\<open>serial::init\<close>; the port writes are those of \<open>serial_init\<close> of the serial driver, which the theory of the
  serial line runs on the device before the prints.\<close>

definition boot_serial_init :: "boot_state \<Rightarrow> boot_state" where
  "boot_serial_init s = s\<lparr>serial_programmed := True\<rparr>"

definition mark_boot_stage :: "BootStage \<Rightarrow> boot_state \<Rightarrow> boot_state" where
  "mark_boot_stage st s = s\<lparr>boot_stage := BootStage_as_u8 st\<rparr>"

definition current_boot_stage_label :: "boot_state \<Rightarrow> rstr" where
  "current_boot_stage_label s = BootStage_label (BootStage_from_u8 (boot_stage s))"

definition boot_write :: "rstr \<Rightarrow> boot_state \<Rightarrow> boot_state" where
  "boot_write t s = s\<lparr>boot_log := boot_log s @ t\<rparr>"

definition log_line :: "rstr \<Rightarrow> rstr \<Rightarrow> rstr" where
  "log_line stage message = lit ''AetherOS: boot ['' @ stage @ lit ''] '' @ message @ [0x0A]"

definition log_boot_stage :: "rstr \<Rightarrow> boot_state \<Rightarrow> boot_state" where
  "log_boot_stage message s = boot_write (log_line (current_boot_stage_label s) message) s"

definition log_boot_summary :: "BootInfo \<Rightarrow> boot_state \<Rightarrow> boot_state" where
  "log_boot_summary b s =
     boot_write (log_line (current_boot_stage_label s)
       (lit ''hhdm='' @ display_hex (unat (hhdm_offset b)) @
        lit '' memmap_entries='' @ display_nat (memory_map_entries b) @
        lit '' region_capacity='' @ display_nat MAX_MEMORY_REGIONS @
        lit '' framebuffer='' @ (if framebuffer b \<noteq> None then lit ''yes'' else lit ''no''))) s"

definition classify_memory_region :: "u64 \<Rightarrow> MemoryRegionKind" where
  "classify_memory_region t =
     (if t = 0 then Usable
      else if t = 5 then Reclaimable
      else if t = 6 then KernelRegion
      else if t = 7 then FramebufferRegion
      else if 1 \<le> t \<and> t \<le> 4 then Reserved
      else UnknownRegion)"

fun fill_regions :: "nat \<Rightarrow> memmap_entry list \<Rightarrow> MemoryRegion list \<Rightarrow> MemoryRegion list res" where
  "fill_regions i [] regions = Inr regions"
| "fill_regions i (e # es) regions =
     rbind (update_chk regions i
         (MemoryRegion_new (entry_base e) (entry_length e) (classify_memory_region (entry_type e))))
       (fill_regions (Suc i) es)"

definition framebuffer_info :: "limine_framebuffer \<Rightarrow> FramebufferInfo" where
  "framebuffer_info f =
     FramebufferInfo_new (lfb_address f) (ucast (lfb_width f)) (ucast (lfb_height f))
       (ucast (lfb_pitch f)) (lfb_bpp f)"

definition first_framebuffer :: "limine_responses \<Rightarrow> FramebufferInfo option" where
  "first_framebuffer l =
     (case framebuffer_response l of
        None \<Rightarrow> None
      | Some fbs \<Rightarrow> map_option framebuffer_info (first_of fbs))"

definition collect_boot_info :: "limine_responses \<Rightarrow> boot_state \<Rightarrow> (panic + BootInfo) \<times> boot_state" where
  "collect_boot_info l s0 =
     (let s1 = log_boot_stage (lit ''collecting boot info'') (mark_boot_stage CollectingBootInfo s0) in
      case hhdm_response l of
        None \<Rightarrow> (Inl (ExpectFailed ''Limine did not provide an HHDM response''), s1)
      | Some offset \<Rightarrow>
        (let s2 = log_boot_stage (lit ''HHDM response collected'') (mark_boot_stage HhdmReady s1) in
         case memmap_response l of
           None \<Rightarrow> (Inl (ExpectFailed ''Limine did not provide a memory map response''), s2)
         | Some entries \<Rightarrow>
           (let s3 = log_boot_stage (lit ''memory map response collected'') (mark_boot_stage MemoryMapReady s2);
                s4 = boot_write (log_line (current_boot_stage_label s3)
                       (lit ''normalizing '' @ display_nat (min (length entries) MAX_MEMORY_REGIONS) @
                        lit '' memory regions'')) s3
            in case fill_regions 0 (take MAX_MEMORY_REGIONS entries)
                      (replicate MAX_MEMORY_REGIONS MemoryRegion_EMPTY) of
                 Inl p \<Rightarrow> (Inl p, s4)
               | Inr regions \<Rightarrow>
                 (let s5 = log_boot_stage (lit ''memory regions normalized'') (mark_boot_stage RegionsMapped s4);
                      fb = first_framebuffer l;
                      s6 = log_boot_stage (if fb \<noteq> None then lit ''framebuffer response collected''
                             else lit ''framebuffer unavailable'') (mark_boot_stage FramebufferReady s5)
                  in (Inr (BootInfo_new offset (length entries) fb regions), s6)))))"

text \<open>\<open>core::panic::handle\<close>; the text of the \<open>PanicInfo\<close> is produced by the compiler and is the
  argument \<open>info\<close>.\<close>

definition panic_handle :: "rstr \<Rightarrow> boot_state \<Rightarrow> boot_state" where
  "panic_handle info s =
     (let stage_line = lit ''AetherOS panic stage: '' @ current_boot_stage_label s @ [0x0A];
          info_line = lit ''AetherOS panic: '' @ info @ [0x0A]
      in boot_write info_line (boot_write stage_line (boot_write (stage_line @ info_line) s)))"

datatype boot_outcome = Halted | KernelRun BootInfo

text \<open>\<open>enter\<close>, up to the call of \<open>run\<close>.\<close>

definition enter :: "(panic \<Rightarrow> rstr) \<Rightarrow> limine_responses \<Rightarrow> boot_state \<Rightarrow> boot_outcome \<times> boot_state" where
  "enter info l s0 =
     (let s1 = log_boot_stage (lit ''kernel entry reached'') (boot_serial_init (mark_boot_stage Entry s0)) in
      if \<not> revision_supported l then
        (Halted, boot_write (lit ''AetherOS: unsupported Limine base revision'' @ [0x0A])
          (mark_boot_stage RevisionRejected s1))
      else
        let s2 = log_boot_stage (lit ''Limine base revision accepted'') (mark_boot_stage RevisionAccepted s1)
        in case collect_boot_info l s2 of
             (Inl p, s3) \<Rightarrow> (Halted, panic_handle (info p) s3)
           | (Inr b, s3) \<Rightarrow>
               (KernelRun b,
                log_boot_stage (lit ''transferring control to generic kernel init'')
                  (mark_boot_stage KernelInit (log_boot_summary b (mark_boot_stage BootInfoReady s3)))))"

section \<open>Facts\<close>

lemma boot_write_sel [simp]:
  "boot_stage (boot_write t s) = boot_stage s" "boot_log (boot_write t s) = boot_log s @ t"
  by (simp_all add: boot_write_def)

lemma mark_sel [simp]:
  "boot_stage (mark_boot_stage st s) = BootStage_as_u8 st" "boot_log (mark_boot_stage st s) = boot_log s"
  by (simp_all add: mark_boot_stage_def)

lemma boot_serial_init_sel [simp]:
  "boot_stage (boot_serial_init s) = boot_stage s" "boot_log (boot_serial_init s) = boot_log s"
  "current_boot_stage_label (boot_serial_init s) = current_boot_stage_label s"
  by (simp_all add: boot_serial_init_def current_boot_stage_label_def)

lemma log_sel [simp]:
  "boot_stage (log_boot_stage m s) = boot_stage s"
  "boot_log (log_boot_stage m s) = boot_log s @ log_line (current_boot_stage_label s) m"
  by (simp_all add: log_boot_stage_def)

lemma current_label [simp]:
  "current_boot_stage_label (mark_boot_stage st s) = BootStage_label st"
  "current_boot_stage_label (boot_write t s) = current_boot_stage_label s"
  "current_boot_stage_label (log_boot_stage m s) = current_boot_stage_label s"
  by (simp_all add: current_boot_stage_label_def stage_roundtrip)

definition region_of_entry :: "memmap_entry \<Rightarrow> MemoryRegion" where
  "region_of_entry e =
     MemoryRegion_new (entry_base e) (entry_length e) (classify_memory_region (entry_type e))"

lemma fill_regions_spec:
  "i + length es \<le> length regions \<Longrightarrow>
   fill_regions i es regions = Inr (take i regions @ map region_of_entry es @ drop (i + length es) regions)"
proof (induction es arbitrary: i regions)
  case (Cons e es)
  have i: "i < length regions" using Cons.prems by simp
  let ?r = "regions[i := region_of_entry e]"
  have "fill_regions i (e # es) regions = fill_regions (Suc i) es ?r"
    using i by (simp add: panic_free region_of_entry_def)
  also have "\<dots> = Inr (take (Suc i) ?r @ map region_of_entry es @ drop (Suc i + length es) ?r)"
    using Cons.IH [of "Suc i" ?r] Cons.prems by simp
  also have "take (Suc i) ?r = take i regions @ [region_of_entry e]"
    using i by (simp add: take_Suc_conv_app_nth)
  finally show ?case using i by simp
qed simp

definition normalized_regions :: "memmap_entry list \<Rightarrow> MemoryRegion list" where
  "normalized_regions entries =
     map region_of_entry (take MAX_MEMORY_REGIONS entries) @
     replicate (MAX_MEMORY_REGIONS - length entries) MemoryRegion_EMPTY"

lemma fill_regions_boot:
  "fill_regions 0 (take MAX_MEMORY_REGIONS entries) (replicate MAX_MEMORY_REGIONS MemoryRegion_EMPTY) =
     Inr (normalized_regions entries)"
  by (simp add: fill_regions_spec normalized_regions_def min_def)

lemma collect_spec:
  assumes "hhdm_response l = Some offset" and "memmap_response l = Some entries"
  shows "\<exists>s'. collect_boot_info l s =
      (Inr (BootInfo_new offset (length entries) (first_framebuffer l) (normalized_regions entries)), s') \<and>
    boot_stage s' = BootStage_as_u8 FramebufferReady \<and>
    boot_log s' = boot_log s @ concat (map (\<lambda>(st, m). log_line (BootStage_label st) m)
      [(CollectingBootInfo, lit ''collecting boot info''), (HhdmReady, lit ''HHDM response collected''),
       (MemoryMapReady, lit ''memory map response collected''),
       (MemoryMapReady, lit ''normalizing '' @ display_nat (min (length entries) MAX_MEMORY_REGIONS) @
          lit '' memory regions''),
       (RegionsMapped, lit ''memory regions normalized''),
       (FramebufferReady, if first_framebuffer l \<noteq> None then lit ''framebuffer response collected''
          else lit ''framebuffer unavailable'')])"
  using assms
  by (simp add: collect_boot_info_def Let_def fill_regions_boot)

section \<open>Properties\<close>

text \<open>The lines of a complete boot log.\<close>

definition boot_lines :: "BootInfo \<Rightarrow> (BootStage \<times> rstr) list" where
  "boot_lines b =
    [(Entry, lit ''kernel entry reached''), (RevisionAccepted, lit ''Limine base revision accepted''),
     (CollectingBootInfo, lit ''collecting boot info''), (HhdmReady, lit ''HHDM response collected''),
     (MemoryMapReady, lit ''memory map response collected''),
     (MemoryMapReady, lit ''normalizing '' @ display_nat (min (memory_map_entries b) MAX_MEMORY_REGIONS) @
        lit '' memory regions''),
     (RegionsMapped, lit ''memory regions normalized''),
     (FramebufferReady, if framebuffer b \<noteq> None then lit ''framebuffer response collected''
        else lit ''framebuffer unavailable''),
     (BootInfoReady, lit ''hhdm='' @ display_hex (unat (hhdm_offset b)) @ lit '' memmap_entries='' @
        display_nat (memory_map_entries b) @ lit '' region_capacity='' @ display_nat MAX_MEMORY_REGIONS @
        lit '' framebuffer='' @ (if framebuffer b \<noteq> None then lit ''yes'' else lit ''no'')),
     (KernelInit, lit ''transferring control to generic kernel init'')]"

lemma enter_spec:
  assumes "revision_supported l" and "hhdm_response l = Some offset" and "memmap_response l = Some entries"
  shows "\<exists>b s. enter info l boot_static = (KernelRun b, s) \<and> boot_info_wf b \<and>
    b = BootInfo_new offset (length entries) (first_framebuffer l) (normalized_regions entries) \<and>
    boot_stage s = BootStage_as_u8 KernelInit \<and>
    boot_log s = concat (map (\<lambda>(st, m). log_line (BootStage_label st) m) (boot_lines b)) \<and>
    sorted (map fst (boot_lines b))"
proof -
  let ?b = "BootInfo_new offset (length entries) (first_framebuffer l) (normalized_regions entries)"
  have "boot_info_wf ?b"
    by (simp add: boot_info_wf_def BootInfo_new_def normalized_regions_def min_def)
  moreover have "sorted (map fst (boot_lines ?b))"
    by (simp add: boot_lines_def less_eq_BootStage_def)
  moreover have "\<exists>s. enter info l boot_static = (KernelRun ?b, s) \<and>
      boot_stage s = BootStage_as_u8 KernelInit \<and>
      boot_log s = concat (map (\<lambda>(st, m). log_line (BootStage_label st) m) (boot_lines ?b))"
  proof -
    let ?s2 = "log_boot_stage (lit ''Limine base revision accepted'') (mark_boot_stage RevisionAccepted
      (log_boot_stage (lit ''kernel entry reached'') (boot_serial_init (mark_boot_stage Entry boot_static))))"
    obtain s3 where "collect_boot_info l ?s2 = (Inr ?b, s3)"
      "boot_stage s3 = BootStage_as_u8 FramebufferReady"
      "boot_log s3 = boot_log ?s2 @ concat (map (\<lambda>(st, m). log_line (BootStage_label st) m)
        [(CollectingBootInfo, lit ''collecting boot info''), (HhdmReady, lit ''HHDM response collected''),
         (MemoryMapReady, lit ''memory map response collected''),
         (MemoryMapReady, lit ''normalizing '' @ display_nat (min (length entries) MAX_MEMORY_REGIONS) @
            lit '' memory regions''),
         (RegionsMapped, lit ''memory regions normalized''),
         (FramebufferReady, if first_framebuffer l \<noteq> None then lit ''framebuffer response collected''
            else lit ''framebuffer unavailable'')])"
      using collect_spec [OF assms(2,3), of ?s2] by blast
    then show ?thesis
      using assms(1)
      by (simp add: enter_def Let_def log_boot_summary_def boot_lines_def BootInfo_new_def boot_static_def)
  qed
  ultimately show ?thesis by blast
qed

text \<open>(C21) When Limine answers the two mandatory requests, the boot layer never halts: it hands the
  kernel a well-formed \<open>BootInfo\<close> whose region table is the first 64 entries of the memory map,
  classified and padded with empty reserved regions, and it logs one line per step, in the order of
  the stages, ending in stage \<open>KernelInit\<close>.\<close>

theorem boot_hands_over:
  assumes "revision_supported l" and "hhdm_response l = Some offset" and "memmap_response l = Some entries"
  shows "\<exists>b s. enter info l boot_static = (KernelRun b, s) \<and> boot_info_wf b \<and>
    b = BootInfo_new offset (length entries) (first_framebuffer l) (normalized_regions entries) \<and>
    boot_stage s = BootStage_as_u8 KernelInit \<and>
    boot_log s = concat (map (\<lambda>(st, m). log_line (BootStage_label st) m) (boot_lines b)) \<and>
    sorted (map fst (boot_lines b))"
  by (rule enter_spec [OF assms])

definition example_responses :: limine_responses where
  "example_responses =
     \<lparr>revision_supported = True, hhdm_response = Some 0xFFFF800000000000,
      memmap_response = Some [\<lparr>entry_base = 0x1000, entry_length = 0x9E000, entry_type = 0\<rparr>],
      framebuffer_response = None\<rparr>"

theorem boot_hands_over_witness:
  "\<exists>b s. enter (\<lambda>_. []) example_responses boot_static = (KernelRun b, s) \<and>
     memory_regions b ! 0 = \<lparr>mr_base = 0x1000, mr_length = 0x9E000, mr_kind = Usable\<rparr> \<and>
     boot_stage s = 9"
  using boot_hands_over [of example_responses "0xFFFF800000000000"
      "[\<lparr>entry_base = 0x1000, entry_length = 0x9E000, entry_type = 0\<rparr>]" "\<lambda>_. []"]
  by (auto simp: example_responses_def normalized_regions_def BootInfo_new_def region_of_entry_def
      MemoryRegion_new_def classify_memory_region_def MAX_MEMORY_REGIONS_def)

definition panic_report :: "BootStage \<Rightarrow> rstr \<Rightarrow> rstr" where
  "panic_report st info =
     lit ''AetherOS panic stage: '' @ BootStage_label st @ [0x0A] @ lit ''AetherOS panic: '' @ info @ [0x0A]"

definition missing_response :: "limine_responses \<Rightarrow> (BootStage \<times> panic) option" where
  "missing_response l =
     (if hhdm_response l = None then
        Some (CollectingBootInfo, ExpectFailed ''Limine did not provide an HHDM response'')
      else if memmap_response l = None then
        Some (HhdmReady, ExpectFailed ''Limine did not provide a memory map response'')
      else None)"

lemma panic_handle_log:
  "boot_stage s = BootStage_as_u8 st \<Longrightarrow>
   boot_log (panic_handle i s) = boot_log s @ panic_report st i @ panic_report st i"
  by (simp add: panic_handle_def Let_def panic_report_def current_boot_stage_label_def stage_roundtrip)

lemma collect_missing:
  assumes "missing_response l = Some (st, p)"
  shows "fst (collect_boot_info l s) = Inl p" and "boot_stage (snd (collect_boot_info l s)) = BootStage_as_u8 st"
  using assms
  by (auto simp: missing_response_def collect_boot_info_def Let_def split: if_splits option.splits)

lemma enter_halts:
  "fst (enter info l s) = Halted \<longleftrightarrow> \<not> revision_supported l \<or> hhdm_response l = None \<or> memmap_response l = None"
  by (cases "hhdm_response l"; cases "memmap_response l")
    (simp_all add: enter_def Let_def collect_boot_info_def fill_regions_boot)

text \<open>Once the serial line is programmed it stays so; on every outcome \<open>enter\<close> has programmed it, before its first print.\<close>

lemma serial_programmed_kept [simp]:
  "serial_programmed (boot_write t s) = serial_programmed s" "serial_programmed (mark_boot_stage st s) = serial_programmed s"
  "serial_programmed (log_boot_stage m s) = serial_programmed s" "serial_programmed (log_boot_summary b s) = serial_programmed s"
  "serial_programmed (panic_handle i s) = serial_programmed s" "serial_programmed (boot_serial_init s)"
  by (simp_all add: boot_write_def mark_boot_stage_def log_boot_stage_def log_boot_summary_def panic_handle_def boot_serial_init_def Let_def)

lemma collect_serial_programmed [simp]: "serial_programmed (snd (collect_boot_info l s)) = serial_programmed s"
  by (auto simp: collect_boot_info_def Let_def split: option.splits sum.splits)

lemma enter_serial_programmed: "serial_programmed (snd (enter info l s))"
proof -
  define s2 where "s2 = log_boot_stage (lit ''Limine base revision accepted'') (mark_boot_stage RevisionAccepted
      (log_boot_stage (lit ''kernel entry reached'') (boot_serial_init (mark_boot_stage Entry s))))"
  obtain r s3 where c: "collect_boot_info l s2 = (r, s3)" by (cases "collect_boot_info l s2")
  have "serial_programmed s3" using collect_serial_programmed [of l s2] by (simp add: c) (simp add: s2_def)
  then show ?thesis using c by (cases r) (simp_all add: enter_def Let_def s2_def)
qed

text \<open>The boot layer halts exactly when the base revision is not supported or a mandatory
  response is missing; after a missing response the log ends with the panic report of the handler
  (printed twice), which names the stage that was reached.\<close>

theorem boot_halts_iff:
  "(fst (enter info l s) = Halted \<longleftrightarrow>
     \<not> revision_supported l \<or> hhdm_response l = None \<or> memmap_response l = None) \<and>
   (\<forall>st p. revision_supported l \<and> missing_response l = Some (st, p) \<longrightarrow>
     (\<exists>pre. boot_log (snd (enter info l s)) = pre @ panic_report st (info p) @ panic_report st (info p)))"
proof (intro conjI allI impI)
  fix st p
  assume a: "revision_supported l \<and> missing_response l = Some (st, p)"
  define s2 where "s2 = log_boot_stage (lit ''Limine base revision accepted'') (mark_boot_stage RevisionAccepted
      (log_boot_stage (lit ''kernel entry reached'') (boot_serial_init (mark_boot_stage Entry s))))"
  obtain s3 where c: "collect_boot_info l s2 = (Inl p, s3)"
    using a collect_missing(1) [of l st p s2] by (cases "collect_boot_info l s2") auto
  then have "boot_stage s3 = BootStage_as_u8 st" using a collect_missing(2) [of l st p s2] by simp
  moreover have "snd (enter info l s) = panic_handle (info p) s3"
    using a c by (simp add: enter_def Let_def s2_def)
  ultimately show "\<exists>pre. boot_log (snd (enter info l s)) =
      pre @ panic_report st (info p) @ panic_report st (info p)"
    using panic_handle_log [of s3 st "info p"] by simp
next
  show "fst (enter info l s) = Halted \<longleftrightarrow>
     \<not> revision_supported l \<or> hhdm_response l = None \<or> memmap_response l = None"
    by (rule enter_halts)
qed

theorem boot_halts_iff_witness:
  "\<exists>pre. boot_log (snd (enter (\<lambda>_. lit ''no map'') (example_responses\<lparr>memmap_response := None\<rparr>) boot_static)) =
     pre @ panic_report HhdmReady (lit ''no map'') @ panic_report HhdmReady (lit ''no map'')"
  using boot_halts_iff [of "\<lambda>_. lit ''no map''" "example_responses\<lparr>memmap_response := None\<rparr>" boot_static]
  by (simp add: example_responses_def missing_response_def)

end
