(* ===== verification/Kernel_State.thy ===== *)
theory Kernel_State
  imports Frame_Allocator Heap Vfs Scheduler Keyboard Serial Vga Interrupts Boot
begin

text \<open>
  The statics of the generic kernel in one record, and the drivers that only connect components:
  console output (\<^verbatim>\<open>core/logger.rs\<close>, the \<open>print!\<close> and \<open>println!\<close> macros of \<^verbatim>\<open>utils/macros.rs\<close>),
  \<^verbatim>\<open>drivers/timer.rs\<close>, \<^verbatim>\<open>drivers/framebuffer.rs\<close>, \<^verbatim>\<open>drivers/storage.rs\<close> and the system calls
  (\<^verbatim>\<open>syscall/table.rs\<close>, \<^verbatim>\<open>syscall/handlers.rs\<close>).  The console is the text handed to the serial
  driver, whose theory says which bytes it becomes on the wire.
\<close>

section \<open>State\<close>

definition MAX_LINE_LEN :: nat where "MAX_LINE_LEN = 128"

record Shell =
  shell_initialized :: bool
  line_buffer :: "u8 list"
  line_len :: nat

definition Shell_new :: Shell where
  "Shell_new = \<lparr>shell_initialized = False, line_buffer = replicate MAX_LINE_LEN 0, line_len = 0\<rparr>"

record 'va kernel =
  k_console :: rstr
  k_frames :: frame_state
  k_heap :: BumpAllocator
  k_sched :: "'va sched_state"
  k_ticks :: u64
  k_kbd :: keyboard
  k_fb :: "FramebufferInfo option"
  k_pixels :: "pixel_store list"
  k_vfs :: VfsState
  k_shell :: Shell
  k_irq :: irq_state

text \<open>The values of the statics before \<open>core::init::initialize\<close> runs, with what the boot layer has
  already printed.\<close>

definition kernel_static :: "rstr \<Rightarrow> 'va kernel" where
  "kernel_static log =
     \<lparr>k_console = log, k_frames = frame_state_init, k_heap = BumpAllocator_new, k_sched = sched_static,
      k_ticks = 0, k_kbd = keyboard_static, k_fb = None, k_pixels = [], k_vfs = vfs_static,
      k_shell = Shell_new, k_irq = irq_static\<rparr>"

section \<open>Console output\<close>

definition print :: "rstr \<Rightarrow> 'va kernel \<Rightarrow> 'va kernel" where
  "print t k = k\<lparr>k_console := k_console k @ t\<rparr>"

definition println :: "rstr \<Rightarrow> 'va kernel \<Rightarrow> 'va kernel" where
  "println t k = print (t @ [newline]) k"

definition println_all :: "rstr list \<Rightarrow> 'va kernel \<Rightarrow> 'va kernel" where
  "println_all ts k = fold println ts k"

text \<open>\<open>{:?}\<close> of a string and of an optional string: the escapes of printable ASCII text; the strings
  that reach it are the task names, which need none.\<close>

definition debug_char :: "rchar \<Rightarrow> rstr" where
  "debug_char c = (if c = 0x22 \<or> c = 0x5C then [0x5C, c] else [c])"

definition debug_option_str :: "rstr option \<Rightarrow> rstr" where
  "debug_option_str x =
     (case x of
        None \<Rightarrow> lit ''None''
      | Some s \<Rightarrow> lit ''Some('' @ [0x22] @ concat (map debug_char s) @ [0x22] @ lit '')'')"

section \<open>Timer\<close>

definition timer_initialize :: "'va kernel \<Rightarrow> 'va kernel" where
  "timer_initialize k =
     println (lit ''AetherOS: PIT timer initialized at 100 Hz'') (k\<lparr>k_ticks := 0\<rparr>)"

definition on_tick :: "'va kernel \<Rightarrow> 'va kernel res" where
  "on_tick k =
     (let old = k_ticks k; k1 = k\<lparr>k_ticks := old + 1\<rparr> in
      rbind (add_chk old 1) (\<lambda>tick.
      rbind (scheduler_tick (k_sched k1)) (\<lambda>s.
        let k2 = k1\<lparr>k_sched := s\<rparr> in
        Inr (if tick mod 100 = 0
             then println (lit ''AetherOS: uptime ticks='' @ display_nat (unat tick)) k2
             else k2))))"

definition ticks :: "'va kernel \<Rightarrow> u64" where
  "ticks k = k_ticks k"

section \<open>Framebuffer and storage\<close>

definition show_visual :: "FramebufferInfo \<Rightarrow> 'va kernel \<Rightarrow> 'va kernel res" where
  "show_visual fb k =
     rbind (render_boot_visual fb) (\<lambda>(text, stores).
       Inr (print text (k\<lparr>k_pixels := k_pixels k @ stores\<rparr>)))"

definition framebuffer_initialize :: "FramebufferInfo option \<Rightarrow> 'va kernel \<Rightarrow> 'va kernel res" where
  "framebuffer_initialize fb k =
     (case fb of
        Some f \<Rightarrow> show_visual f (k\<lparr>k_fb := Some f\<rparr>)
      | None \<Rightarrow> Inr (println (lit ''AetherOS: no framebuffer available, serial output only'') k))"

definition redraw_boot_shell_surface :: "'va kernel \<Rightarrow> 'va kernel res" where
  "redraw_boot_shell_surface k =
     (case k_fb k of
        Some f \<Rightarrow> show_visual f k
      | None \<Rightarrow> Inr (println (lit ''AetherOS: framebuffer unavailable, nothing to clear'') k))"

record StorageDeviceInfo =
  dev_name :: rstr
  writable :: bool
  persistent :: bool
  block_size :: nat

definition primary_device :: StorageDeviceInfo where
  "primary_device =
     \<lparr>dev_name = lit ''memory-overlay'', writable = True, persistent = False, block_size = 1\<rparr>"

section \<open>System calls\<close>

datatype Syscall = WriteDebug | QueryTicks | QueryTaskCount | QueryHeapUsage | QueryUsableFrames
  | QueryExecutionMode | QueryAddressSpaceKind

fun Syscall_number :: "Syscall \<Rightarrow> u64" where
  "Syscall_number WriteDebug = 0"
| "Syscall_number QueryTicks = 1"
| "Syscall_number QueryTaskCount = 2"
| "Syscall_number QueryHeapUsage = 3"
| "Syscall_number QueryUsableFrames = 4"
| "Syscall_number QueryExecutionMode = 5"
| "Syscall_number QueryAddressSpaceKind = 6"

fun dispatch :: "Syscall \<Rightarrow> u64 \<Rightarrow> 'va kernel \<Rightarrow> (u64 \<times> 'va kernel) res" where
  "dispatch WriteDebug arg0 k =
     Inr (0, println (lit ''AetherOS syscall debug: '' @ display_nat (unat arg0)) k)"
| "dispatch QueryTicks arg0 k = Inr (ticks k, k)"
| "dispatch QueryTaskCount arg0 k = Inr (task_count (k_sched k), k)"
| "dispatch QueryHeapUsage arg0 k = rbind (heap_used (k_heap k)) (\<lambda>u. Inr (u, k))"
| "dispatch QueryUsableFrames arg0 k = Inr (usable_frame_count (k_frames k), k)"
| "dispatch QueryExecutionMode arg0 k =
     rbind (current_task_execution_mode (k_sched k)) (\<lambda>m.
       Inr (case m of Some Kernel \<Rightarrow> 0 | Some User \<Rightarrow> 1 | None \<Rightarrow> - 1, k))"
| "dispatch QueryAddressSpaceKind arg0 k =
     rbind (current_task_address_space_kind (k_sched k)) (\<lambda>m.
       Inr (case m of Some KernelOnly \<Rightarrow> 0 | Some KernelAndUser \<Rightarrow> 1 | None \<Rightarrow> - 1, k))"

section \<open>Facts about the console\<close>

lemma print_simps [simp]:
  "k_console (print t k) = k_console k @ t" "k_frames (print t k) = k_frames k"
  "k_heap (print t k) = k_heap k" "k_sched (print t k) = k_sched k" "k_ticks (print t k) = k_ticks k"
  "k_kbd (print t k) = k_kbd k" "k_fb (print t k) = k_fb k" "k_pixels (print t k) = k_pixels k"
  "k_vfs (print t k) = k_vfs k" "k_shell (print t k) = k_shell k" "k_irq (print t k) = k_irq k"
  by (simp_all add: print_def)

lemma println_simps [simp]:
  "k_console (println t k) = k_console k @ t @ [newline]" "k_frames (println t k) = k_frames k"
  "k_heap (println t k) = k_heap k" "k_sched (println t k) = k_sched k" "k_ticks (println t k) = k_ticks k"
  "k_kbd (println t k) = k_kbd k" "k_fb (println t k) = k_fb k" "k_pixels (println t k) = k_pixels k"
  "k_vfs (println t k) = k_vfs k" "k_shell (println t k) = k_shell k" "k_irq (println t k) = k_irq k"
  by (simp_all add: println_def)

lemma println_all_eq: "println_all ts k = print (concat (map (\<lambda>t. t @ [newline]) ts)) k"
proof (induction ts arbitrary: k)
  case Nil
  then show ?case by (simp add: println_all_def print_def)
next
  case (Cons t ts)
  then show ?case by (simp add: println_all_def println_def print_def)
qed

lemma heap_used_total: "\<exists>u. heap_used h = Inr u"
  by (auto simp: heap_used_def Let_def panic_free not_less)

end
