(* ===== verification/Kernel_Shell.thy ===== *)
theory Kernel_Shell
  imports Kernel_State
begin

text \<open>
  \<^verbatim>\<open>kernel/src/shell.rs\<close>: the line editor and the commands.  A command is a function on the whole
  kernel state, because the shell reads or changes every other component.
\<close>

section \<open>Commands\<close>

definition cmd_help :: "'va kernel \<Rightarrow> 'va kernel" where
  "cmd_help k = println_all (map lit
     [''commands:'',
      ''  help        Show this command list'',
      ''  info        Show kernel and keyboard status'',
      ''  ticks       Show PIT tick counter'',
      ''  mem         Show frame allocator and heap status'',
      ''  tasks       Show scheduler task summary'',
      ''  ls          List VFS root entries'',
      ''  cat <FILE>  Read a VFS file'',
      ''  write <FILE> <TEXT>  Create or update a writable overlay file'',
      ''  rm <FILE>   Remove a writable overlay file'',
      ''  storage     Show storage boundary status'',
      ''  clear       Redraw the framebuffer shell surface'']) k"

text \<open>The lines about the scheduler that \<open>info\<close> and \<open>tasks\<close> share.\<close>

definition unwrap_or :: "rstr \<Rightarrow> rstr option \<Rightarrow> rstr" where
  "unwrap_or d x = (case x of None \<Rightarrow> d | Some s \<Rightarrow> s)"

definition print_scheduler :: "'va kernel \<Rightarrow> 'va kernel res" where
  "print_scheduler k =
     rbind (current_task_name (k_sched k)) (\<lambda>name.
     rbind (current_task_state (k_sched k)) (\<lambda>st.
     rbind (current_task_execution_mode (k_sched k)) (\<lambda>mode.
     rbind (current_task_address_space_kind (k_sched k)) (\<lambda>sp.
       Inr (println_all
         [lit ''scheduler model = '' @ scheduling_model,
          lit ''task count = '' @ display_nat (unat (task_count (k_sched k))),
          lit ''current task = '' @ debug_option_str name,
          lit ''current task state = '' @ unwrap_or (lit ''unavailable'') (map_option ProcessState_label st),
          lit ''current task mode = '' @ unwrap_or (lit ''unavailable'') (map_option ExecutionMode_label mode),
          lit ''address space kind = '' @
            unwrap_or (lit ''unavailable'') (map_option AddressSpaceKind_label sp)] k)))))"

definition cmd_info :: "'va kernel \<Rightarrow> 'va kernel res" where
  "cmd_info k =
     print_scheduler (println_all
       [lit ''AetherOS academic kernel'',
        lit ''keyboard initialized = '' @ display_bool (is_initialized (k_kbd k))] k)"

definition cmd_ticks :: "'va kernel \<Rightarrow> 'va kernel" where
  "cmd_ticks k = println (lit ''ticks = '' @ display_nat (unat (ticks k))) k"

definition cmd_mem :: "'va kernel \<Rightarrow> 'va kernel res" where
  "cmd_mem k =
     rbind (heap_used (k_heap k)) (\<lambda>hu.
       Inr (println_all
         [lit ''usable ranges = '' @ display_nat (usable_range_count (k_frames k)),
          lit ''usable frames = '' @ display_nat (unat (usable_frame_count (k_frames k))),
          lit ''heap size = '' @ display_nat (unat heap_size),
          lit ''heap used = '' @ display_nat (unat hu)] k))"

definition cmd_tasks :: "'va kernel \<Rightarrow> 'va kernel res" where
  "cmd_tasks k = print_scheduler k"

definition cmd_ls :: "'va kernel \<Rightarrow> 'va kernel res" where
  "cmd_ls k = rbind (for_each_entry (writable_files (k_vfs k))) (\<lambda>names. Inr (println_all names k))"

text \<open>Printing a returned reference prints the text its bytes are at that moment.  A \<open>&str\<close> with bytes that
  are not UTF-8 is what the contract of the unsafe code in \<open>leak_str\<close> forbids: nothing is promised of a
  program that has one, so the model stops there with an error of its own.\<close>

definition shown_text :: "OverlayFile list \<Rightarrow> str_ref \<Rightarrow> rstr res" where
  "shown_text fs r =
     (case from_utf8 (deref fs r) of None \<Rightarrow> Inl (LibraryPanic ''str is not UTF-8'') | Some t \<Rightarrow> Inr t)"

definition cmd_cat :: "rstr list \<Rightarrow> 'va kernel \<Rightarrow> 'va kernel res" where
  "cmd_cat args k =
     (case args of
        [] \<Rightarrow> Inr (println (lit ''usage: cat <FILE>'') k)
      | path # _ \<Rightarrow>
          rbind (vfs_read path (writable_files (k_vfs k))) (\<lambda>r.
            case r of
              Some contents \<Rightarrow>
                rbind (shown_text (writable_files (k_vfs k)) contents) (\<lambda>t. Inr (println t k))
            | None \<Rightarrow> Inr (println (lit ''file not found: '' @ path) k)))"

definition set_files :: "OverlayFile list \<Rightarrow> 'va kernel \<Rightarrow> 'va kernel" where
  "set_files fs k = k\<lparr>k_vfs := (k_vfs k)\<lparr>writable_files := fs\<rparr>\<rparr>"

definition cmd_write :: "rstr \<Rightarrow> 'va kernel \<Rightarrow> 'va kernel res" where
  "cmd_write command k =
     (case strip_prefix (lit ''write '') command of
        None \<Rightarrow> Inr (println (lit ''usage: write <FILE> <TEXT>'') k)
      | Some args \<Rightarrow>
          (case split_once 0x20 args of
             None \<Rightarrow> Inr (println (lit ''usage: write <FILE> <TEXT>'') k)
           | Some (path, contents) \<Rightarrow>
               rbind (vfs_write path contents (writable_files (k_vfs k))) (\<lambda>(r, fs).
                 Inr (case r of
                        Inr _ \<Rightarrow> println (lit ''written: '' @ path) (set_files fs k)
                      | Inl e \<Rightarrow> println (lit ''write failed: '' @ VfsError_message e) (set_files fs k)))))"

definition cmd_rm :: "rstr list \<Rightarrow> 'va kernel \<Rightarrow> 'va kernel res" where
  "cmd_rm args k =
     (case args of
        [] \<Rightarrow> Inr (println (lit ''usage: rm <FILE>'') k)
      | path # _ \<Rightarrow>
          rbind (vfs_remove path (writable_files (k_vfs k))) (\<lambda>(r, fs).
            Inr (case r of
                   Inr _ \<Rightarrow> println (lit ''removed: '' @ path) (set_files fs k)
                 | Inl e \<Rightarrow> println (lit ''remove failed: '' @ VfsError_message e) (set_files fs k))))"

definition cmd_storage :: "'va kernel \<Rightarrow> 'va kernel" where
  "cmd_storage k =
     println_all
       [lit ''storage device = '' @ dev_name primary_device,
        lit ''writable = '' @ display_bool (writable primary_device),
        lit ''persistent = '' @ display_bool (persistent primary_device),
        lit ''block size = '' @ display_nat (block_size primary_device)] k"

definition cmd_clear :: "'va kernel \<Rightarrow> 'va kernel res" where
  "cmd_clear k = rbind (redraw_boot_shell_surface k) (\<lambda>k'. Inr (println (lit ''screen redrawn'') k'))"

definition execute_command :: "rstr \<Rightarrow> 'va kernel \<Rightarrow> 'va kernel res" where
  "execute_command command k =
     (case split_whitespace command of
        [] \<Rightarrow> Inr k
      | head # args \<Rightarrow>
          if head = lit ''help'' then Inr (cmd_help k)
          else if head = lit ''info'' then cmd_info k
          else if head = lit ''ticks'' then Inr (cmd_ticks k)
          else if head = lit ''mem'' then cmd_mem k
          else if head = lit ''tasks'' then cmd_tasks k
          else if head = lit ''ls'' then cmd_ls k
          else if head = lit ''cat'' then cmd_cat args k
          else if head = lit ''write'' then cmd_write command k
          else if head = lit ''rm'' then cmd_rm args k
          else if head = lit ''storage'' then Inr (cmd_storage k)
          else if head = lit ''clear'' then cmd_clear k
          else Inr (println (lit ''unknown command: '' @ command) k))"

section \<open>The line editor\<close>

definition set_len :: "nat \<Rightarrow> 'va kernel \<Rightarrow> 'va kernel" where
  "set_len n k = k\<lparr>k_shell := (k_shell k)\<lparr>line_len := n\<rparr>\<rparr>"

definition prompt :: "'va kernel \<Rightarrow> 'va kernel" where
  "prompt k = print (lit ''aether> '') k"

definition shell_initialize :: "'va kernel \<Rightarrow> 'va kernel" where
  "shell_initialize k =
     (if shell_initialized (k_shell k) then k
      else prompt (println_all [lit ''AetherOS shell ready'', lit ''Type '' @ [0x27] @ lit ''help'' @ [0x27] @
             lit '' to list commands.'']
             (k\<lparr>k_shell := (k_shell k)\<lparr>shell_initialized := True\<rparr>\<rparr>)))"

definition execute_current_line :: "'va kernel \<Rightarrow> 'va kernel res" where
  "execute_current_line k =
     rbind (slice_to (line_buffer (k_shell k)) (line_len (k_shell k))) (\<lambda>bytes.
       case from_utf8 bytes of
         None \<Rightarrow> Inr (set_len 0 (println (lit ''invalid input'') k))
       | Some text \<Rightarrow>
           let line = trim text in
           if line = [] then Inr (set_len 0 k)
           else rbind (execute_command line k) (\<lambda>k'. Inr (set_len 0 k')))"

definition on_key :: "KeyEvent \<Rightarrow> 'va kernel \<Rightarrow> 'va kernel res" where
  "on_key event k =
     (if \<not> shell_initialized (k_shell k) then Inr k
      else case event of
        Enter \<Rightarrow> rbind (execute_current_line (print [newline] k)) (\<lambda>k'. Inr (prompt k'))
      | Backspace \<Rightarrow>
          if line_len (k_shell k) > 0
          then Inr (print [0x08, 0x20, 0x08] (set_len (line_len (k_shell k) - 1) k))
          else Inr k
      | Char_event c \<Rightarrow>
          if line_len (k_shell k) < MAX_LINE_LEN
          then rbind (update_chk (line_buffer (k_shell k)) (line_len (k_shell k)) (word_of_nat c)) (\<lambda>buf.
                 Inr (print [c] (k\<lparr>k_shell := (k_shell k)
                   \<lparr>line_buffer := buf, line_len := line_len (k_shell k) + 1\<rparr>\<rparr>)))
          else Inr (prompt (set_len 0 (println (lit ''input too long'') (print [newline] k)))))"

end
