(* ===== verification/Kernel.thy ===== *)
theory Kernel
  imports Kernel_Shell
begin

text \<open>
  The kernel as a whole: \<^verbatim>\<open>core/init.rs\<close> and the two hardware interrupt handlers of
  \<^verbatim>\<open>arch/x86_64/interrupts.rs\<close>, which are all that runs after \<open>run\<close> has initialised the kernel
  and halts in its loop.  The results are about every sequence of interrupts: nothing that arrives
  on the keyboard can make the kernel panic, and what is typed is what the file system stores.
\<close>

section \<open>Initialisation\<close>

definition memory_initialize :: "usize \<Rightarrow> BootInfo \<Rightarrow> 'va kernel \<Rightarrow> 'va kernel res" where
  "memory_initialize heap_space b k =
     rbind (frame_allocator_initialize (k_frames k) b) (\<lambda>f.
     rbind (heap_initialize heap_space (k_heap k)) (\<lambda>h.
       Inr (k\<lparr>k_frames := f, k_heap := h\<rparr>)))"

definition keyboard_initialize_kernel :: "'va kernel \<Rightarrow> 'va kernel" where
  "keyboard_initialize_kernel k =
     println (lit ''AetherOS: keyboard driver initialized'') (k\<lparr>k_kbd := keyboard_initialize (k_kbd k)\<rparr>)"

definition fs_initialize :: "'va kernel \<Rightarrow> 'va kernel" where
  "fs_initialize k = k\<lparr>k_vfs := vfs_initialize (k_vfs k)\<rparr>"

text \<open>The report that \<open>initialize\<close> prints at the end.\<close>

definition init_report :: "BootInfo \<Rightarrow> 'va kernel \<Rightarrow> 'va kernel res" where
  "init_report b k =
     rbind (heap_used (k_heap k)) (\<lambda>hu.
     rbind (current_task_name (k_sched k)) (\<lambda>name.
       Inr (println_all
         [lit ''AetherOS: kernel initialized'',
          lit ''AetherOS: HHDM offset = '' @ display_hex (unat (hhdm_offset b)),
          lit ''AetherOS: memory map entries = '' @ display_nat (memory_map_entries b),
          lit ''AetherOS: framebuffer = '' @
            (if framebuffer b \<noteq> None then lit ''available'' else lit ''unavailable''),
          lit ''AetherOS: usable frames discovered = '' @ display_nat (unat (usable_frame_count (k_frames k))),
          lit ''AetherOS: usable physical ranges = '' @ display_nat (usable_range_count (k_frames k)),
          lit ''AetherOS: kernel heap bytes = '' @ display_nat (unat heap_size),
          lit ''AetherOS: kernel heap used = '' @ display_nat (unat hu),
          lit ''AetherOS: scheduler tasks = '' @ display_nat (unat (task_count (k_sched k))),
          lit ''AetherOS: current task = '' @ debug_option_str name,
          lit ''AetherOS: scheduler model = '' @ scheduling_model,
          lit ''AetherOS: interrupts enabled''] k)))"

text \<open>\<open>core::init::initialize\<close>: \<open>vnew\<close> is \<^verbatim>\<open>VirtAddr::new\<close>, \<open>heap_space\<close> the address of the heap
  array, \<open>m1\<close> and \<open>m2\<close> the masks read from the interrupt controllers.\<close>

definition initialize ::
  "(u64 \<Rightarrow> 'va res) \<Rightarrow> usize \<Rightarrow> u8 \<Rightarrow> u8 \<Rightarrow> BootInfo \<Rightarrow> 'va kernel \<Rightarrow> 'va kernel res" where
  "initialize vnew heap_space m1 m2 b k =
     rbind (memory_initialize heap_space b (k\<lparr>k_irq := interrupts_init m1 m2 (k_irq k)\<rparr>)) (\<lambda>k1.
     rbind (scheduler_initialize vnew (k_sched k1)) (\<lambda>s.
     rbind (framebuffer_initialize (framebuffer b)
              (keyboard_initialize_kernel (timer_initialize (k1\<lparr>k_sched := s\<rparr>)))) (\<lambda>k2.
       init_report b (shell_initialize (fs_initialize k2)))))"

section \<open>Interrupts\<close>

datatype irq = TimerIrq | KeyboardIrq u8

definition end_of_interrupt :: "InterruptIndex \<Rightarrow> 'va kernel \<Rightarrow> 'va kernel" where
  "end_of_interrupt i k = k\<lparr>k_irq := notify_end_of_interrupt i (k_irq k)\<rparr>"

definition timer_interrupt_handler :: "'va kernel \<Rightarrow> 'va kernel res" where
  "timer_interrupt_handler k = rbind (on_tick k) (\<lambda>k'. Inr (end_of_interrupt Timer k'))"

definition keyboard_on_interrupt :: "u8 \<Rightarrow> 'va kernel \<Rightarrow> 'va kernel res" where
  "keyboard_on_interrupt port k =
     (case on_interrupt port (k_kbd k) of (event, kbd) \<Rightarrow>
        let k1 = k\<lparr>k_kbd := kbd\<rparr> in
        (case event of None \<Rightarrow> Inr k1 | Some e \<Rightarrow> on_key e k1))"

definition keyboard_interrupt_handler :: "u8 \<Rightarrow> 'va kernel \<Rightarrow> 'va kernel res" where
  "keyboard_interrupt_handler port k =
     rbind (keyboard_on_interrupt port k) (\<lambda>k'. Inr (end_of_interrupt Keyboard k'))"

fun handle_irq :: "irq \<Rightarrow> 'va kernel \<Rightarrow> 'va kernel res" where
  "handle_irq TimerIrq k = timer_interrupt_handler k"
| "handle_irq (KeyboardIrq b) k = keyboard_interrupt_handler b k"

fun run_irqs :: "irq list \<Rightarrow> 'va kernel \<Rightarrow> 'va kernel res" where
  "run_irqs [] k = Inr k"
| "run_irqs (i # is) k = rbind (handle_irq i k) (run_irqs is)"

section \<open>The kernel invariant\<close>

definition shell_ok :: "Shell \<Rightarrow> bool" where
  "shell_ok s \<longleftrightarrow> length (line_buffer s) = MAX_LINE_LEN \<and> line_len s \<le> MAX_LINE_LEN \<and>
     list_all (\<lambda>b. printable (unat b)) (take (line_len s) (line_buffer s))"

definition screen_ok :: "FramebufferInfo option \<Rightarrow> bool" where
  "screen_ok fb = (case fb of None \<Rightarrow> True | Some f \<Rightarrow> fb_bpp f = 32 \<longrightarrow> fb_ok f)"

text \<open>The invariant that the handlers rely on: the overlay, the scheduler, the line under the cursor and the
  screen are well-formed.  The frame allocator and the heap have invariants of their own, shown in their
  theories; no handler changes them (\<open>same_core\<close> below).\<close>

definition kernel_ok :: "'va kernel \<Rightarrow> bool" where
  "kernel_ok k \<longleftrightarrow> overlay_ok (writable_files (k_vfs k)) \<and> sched_ok (k_sched k) \<and>
     shell_ok (k_shell k) \<and> screen_ok (k_fb k)"

text \<open>What a command may change: the console, the pixels and the files.\<close>

definition same_core :: "'va kernel \<Rightarrow> 'va kernel \<Rightarrow> bool" where
  "same_core k k' \<longleftrightarrow> k_frames k' = k_frames k \<and> k_heap k' = k_heap k \<and> k_sched k' = k_sched k \<and>
     k_ticks k' = k_ticks k \<and> k_kbd k' = k_kbd k \<and> k_fb k' = k_fb k \<and> k_shell k' = k_shell k \<and>
     k_irq k' = k_irq k"

lemma same_core_refl [simp]: "same_core k k"
  by (simp add: same_core_def)

lemma same_core_print [simp]:
  "same_core k (print t k') = same_core k k'" "same_core k (println t k') = same_core k k'"
  "same_core k (println_all ts k') = same_core k k'" "same_core k (set_files fs k') = same_core k k'"
  by (auto simp: same_core_def println_all_eq set_files_def)

lemma kernel_ok_print [simp]:
  "kernel_ok (print t k) = kernel_ok k" "kernel_ok (println t k) = kernel_ok k"
  "kernel_ok (println_all ts k) = kernel_ok k"
  by (simp_all add: kernel_ok_def println_all_eq)

lemma kernel_ok_set_files: "kernel_ok k \<Longrightarrow> overlay_ok fs \<Longrightarrow> kernel_ok (set_files fs k)"
  by (simp add: kernel_ok_def set_files_def)

text \<open>A computation that cannot panic, keeps the invariant and leaves the core alone.\<close>

definition safe :: "'va kernel \<Rightarrow> 'va kernel res \<Rightarrow> bool" where
  "safe k m \<longleftrightarrow> (\<exists>k'. m = Inr k' \<and> kernel_ok k' \<and> same_core k k')"

lemma safe_Inr [simp]: "safe k (Inr k') \<longleftrightarrow> kernel_ok k' \<and> same_core k k'"
  by (simp add: safe_def)

lemma show_visual_safe:
  assumes "kernel_ok k" and "screen_ok (Some f)"
  shows "safe k (show_visual f k)"
proof (cases "fb_bpp f = 32")
  case True
  with assms(2) have "fb_ok f" by (simp add: screen_ok_def)
  then show ?thesis
    using assms(1) by (simp add: show_visual_def render_spec kernel_ok_def same_core_def)
next
  case False
  then show ?thesis
    using assms(1) by (simp add: show_visual_def render_boot_visual_def kernel_ok_def same_core_def)
qed

lemma print_scheduler_safe:
  assumes "kernel_ok k"
  shows "safe k (print_scheduler k)"
proof -
  have "sched_ok (k_sched k)" using assms by (simp add: kernel_ok_def)
  from sched_ok_current(2) [OF this] show ?thesis
    using assms by (simp add: print_scheduler_def current_task_name_def current_task_state_def
        current_task_execution_mode_def current_task_address_space_kind_def)
qed

lemma read_shows_text:
  assumes "overlay_ok fs" and "valid_str p" and "vfs_read p fs = Inr (Some r)"
  shows "\<exists>t. shown_text fs r = Inr t"
proof -
  obtain n where "map_option as_bytes (vfs_view fs n) = Some (deref fs r)"
    using read_spec [OF assms(1,2)] assms(3) by (cases "spec_path p") (simp, metis option.simps(9) sum.inject(2) sum.case(2))
  then obtain t where t: "vfs_view fs n = Some t" "deref fs r = as_bytes t" by auto
  then have "valid_str t" using view_text_valid [OF assms(1)] by blast
  with t(2) show ?thesis by (simp add: shown_text_def)
qed

lemma cmd_cat_safe:
  assumes k: "kernel_ok k" and v: "\<forall>w\<in>set args. valid_str w"
  shows "safe k (cmd_cat args k)"
proof (cases args)
  case (Cons p rest)
  have ok: "overlay_ok (writable_files (k_vfs k))" "valid_str p" using k v Cons by (simp_all add: kernel_ok_def)
  obtain r where r: "vfs_read p (writable_files (k_vfs k)) = Inr r" using read_spec [OF ok] by blast
  show ?thesis
  proof (cases r)
    case (Some c)
    then obtain t where "shown_text (writable_files (k_vfs k)) c = Inr t" using read_shows_text [OF ok] r by blast
    with r Some Cons k show ?thesis by (simp add: cmd_cat_def)
  qed (use r Cons k in \<open>simp add: cmd_cat_def\<close>)
qed (use k in \<open>simp add: cmd_cat_def\<close>)

lemma write_total:
  assumes "overlay_ok fs" "valid_str p" "valid_str t"
  obtains r fs' where "vfs_write p t fs = Inr (r, fs')" and "overlay_ok fs'"
  using write_sim [OF assms, of initramfs_map] by (auto elim!: rbind_eq_InrE)

lemma remove_total:
  assumes "overlay_ok fs" "valid_str p"
  obtains r fs' where "vfs_remove p fs = Inr (r, fs')" and "overlay_ok fs'"
  using remove_sim [OF assms] by (auto elim!: rbind_eq_InrE)

lemma split_once_subset: "split_once c s = Some (a, b) \<Longrightarrow> set a \<subseteq> set s \<and> set b \<subseteq> set s"
  by (auto simp: split_once_def split: list.splits dest: set_takeWhileD)
    (metis list.set_intros(2) set_dropWhileD)

lemma strip_prefix_subset: "strip_prefix p s = Some t \<Longrightarrow> set t \<subseteq> set s"
  by (auto simp: strip_prefix_def split: if_splits dest: in_set_dropD)

lemma cmd_write_safe:
  assumes k: "kernel_ok k" and v: "valid_str command"
  shows "safe k (cmd_write command k)"
proof (cases "strip_prefix (lit ''write '') command")
  case (Some args)
  show ?thesis
  proof (cases "split_once 0x20 args")
    case (Some pc)
    obtain p c where pc: "pc = (p, c)" by (cases pc)
    have "set p \<subseteq> set command" "set c \<subseteq> set command"
      using split_once_subset [of _ args p c] strip_prefix_subset [of _ command args] Some pc
        \<open>strip_prefix (lit ''write '') command = Some args\<close> by fastforce+
    then have vp: "valid_str p" "valid_str c" using v valid_str_sub by blast+
    obtain r fs' where "vfs_write p c (writable_files (k_vfs k)) = Inr (r, fs')" "overlay_ok fs'"
      using write_total [of "writable_files (k_vfs k)" p c] k vp by (auto simp: kernel_ok_def)
    then show ?thesis
      using \<open>strip_prefix (lit ''write '') command = Some args\<close> Some pc k
      by (cases r) (simp_all add: cmd_write_def kernel_ok_set_files)
  qed (use Some k in \<open>simp add: cmd_write_def\<close>)
qed (use k in \<open>simp add: cmd_write_def\<close>)

lemma cmd_rm_safe:
  assumes k: "kernel_ok k" and v: "\<forall>w\<in>set args. valid_str w"
  shows "safe k (cmd_rm args k)"
proof (cases args)
  case (Cons p rest)
  obtain r fs' where "vfs_remove p (writable_files (k_vfs k)) = Inr (r, fs')" "overlay_ok fs'"
    using remove_total [of "writable_files (k_vfs k)" p] k v Cons by (auto simp: kernel_ok_def)
  then show ?thesis using Cons k by (cases r) (simp_all add: cmd_rm_def kernel_ok_set_files)
qed (use k in \<open>simp add: cmd_rm_def\<close>)

lemma cmd_ls_safe: "kernel_ok k \<Longrightarrow> safe k (cmd_ls k)"
  using for_each_entry_spec [of "writable_files (k_vfs k)"] by (auto simp: cmd_ls_def kernel_ok_def println_all_eq)

lemma cmd_mem_safe: "kernel_ok k \<Longrightarrow> safe k (cmd_mem k)"
  using heap_used_total [of "k_heap k"] by (auto simp: cmd_mem_def)

lemma same_core_trans: "same_core a b \<Longrightarrow> same_core b c \<Longrightarrow> same_core a c"
  by (simp add: same_core_def)

lemma cmd_clear_safe:
  assumes "kernel_ok k"
  shows "safe k (cmd_clear k)"
proof (cases "k_fb k")
  case (Some f)
  then have "screen_ok (Some f)" using assms by (simp add: kernel_ok_def)
  from show_visual_safe [OF assms this] Some show ?thesis
    by (auto simp: cmd_clear_def redraw_boot_shell_surface_def safe_def)
qed (use assms in \<open>simp add: cmd_clear_def redraw_boot_shell_surface_def\<close>)

lemma cmd_info_safe: "kernel_ok k \<Longrightarrow> safe k (cmd_info k)"
  using print_scheduler_safe [of "println_all [lit ''AetherOS academic kernel'',
        lit ''keyboard initialized = '' @ display_bool (is_initialized (k_kbd k))] k"]
  by (auto simp: cmd_info_def safe_def same_core_def println_all_eq)

lemmas command_safe = cmd_cat_safe cmd_write_safe cmd_rm_safe cmd_ls_safe cmd_mem_safe cmd_clear_safe
  cmd_info_safe print_scheduler_safe

lemma execute_command_safe:
  assumes k: "kernel_ok k" and v: "valid_str command"
  shows "safe k (execute_command command k)"
proof (cases "split_whitespace command")
  case (Cons head args)
  have "\<forall>w\<in>set args. valid_str w"
    using split_whitespace_words [of _ command] Cons v valid_str_sub by fastforce
  then show ?thesis
    using Cons k v command_safe [OF k]
    by (simp add: execute_command_def cmd_help_def cmd_ticks_def cmd_tasks_def cmd_storage_def)
qed (use k in \<open>simp add: execute_command_def\<close>)

section \<open>The line editor keeps the invariant\<close>

lemma valid_str_ascii: "\<forall>c\<in>set s. c < 0x80 \<Longrightarrow> valid_str s"
  by (auto simp: valid_str_def list_all_iff scalar_def)

lemma from_utf8_printable:
  assumes "list_all (\<lambda>b. printable (unat b)) bs"
  shows "from_utf8 bs = Some (map unat bs)"
proof -
  have small: "\<forall>c\<in>set (map unat bs). c < 0x80"
    using assms by (fastforce simp: list_all_iff printable_def)
  have "as_bytes (map unat bs) = bs" using as_bytes_ascii [OF small] by (simp add: comp_def)
  then show ?thesis using valid_str_ascii [OF small] by (simp add: from_utf8_iff)
qed

text \<open>The text in the line buffer.\<close>

definition line_text :: "Shell \<Rightarrow> rstr" where
  "line_text s = map unat (take (line_len s) (line_buffer s))"

lemma line_text_printable: "shell_ok s \<Longrightarrow> list_all printable (line_text s)"
  by (auto simp: shell_ok_def line_text_def list_all_iff)

lemma line_text_valid: "shell_ok s \<Longrightarrow> valid_str (line_text s)"
  using line_text_printable [of s] by (intro valid_str_ascii) (auto simp: list_all_iff printable_def)

lemma length_line_text: "shell_ok s \<Longrightarrow> length (line_text s) = line_len s"
  by (simp add: shell_ok_def line_text_def)

lemma unat_printable: "printable c \<Longrightarrow> unat (word_of_nat c :: u8) = c"
  by (simp add: printable_def unat_of_nat take_bit_eq_mod)

lemma push_char:
  assumes "shell_ok s" and "line_len s < MAX_LINE_LEN" and "printable c"
  defines "s' \<equiv> s\<lparr>line_buffer := (line_buffer s)[line_len s := word_of_nat c], line_len := line_len s + 1\<rparr>"
  shows "shell_ok s'" and "line_text s' = line_text s @ [c]"
proof -
  have "take (line_len s + 1) ((line_buffer s)[line_len s := word_of_nat c]) =
      take (line_len s) (line_buffer s) @ [word_of_nat c]"
    using assms(1,2) by (simp add: shell_ok_def take_Suc_conv_app_nth)
  then show "shell_ok s'" "line_text s' = line_text s @ [c]"
    using assms by (simp_all add: shell_ok_def line_text_def unat_printable)
qed

lemma pop_char:
  assumes "shell_ok s"
  shows "shell_ok (s\<lparr>line_len := line_len s - 1\<rparr>)"
    and "line_text (s\<lparr>line_len := line_len s - 1\<rparr>) = butlast (line_text s)"
proof -
  have t: "take (line_len s - 1) (line_buffer s) = butlast (take (line_len s) (line_buffer s))"
    using assms by (simp add: shell_ok_def butlast_take)
  then show "line_text (s\<lparr>line_len := line_len s - 1\<rparr>) = butlast (line_text s)"
    by (simp add: line_text_def map_butlast)
  show "shell_ok (s\<lparr>line_len := line_len s - 1\<rparr>)"
    using assms t by (auto simp: shell_ok_def list_all_iff dest: in_set_butlastD)
qed

lemma shell_ok_clear: "shell_ok s \<Longrightarrow> shell_ok (s\<lparr>line_len := 0\<rparr>)"
  by (simp add: shell_ok_def)

lemma kernel_ok_shell: "kernel_ok k \<Longrightarrow> shell_ok s \<Longrightarrow> kernel_ok (k\<lparr>k_shell := s\<rparr>)"
  by (simp add: kernel_ok_def)

lemma kernel_ok_set_len_0: "kernel_ok k \<Longrightarrow> kernel_ok (set_len 0 k)"
  by (simp add: kernel_ok_def set_len_def shell_ok_clear)

text \<open>Everything but the shell, the console, the pixels and the files is the same.\<close>

definition same_devices :: "'va kernel \<Rightarrow> 'va kernel \<Rightarrow> bool" where
  "same_devices k k' \<longleftrightarrow> same_core k (k'\<lparr>k_shell := k_shell k\<rparr>) \<and>
     shell_initialized (k_shell k') = shell_initialized (k_shell k)"

lemma same_devices_simps [simp]:
  "same_devices k k" "same_devices k (print t k') = same_devices k k'"
  "same_devices k (println t k') = same_devices k k'" "same_devices k (prompt k') = same_devices k k'"
  "same_devices k (set_len n k') = same_devices k k'"
  by (auto simp: same_devices_def same_core_def prompt_def set_len_def)

lemma same_core_devices: "same_core k k' \<Longrightarrow> same_devices k k'"
  by (simp add: same_devices_def same_core_def)

lemma kernel_ok_prompt [simp]: "kernel_ok (prompt k) = kernel_ok k"
  by (simp add: prompt_def)

lemma execute_current_line_spec:
  assumes "kernel_ok k"
  shows "execute_current_line k =
      (if trim (line_text (k_shell k)) = [] then Inr (set_len 0 k)
       else rbind (execute_command (trim (line_text (k_shell k))) k) (\<lambda>k'. Inr (set_len 0 k')))"
proof -
  have ok: "shell_ok (k_shell k)" using assms by (simp add: kernel_ok_def)
  then have "from_utf8 (take (line_len (k_shell k)) (line_buffer (k_shell k))) = Some (line_text (k_shell k))"
    using from_utf8_printable by (simp add: shell_ok_def line_text_def)
  with ok show ?thesis
    by (simp add: execute_current_line_def panic_free shell_ok_def Let_def)
qed

lemma execute_current_line_safe:
  assumes "kernel_ok k"
  shows "\<exists>k'. execute_current_line k = Inr k' \<and> kernel_ok k' \<and> same_devices k k' \<and>
    line_len (k_shell k') = 0"
proof (cases "trim (line_text (k_shell k)) = []")
  case True
  then show ?thesis
    using assms by (simp add: execute_current_line_spec kernel_ok_set_len_0) (simp add: set_len_def)
next
  case False
  have "valid_str (trim (line_text (k_shell k)))"
    using assms line_text_valid by (simp add: kernel_ok_def)
  from execute_command_safe [OF assms this] obtain k' where
    "execute_command (trim (line_text (k_shell k))) k = Inr k'" "kernel_ok k'" "same_core k k'"
    by (auto simp: safe_def)
  with False assms show ?thesis
    by (simp add: execute_current_line_spec kernel_ok_set_len_0 same_core_devices) (simp add: set_len_def)
qed

lemma on_key_safe:
  assumes k: "kernel_ok k" and e: "\<forall>c. e = Char_event c \<longrightarrow> printable c"
  shows "\<exists>k'. on_key e k = Inr k' \<and> kernel_ok k' \<and> same_devices k k'"
proof (cases "shell_initialized (k_shell k)")
  case True
  have ok: "shell_ok (k_shell k)" using k by (simp add: kernel_ok_def)
  show ?thesis
  proof (cases e)
    case (Char_event c)
    show ?thesis
    proof (cases "line_len (k_shell k) < MAX_LINE_LEN")
      case len: True
      have "kernel_ok (k\<lparr>k_shell := (k_shell k)\<lparr>line_buffer := (line_buffer (k_shell k))
          [line_len (k_shell k) := word_of_nat c], line_len := line_len (k_shell k) + 1\<rparr>\<rparr>)"
        using push_char(1) [OF ok len] e Char_event k by (intro kernel_ok_shell) auto
      then show ?thesis
        using True len ok Char_event
        by (simp add: on_key_def panic_free shell_ok_def) (simp add: same_devices_def same_core_def)
    next
      case False
      with True Char_event k show ?thesis
        by (simp add: on_key_def kernel_ok_set_len_0)
    qed
  next
    case Enter
    from execute_current_line_safe [of "print [newline] k"] k True Enter show ?thesis
      by (auto simp: on_key_def same_devices_def same_core_def prompt_def)
  next
    case Backspace
    have "kernel_ok (set_len (line_len (k_shell k) - 1) k)"
      using pop_char(1) [OF ok] k unfolding set_len_def by (intro kernel_ok_shell)
    with True Backspace k show ?thesis by (simp add: on_key_def)
  qed
qed (use k in \<open>simp add: on_key_def\<close>)

section \<open>Interrupt handlers keep the invariant\<close>

lemma kernel_ok_devices [simp]:
  "kernel_ok (k\<lparr>k_kbd := x\<rparr>) = kernel_ok k" "kernel_ok (k\<lparr>k_irq := q\<rparr>) = kernel_ok k"
  "kernel_ok (k\<lparr>k_ticks := t\<rparr>) = kernel_ok k"
  by (simp_all add: kernel_ok_def)

lemma event_printable:
  assumes "fst (on_interrupt b q) = Some e"
  shows "\<forall>c. e = Char_event c \<longrightarrow> printable c"
proof -
  have "printable (arm_char a sh)" if "map_of key_arms b = Some a" for a sh
    using key_chars_printable map_of_SomeD [OF that] by (cases sh) (auto simp: list_all_iff)
  with assms show ?thesis
    by (auto simp: on_interrupt_def decode_scancode_def decode_printable_def split: if_splits)
qed

definition eoi :: "'va kernel \<Rightarrow> hw_action list" where
  "eoi k = (if irq_initialized (k_irq k) then [Out 0x20 0x20] else [])"

lemma end_of_interrupt_hw:
  "hw (k_irq (end_of_interrupt i k)) = hw (k_irq k) @ eoi k"
  "irq_initialized (k_irq (end_of_interrupt i k)) = irq_initialized (k_irq k)"
  by (cases i) (simp_all add: end_of_interrupt_def notify_end_of_interrupt_def perform_def eoi_def
      ChainedPics_notify_end_of_interrupt_def pic_defs)

lemma keyboard_handler_spec:
  assumes "kernel_ok k"
  shows "\<exists>k'. keyboard_interrupt_handler b k = Inr k' \<and> kernel_ok k' \<and> k_ticks k' = k_ticks k \<and>
    k_sched k' = k_sched k \<and> hw (k_irq k') = hw (k_irq k) @ eoi k \<and>
    irq_initialized (k_irq k') = irq_initialized (k_irq k)"
proof -
  obtain ev q where ev: "on_interrupt b (k_kbd k) = (ev, q)" by (cases "on_interrupt b (k_kbd k)")
  let ?k1 = "k\<lparr>k_kbd := q\<rparr>"
  have "\<exists>k2. keyboard_on_interrupt b k = Inr k2 \<and> kernel_ok k2 \<and> same_devices ?k1 k2"
  proof (cases ev)
    case None
    with ev assms show ?thesis by (simp add: keyboard_on_interrupt_def)
  next
    case (Some e)
    with on_key_safe [of ?k1 e] event_printable [of b "k_kbd k" e] ev assms show ?thesis
      by (simp add: keyboard_on_interrupt_def)
  qed
  then obtain k2 where "keyboard_on_interrupt b k = Inr k2" "kernel_ok k2" "same_devices ?k1 k2" by blast
  moreover from this have "k_irq k2 = k_irq k" "k_ticks k2 = k_ticks k" "k_sched k2 = k_sched k"
    by (simp_all add: same_devices_def same_core_def)
  ultimately show ?thesis
    by (simp add: keyboard_interrupt_handler_def end_of_interrupt_hw eoi_def)
      (simp add: end_of_interrupt_def)
qed

lemma timer_handler_spec:
  assumes "kernel_ok k" and "unat (k_ticks k) + 1 < 2 ^ 64"
  shows "\<exists>k'. timer_interrupt_handler k = Inr k' \<and> kernel_ok k' \<and> unat (k_ticks k') = unat (k_ticks k) + 1 \<and>
    scheduler_tick (k_sched k) = Inr (k_sched k') \<and> hw (k_irq k') = hw (k_irq k) @ eoi k \<and>
    irq_initialized (k_irq k') = irq_initialized (k_irq k)"
proof -
  have "sched_ok (k_sched k)" using assms(1) by (simp add: kernel_ok_def)
  then obtain s where s: "scheduler_tick (k_sched k) = Inr s" "sched_ok s" using tick_spec by blast
  let ?k2 = "k\<lparr>k_ticks := k_ticks k + 1, k_sched := s\<rparr>"
  let ?k3 = "if (k_ticks k + 1) mod 100 = 0
             then println (lit ''AetherOS: uptime ticks='' @ display_nat (unat (k_ticks k + 1))) ?k2 else ?k2"
  have tick: "on_tick k = Inr ?k3"
    using s(1) assms(2) by (simp add: on_tick_def panic_free Let_def)
  have "unat (k_ticks k + 1) = unat (k_ticks k) + 1" using assms(2) by (simp add: unat_plus_exact)
  moreover have "kernel_ok ?k2" using assms(1) s(2) by (simp add: kernel_ok_def)
  ultimately show ?thesis
    using s(1) unfolding timer_interrupt_handler_def tick rbind_Inr
    by (simp add: end_of_interrupt_hw eoi_def) (simp add: end_of_interrupt_def)
qed

definition timer_count :: "irq list \<Rightarrow> nat" where
  "timer_count is = length (filter (\<lambda>i. i = TimerIrq) is)"

lemma timer_count_simps [simp]:
  "timer_count [] = 0" "timer_count (TimerIrq # is) = Suc (timer_count is)"
  "timer_count (KeyboardIrq b # is) = timer_count is"
  by (simp_all add: timer_count_def)

lemma run_irqs_append: "run_irqs (as @ bs) k = rbind (run_irqs as k) (run_irqs bs)"
  by (induction as arbitrary: k) (auto simp: rbind_def split: sum.splits)

lemma run_irqs_spec:
  "kernel_ok k \<Longrightarrow> unat (k_ticks k) + timer_count is < 2 ^ 64 \<Longrightarrow>
   \<exists>k'. run_irqs is k = Inr k' \<and> kernel_ok k' \<and> unat (k_ticks k') = unat (k_ticks k) + timer_count is \<and>
     ticks_run scheduler_tick (timer_count is) (k_sched k) = Inr (k_sched k') \<and>
     hw (k_irq k') = hw (k_irq k) @ concat (map (\<lambda>_. eoi k) is)"
proof (induction "is" arbitrary: k)
  case (Cons i "is")
  show ?case
  proof (cases i)
    case TimerIrq
    then obtain k1 where k1: "timer_interrupt_handler k = Inr k1" "kernel_ok k1"
      "unat (k_ticks k1) = unat (k_ticks k) + 1" "scheduler_tick (k_sched k) = Inr (k_sched k1)"
      "hw (k_irq k1) = hw (k_irq k) @ eoi k" "irq_initialized (k_irq k1) = irq_initialized (k_irq k)"
      using timer_handler_spec [of k] Cons.prems by auto
    from k1(6) have "eoi k1 = eoi k" by (simp add: eoi_def)
    with Cons.IH [of k1] k1 Cons.prems TimerIrq show ?thesis by auto
  next
    case (KeyboardIrq b)
    then obtain k1 where k1: "keyboard_interrupt_handler b k = Inr k1" "kernel_ok k1"
      "k_ticks k1 = k_ticks k" "k_sched k1 = k_sched k"
      "hw (k_irq k1) = hw (k_irq k) @ eoi k" "irq_initialized (k_irq k1) = irq_initialized (k_irq k)"
      using keyboard_handler_spec [of k b] Cons.prems by auto
    from k1(6) have "eoi k1 = eoi k" by (simp add: eoi_def)
    with Cons.IH [of k1] k1 Cons.prems KeyboardIrq show ?thesis by auto
  qed
qed simp

section \<open>Initialisation establishes the invariant\<close>

lemma heap_initialize_total:
  "unat a + 131072 < 2 ^ 64 \<Longrightarrow> \<exists>h. heap_initialize a h0 = Inr h"
  by (simp add: heap_initialize_def BumpAllocator_initialize_def HEAP_SIZE_def panic_free)

lemma framebuffer_initialize_total:
  assumes "screen_ok fb"
  shows "\<exists>msg px. framebuffer_initialize fb k = Inr (print msg (k\<lparr>k_pixels := k_pixels k @ px,
      k_fb := (case fb of None \<Rightarrow> k_fb k | Some f \<Rightarrow> Some f)\<rparr>))"
proof (cases fb)
  case None
  then have "framebuffer_initialize fb k = Inr (print (lit ''AetherOS: no framebuffer available, serial output only'' @
      [newline]) (k\<lparr>k_pixels := k_pixels k @ [], k_fb := (case fb of None \<Rightarrow> k_fb k | Some f \<Rightarrow> Some f)\<rparr>))"
    by (simp add: framebuffer_initialize_def println_def)
  then show ?thesis by blast
next
  case (Some f)
  obtain msg px where "render_boot_visual f = Inr (msg, px)"
    using assms Some render_spec [of f] by (cases "fb_bpp f = 32") (auto simp: screen_ok_def render_boot_visual_def)
  with Some have "framebuffer_initialize fb k = Inr (print msg (k\<lparr>k_pixels := k_pixels k @ px,
      k_fb := (case fb of None \<Rightarrow> k_fb k | Some f \<Rightarrow> Some f)\<rparr>))"
    by (simp add: framebuffer_initialize_def show_visual_def)
  then show ?thesis by blast
qed

lemma init_report_total:
  assumes "sched_ok (k_sched k)"
  shows "\<exists>rest. init_report b k = Inr (println_all (lit ''AetherOS: kernel initialized'' # rest) k)"
proof -
  obtain hu where "heap_used (k_heap k) = Inr hu" using heap_used_total by blast
  moreover obtain n where "current_task_name (k_sched k) = Inr n"
    using sched_ok_current(2) [OF assms] by (simp add: current_task_name_def)
  ultimately show ?thesis by (simp add: init_report_def) blast
qed

lemma kernel_initialize_spec:
  assumes v: "accepts_canonical vnew" and b: "boot_info_wf b" "list_all region_ok (boot_regions b)"
    and h: "unat heap_space + 131072 < 2 ^ 64" and fb: "screen_ok (framebuffer b)"
  shows "\<exists>k pre post. initialize vnew heap_space m1 m2 b (kernel_static log) = Inr k \<and> kernel_ok k \<and>
    k_console k = log @ pre @ lit ''aether> '' @ lit ''AetherOS: kernel initialized'' @ [newline] @ post \<and>
    k_ticks k = 0 \<and> k_kbd k = keyboard_initialize keyboard_static \<and> k_vfs k = vfs_initialize vfs_static \<and>
    k_shell k = Shell_new\<lparr>shell_initialized := True\<rparr> \<and> frame_contents (k_frames k) = boot_frames b \<and>
    frame_wf (k_frames k) \<and> scheduler_initialize vnew sched_static = Inr (k_sched k) \<and>
    k_irq k = interrupts_init m1 m2 irq_static"
proof -
  obtain f where f: "frame_allocator_initialize frame_state_init b = Inr f" "frame_wf f"
    "frame_contents f = boot_frames b" using frame_allocator_initialize_spec [OF b] by blast
  obtain hp where hp: "heap_initialize heap_space BumpAllocator_new = Inr hp"
    using heap_initialize_total [OF h] by blast
  obtain s where s: "scheduler_initialize vnew sched_static = Inr s" "sched_ok s"
    using initialize_spec [OF v] by metis
  define k1 where "k1 = keyboard_initialize_kernel (timer_initialize ((kernel_static log)
    \<lparr>k_irq := interrupts_init m1 m2 irq_static, k_frames := f, k_heap := hp, k_sched := s\<rparr>))"
  obtain msg px where fbk: "framebuffer_initialize (framebuffer b) k1 = Inr (print msg (k1\<lparr>k_pixels := k_pixels k1 @ px,
      k_fb := (case framebuffer b of None \<Rightarrow> k_fb k1 | Some f \<Rightarrow> Some f)\<rparr>))"
    using framebuffer_initialize_total [OF fb] by blast
  define k3 where "k3 = shell_initialize (fs_initialize (print msg (k1\<lparr>k_pixels := k_pixels k1 @ px,
      k_fb := (case framebuffer b of None \<Rightarrow> k_fb k1 | Some f \<Rightarrow> Some f)\<rparr>)))"
  have sel: "k_ticks k3 = 0" "k_kbd k3 = keyboard_initialize keyboard_static"
    "k_vfs k3 = vfs_initialize vfs_static" "k_shell k3 = Shell_new\<lparr>shell_initialized := True\<rparr>"
    "k_frames k3 = f" "k_sched k3 = s" "k_irq k3 = interrupts_init m1 m2 irq_static"
    "k_fb k3 = framebuffer b"
    by (simp_all add: k3_def k1_def shell_initialize_def fs_initialize_def kernel_static_def
        keyboard_initialize_kernel_def timer_initialize_def prompt_def println_all_eq Shell_new_def
        split: option.split)
  obtain pre where con: "k_console k3 = log @ pre @ lit ''aether> ''"
    by (simp add: k3_def k1_def shell_initialize_def fs_initialize_def kernel_static_def
        keyboard_initialize_kernel_def timer_initialize_def prompt_def println_all_eq Shell_new_def)
  have "shell_ok (Shell_new\<lparr>shell_initialized := True\<rparr>)" by (simp add: shell_ok_def Shell_new_def)
  then have ok: "kernel_ok k3"
    using s(2) fb by (simp add: kernel_ok_def sel overlay_ok_empty)
  have init: "initialize vnew heap_space m1 m2 b (kernel_static log) = init_report b k3"
    using f(1) hp s(1) fbk
    by (simp add: initialize_def memory_initialize_def kernel_static_def k3_def k1_def)
  obtain rest where "init_report b k3 = Inr (println_all (lit ''AetherOS: kernel initialized'' # rest) k3)"
    using init_report_total [of k3 b] s(2) sel by auto
  then have "initialize vnew heap_space m1 m2 b (kernel_static log) =
      Inr (println_all (lit ''AetherOS: kernel initialized'' # rest) k3)" using init by simp
  with ok con f(2,3) s(1) sel show ?thesis
    by (intro exI [of _ "println_all (lit ''AetherOS: kernel initialized'' # rest) k3"] exI [of _ pre]
        exI [of _ "concat (map (\<lambda>t. t @ [newline]) rest)"]) (simp add: println_all_eq)
qed

section \<open>Typing\<close>

text \<open>A kernel that waits for input: the drivers are initialised and no shift key is held.\<close>

definition awaiting_input :: "'va kernel \<Rightarrow> bool" where
  "awaiting_input k \<longleftrightarrow> kernel_ok k \<and> shell_initialized (k_shell k) \<and>
     kbd_initialized (k_kbd k) \<and> \<not> shift_pressed (k_kbd k)"

definition type_line :: "rstr \<Rightarrow> irq list" where
  "type_line s = map KeyboardIrq (type_text s @ [0x1C, 0x9C])"

lemma irq_event:
  assumes "on_interrupt b (k_kbd k) = (Some e, k_kbd k)" and "on_key e k = Inr k1"
  shows "\<exists>x. handle_irq (KeyboardIrq b) k = Inr (k1\<lparr>k_irq := x\<rparr>)"
  using assms by (auto simp: keyboard_interrupt_handler_def keyboard_on_interrupt_def end_of_interrupt_def)

lemma irq_silent:
  assumes "on_interrupt b (k_kbd k) = (None, q)"
  shows "\<exists>x. handle_irq (KeyboardIrq b) k = Inr (k\<lparr>k_kbd := q, k_irq := x\<rparr>)"
  using assms by (auto simp: keyboard_interrupt_handler_def keyboard_on_interrupt_def end_of_interrupt_def)

definition type_char :: "rchar \<Rightarrow> 'va kernel \<Rightarrow> 'va kernel" where
  "type_char c k = print [c] (k\<lparr>k_shell := (k_shell k)
     \<lparr>line_buffer := (line_buffer (k_shell k))[line_len (k_shell k) := word_of_nat c],
      line_len := line_len (k_shell k) + 1\<rparr>\<rparr>)"

lemma on_key_char:
  assumes "kernel_ok k" "shell_initialized (k_shell k)" "line_len (k_shell k) < MAX_LINE_LEN"
  shows "on_key (Char_event c) k = Inr (type_char c k)"
  using assms by (simp add: on_key_def type_char_def panic_free kernel_ok_def shell_ok_def)

lemma type_char_sel [simp]:
  "k_kbd (type_char c k) = k_kbd k" "k_vfs (type_char c k) = k_vfs k"
  "k_console (type_char c k) = k_console k @ [c]"
  by (simp_all add: type_char_def)

lemma press_irqs:
  assumes a: "(code, a) \<in> set key_arms" and k: "kernel_ok k" "shell_initialized (k_shell k)"
    "kbd_initialized (k_kbd k)" "line_len (k_shell k) < MAX_LINE_LEN"
  shows "\<exists>x. run_irqs (map KeyboardIrq (press code)) k =
    Inr ((type_char (arm_char a (shift_pressed (k_kbd k))) k)\<lparr>k_irq := x\<rparr>)"
proof -
  let ?c = "arm_char a (shift_pressed (k_kbd k))"
  have make: "on_interrupt code (k_kbd k) = (Some (Char_event ?c), k_kbd k)"
    "on_interrupt (code OR 0x80) (k_kbd k) = (None, k_kbd k)"
    using k(3) decode_key [OF a] by (simp_all add: on_interrupt_def)
  from irq_event [OF make(1) on_key_char [OF k(1,2,4)]] obtain x where
    x: "handle_irq (KeyboardIrq code) k = Inr ((type_char ?c k)\<lparr>k_irq := x\<rparr>)" by blast
  from irq_silent [of "code OR 0x80" "(type_char ?c k)\<lparr>k_irq := x\<rparr>" "k_kbd k"] make(2) obtain y where
    "handle_irq (KeyboardIrq (code OR 0x80)) ((type_char ?c k)\<lparr>k_irq := x\<rparr>) =
      Inr ((type_char ?c k)\<lparr>k_irq := x\<rparr>\<lparr>k_kbd := k_kbd k, k_irq := y\<rparr>)" by auto
  moreover have "(type_char ?c k)\<lparr>k_irq := x\<rparr>\<lparr>k_kbd := k_kbd k, k_irq := y\<rparr> = (type_char ?c k)\<lparr>k_irq := y\<rparr>"
    by (simp add: type_char_def print_def)
  ultimately show ?thesis using x by (simp add: press_def del: handle_irq.simps) blast
qed

lemma keystroke_irqs:
  assumes c: "printable c" and k: "awaiting_input k" and len: "line_len (k_shell k) < MAX_LINE_LEN"
  shows "\<exists>x. run_irqs (map KeyboardIrq (keystrokes c)) k = Inr ((type_char c k)\<lparr>k_irq := x\<rparr>)"
proof (cases "plain_key c")
  case (Some code)
  then obtain a where "(code, a) \<in> set key_arms" "arm_char a False = c"
    by (rule plain_keyE)
  with Some press_irqs [of code a k] k len show ?thesis by (simp add: keystrokes_def awaiting_input_def)
next
  case None
  then obtain code where code: "shifted_key c = Some code" using printable_has_key [OF c] by auto
  then obtain a where a: "(code, a) \<in> set key_arms" "arm_char a True = c"
    by (rule shifted_keyE)
  let ?q = "(k_kbd k)\<lparr>shift_pressed := True\<rparr>"
  have shift: "on_interrupt 0x2A (k_kbd k) = (None, ?q)" "on_interrupt 0xAA ?q = (None, k_kbd k)"
    using k by (simp_all add: on_interrupt_def decode_scancode_def awaiting_input_def)
  from irq_silent [OF shift(1)] obtain x where
    x: "handle_irq (KeyboardIrq 0x2A) k = Inr (k\<lparr>k_kbd := ?q, k_irq := x\<rparr>)" by blast
  let ?k1 = "k\<lparr>k_kbd := ?q, k_irq := x\<rparr>"
  from press_irqs [OF a(1), of ?k1] a(2) k len obtain y where
    y: "run_irqs (map KeyboardIrq (press code)) ?k1 = Inr ((type_char c ?k1)\<lparr>k_irq := y\<rparr>)"
    by (auto simp: awaiting_input_def)
  from irq_silent [of "0xAA" "(type_char c ?k1)\<lparr>k_irq := y\<rparr>" "k_kbd k"] shift(2) obtain z where
    z: "handle_irq (KeyboardIrq 0xAA) ((type_char c ?k1)\<lparr>k_irq := y\<rparr>) =
      Inr ((type_char c ?k1)\<lparr>k_irq := y\<rparr>\<lparr>k_kbd := k_kbd k, k_irq := z\<rparr>)" by auto
  have "(type_char c ?k1)\<lparr>k_irq := y\<rparr>\<lparr>k_kbd := k_kbd k, k_irq := z\<rparr> = (type_char c k)\<lparr>k_irq := z\<rparr>"
    by (simp add: type_char_def print_def)
  with x y z None code show ?thesis
    by (simp add: keystrokes_def run_irqs_append del: handle_irq.simps) blast
qed

lemma type_char_awaiting:
  assumes "printable c" "awaiting_input k" "line_len (k_shell k) < MAX_LINE_LEN"
  shows "awaiting_input ((type_char c k)\<lparr>k_irq := x\<rparr>)"
    and "line_text (k_shell ((type_char c k)\<lparr>k_irq := x\<rparr>)) = line_text (k_shell k) @ [c]"
  using push_char [of "k_shell k" c] assms
  by (simp_all add: awaiting_input_def kernel_ok_def type_char_def)

lemma typed_text_irqs:
  assumes "list_all printable s" and "awaiting_input k"
    and "length (line_text (k_shell k)) + length s \<le> MAX_LINE_LEN"
  shows "\<exists>k'. run_irqs (map KeyboardIrq (type_text s)) k = Inr k' \<and> awaiting_input k' \<and>
    line_text (k_shell k') = line_text (k_shell k) @ s \<and> k_console k' = k_console k @ s \<and> k_vfs k' = k_vfs k"
  using assms
proof (induction s arbitrary: k)
  case Nil
  then show ?case by (simp add: type_text_def)
next
  case (Cons c s)
  have len: "line_len (k_shell k) < MAX_LINE_LEN"
    using Cons.prems length_line_text [of "k_shell k"] by (simp add: awaiting_input_def kernel_ok_def)
  obtain x where x: "run_irqs (map KeyboardIrq (keystrokes c)) k = Inr ((type_char c k)\<lparr>k_irq := x\<rparr>)"
    using keystroke_irqs [OF _ Cons.prems(2) len] Cons.prems(1) by auto
  note st = type_char_awaiting [OF _ Cons.prems(2) len, of c x]
  have "\<exists>k'. run_irqs (map KeyboardIrq (type_text s)) ((type_char c k)\<lparr>k_irq := x\<rparr>) = Inr k' \<and>
      awaiting_input k' \<and> line_text (k_shell k') = line_text (k_shell k) @ c # s \<and>
      k_console k' = k_console k @ c # s \<and> k_vfs k' = k_vfs k"
    using Cons.IH [of "(type_char c k)\<lparr>k_irq := x\<rparr>"] Cons.prems st by simp
  with x show ?case by (simp add: type_text_def run_irqs_append)
qed

text \<open>The return key executes the trimmed line.\<close>

lemma enter_irq:
  fixes k :: "'va kernel"
  assumes k: "awaiting_input k" and s: "trim (line_text (k_shell k)) \<noteq> []"
  shows "\<exists>(k2 :: 'va kernel) k'. execute_command (trim (line_text (k_shell k))) (print [newline] k) = Inr k2 \<and>
    handle_irq (KeyboardIrq 0x1C) k = Inr k' \<and> awaiting_input k' \<and> k_kbd k' = k_kbd k \<and> k_ticks k' = k_ticks k \<and>
    line_text (k_shell k') = [] \<and> k_console k' = k_console k2 @ lit ''aether> '' \<and> k_vfs k' = k_vfs k2"
proof -
  let ?s = "trim (line_text (k_shell k))" and ?k1 = "print [newline] k"
  have k1: "kernel_ok ?k1" "valid_str ?s" using k line_text_valid by (simp_all add: awaiting_input_def kernel_ok_def)
  obtain k2 where k2: "execute_command ?s ?k1 = Inr k2" "kernel_ok k2" "same_core ?k1 k2"
    using execute_command_safe [OF k1] by (auto simp: safe_def)
  let ?k3 = "prompt (set_len 0 k2)"
  have "on_key Enter k = Inr ?k3"
    using k s k2(1) k1(1) by (simp add: on_key_def awaiting_input_def execute_current_line_spec)
  moreover have "on_interrupt 0x1C (k_kbd k) = (Some Enter, k_kbd k)"
    using k by (simp add: on_interrupt_def decode_scancode_def awaiting_input_def)
  ultimately obtain x where x: "handle_irq (KeyboardIrq 0x1C) k = Inr (?k3\<lparr>k_irq := x\<rparr>)" using irq_event by blast
  have "k_kbd ?k3 = k_kbd k" "k_ticks ?k3 = k_ticks k" "shell_initialized (k_shell ?k3)"
    using k2(3) k by (simp_all add: prompt_def set_len_def same_core_def awaiting_input_def)
  moreover have "kernel_ok ?k3" using kernel_ok_set_len_0 [OF k2(2)] by simp
  moreover have "line_text (k_shell ?k3) = []" by (simp add: prompt_def set_len_def line_text_def)
  moreover have "k_console ?k3 = k_console k2 @ lit ''aether> ''" "k_vfs ?k3 = k_vfs k2"
    by (simp_all add: prompt_def set_len_def)
  ultimately show ?thesis
    using k x k2(1) by (intro exI [of _ k2] exI [of _ "?k3\<lparr>k_irq := x\<rparr>"]) (simp add: awaiting_input_def)
qed

text \<open>A whole line: its characters are echoed, then the trimmed line is executed.\<close>

lemma type_line_irqs:
  fixes k :: "'va kernel"
  assumes s: "list_all printable s" "length s \<le> MAX_LINE_LEN" "trim s \<noteq> []"
    and k: "awaiting_input k" "line_text (k_shell k) = []"
  shows "\<exists>(k1 :: 'va kernel) k2 k'. awaiting_input k1 \<and> k_console k1 = k_console k @ s @ [newline] \<and> k_vfs k1 = k_vfs k \<and>
    execute_command (trim s) k1 = Inr k2 \<and> run_irqs (type_line s) k = Inr k' \<and> awaiting_input k' \<and>
    line_text (k_shell k') = [] \<and> k_console k' = k_console k2 @ lit ''aether> '' \<and> k_vfs k' = k_vfs k2"
proof -
  obtain k0 where k0: "run_irqs (map KeyboardIrq (type_text s)) k = Inr k0" "awaiting_input k0"
    "line_text (k_shell k0) = s" "k_console k0 = k_console k @ s" "k_vfs k0 = k_vfs k"
    using typed_text_irqs [OF s(1) k(1)] s(2) k(2) by auto
  obtain k2 k3 where e: "execute_command (trim s) (print [newline] k0) = Inr k2"
    "handle_irq (KeyboardIrq 0x1C) k0 = Inr k3" "awaiting_input k3" "k_kbd k3 = k_kbd k0"
    "line_text (k_shell k3) = []" "k_console k3 = k_console k2 @ lit ''aether> ''" "k_vfs k3 = k_vfs k2"
    using enter_irq [OF k0(2)] k0(3) s(3) by auto
  have "on_interrupt 0x9C (k_kbd k3) = (None, k_kbd k3)"
    using e(3) by (simp add: on_interrupt_def decode_scancode_def awaiting_input_def)
  from irq_silent [OF this] obtain y where
    "handle_irq (KeyboardIrq 0x9C) k3 = Inr (k3\<lparr>k_kbd := k_kbd k3, k_irq := y\<rparr>)" by blast
  then have "run_irqs (type_line s) k = Inr (k3\<lparr>k_kbd := k_kbd k3, k_irq := y\<rparr>)"
    using k0(1) e(2) by (simp add: type_line_def run_irqs_append del: handle_irq.simps)
  moreover have "awaiting_input (k3\<lparr>k_kbd := k_kbd k3, k_irq := y\<rparr>)" "awaiting_input (print [newline] k0)"
    using e(3) k0(2) by (simp_all add: awaiting_input_def)
  ultimately show ?thesis
    using e k0(4,5) by (intro exI [of _ "print [newline] k0"] exI [of _ k2] exI [of _ "k3\<lparr>k_kbd := k_kbd k3, k_irq := y\<rparr>"]) simp
qed

end
