(* ===== verification/Locking.thy ===== *)
theory Locking
  imports Kernel
begin

text \<open>
  The spin locks of the kernel.  There is one processor; code that is interrupted while it holds a
  lock does not go on until the handler has returned, and a handler that needs that lock spins forever.
  This theory lists, for each routine, the locks it takes and releases in program order (the drop of a
  guard is the release), and runs the main code and the interrupt handlers over them.
\<close>

section \<open>Locks taken by the code\<close>

datatype lock = SERIAL1 | SCHEDULER_lock | SHELL | WRITABLE_FILES | FRAMEBUFFER | SHIFT_PRESSED | PICS_lock

datatype lock_op = Acquire lock | Release lock | EnableIrqs

definition locked :: "lock \<Rightarrow> lock_op list \<Rightarrow> lock_op list" where
  "locked l body = Acquire l # body @ [Release l]"

text \<open>One call of \<open>serial::write_fmt\<close>, and \<open>n\<close> of them.  The arguments of \<open>print!\<close> are evaluated before the call.\<close>

definition print_locks :: "lock_op list" where
  "print_locks = locked SERIAL1 []"

definition prints_locks :: "nat \<Rightarrow> lock_op list" where
  "prints_locks n = concat (replicate n print_locks)"

text \<open>The accessors of \<^verbatim>\<open>task/scheduler.rs\<close> hold the lock for one expression, \<open>initialize\<close> and \<open>tick\<close> to their end.\<close>

definition scheduler_locks :: "lock_op list" where
  "scheduler_locks = locked SCHEDULER_lock []"

definition render_locks :: "FramebufferInfo \<Rightarrow> lock_op list" where
  "render_locks fb = (if fb_bpp fb \<noteq> 32 then print_locks else [])"

definition framebuffer_initialize_locks :: "FramebufferInfo option \<Rightarrow> lock_op list" where
  "framebuffer_initialize_locks fb =
     (case fb of Some f \<Rightarrow> locked FRAMEBUFFER [] @ render_locks f | None \<Rightarrow> print_locks)"

definition redraw_locks :: "FramebufferInfo option \<Rightarrow> lock_op list" where
  "redraw_locks fb = locked FRAMEBUFFER (case fb of Some f \<Rightarrow> render_locks f | None \<Rightarrow> print_locks)"

definition normalizes :: "rstr \<Rightarrow> bool" where
  "normalizes p = (case normalize_path p (replicate MAX_PATH_LEN 0) of Inr (Inr _) \<Rightarrow> True | _ \<Rightarrow> False)"

definition read_locks :: "rstr \<Rightarrow> lock_op list" where
  "read_locks p = (if normalizes p then locked WRITABLE_FILES [] else [])"

definition write_locks :: "rstr \<Rightarrow> rstr \<Rightarrow> lock_op list" where
  "write_locks p contents =
     (if normalizes p \<and> length (as_bytes contents) \<le> MAX_CONTENT_LEN then locked WRITABLE_FILES [] else [])"

definition remove_locks :: "rstr \<Rightarrow> lock_op list" where
  "remove_locks p = (if normalizes p then locked WRITABLE_FILES [] else [])"

definition for_each_entry_locks :: "OverlayFile list \<Rightarrow> lock_op list" where
  "for_each_entry_locks fs =
     locked WRITABLE_FILES (prints_locks (case for_each_entry fs of Inr names \<Rightarrow> length names | Inl _ \<Rightarrow> 0))"

text \<open>The shell: \<open>print_scheduler\<close> is the part that \<^verbatim>\<open>info\<close> and \<^verbatim>\<open>tasks\<close> share.\<close>

definition print_scheduler_locks :: "lock_op list" where
  "print_scheduler_locks =
     prints_locks 2 @ concat (replicate 4 (scheduler_locks @ print_locks))"

definition execute_command_locks :: "rstr \<Rightarrow> 'va kernel \<Rightarrow> lock_op list" where
  "execute_command_locks command k =
     (case split_whitespace command of
        [] \<Rightarrow> []
      | head # args \<Rightarrow>
          if head = lit ''help'' then prints_locks 12
          else if head = lit ''info'' then prints_locks 2 @ print_scheduler_locks
          else if head = lit ''ticks'' then print_locks
          else if head = lit ''mem'' then prints_locks 4
          else if head = lit ''tasks'' then print_scheduler_locks
          else if head = lit ''ls'' then for_each_entry_locks (writable_files (k_vfs k))
          else if head = lit ''cat'' then
            (case args of [] \<Rightarrow> print_locks | path # _ \<Rightarrow> read_locks path @ print_locks)
          else if head = lit ''write'' then
            (case strip_prefix (lit ''write '') command of
               None \<Rightarrow> print_locks
             | Some rest \<Rightarrow>
                 (case split_once 0x20 rest of
                    None \<Rightarrow> print_locks
                  | Some (path, contents) \<Rightarrow> write_locks path contents @ print_locks))
          else if head = lit ''rm'' then
            (case args of [] \<Rightarrow> print_locks | path # _ \<Rightarrow> remove_locks path @ print_locks)
          else if head = lit ''storage'' then prints_locks 4
          else if head = lit ''clear'' then redraw_locks (k_fb k) @ print_locks
          else print_locks)"

definition execute_current_line_locks :: "'va kernel \<Rightarrow> lock_op list" where
  "execute_current_line_locks k =
     (case from_utf8 (take (line_len (k_shell k)) (line_buffer (k_shell k))) of
        None \<Rightarrow> print_locks
      | Some text \<Rightarrow> if trim text = [] then [] else execute_command_locks (trim text) k)"

definition on_key_locks :: "KeyEvent \<Rightarrow> 'va kernel \<Rightarrow> lock_op list" where
  "on_key_locks event k = locked SHELL
     (if \<not> shell_initialized (k_shell k) then []
      else case event of
        Enter \<Rightarrow> print_locks @ execute_current_line_locks k @ print_locks
      | Backspace \<Rightarrow> if line_len (k_shell k) > 0 then print_locks else []
      | Char_event c \<Rightarrow> if line_len (k_shell k) < MAX_LINE_LEN then print_locks else prints_locks 3)"

definition shell_initialize_locks :: "'va kernel \<Rightarrow> lock_op list" where
  "shell_initialize_locks k = locked SHELL (if shell_initialized (k_shell k) then [] else prints_locks 3)"

text \<open>The interrupt handlers.\<close>

definition decode_locks :: "u8 \<Rightarrow> lock_op list" where
  "decode_locks scancode =
     (if scancode = 0x2A \<or> scancode = 0x36 \<or> scancode = 0xAA \<or> scancode = 0xB6 then locked SHIFT_PRESSED []
      else if release_code scancode \<or> scancode = 0x1C \<or> scancode = 0x0E then []
      else locked SHIFT_PRESSED [])"

definition keyboard_locks :: "u8 \<Rightarrow> 'va kernel \<Rightarrow> lock_op list" where
  "keyboard_locks port k =
     (if \<not> kbd_initialized (k_kbd k) then []
      else decode_locks port @
        (case fst (on_interrupt port (k_kbd k)) of None \<Rightarrow> [] | Some e \<Rightarrow> on_key_locks e k))"

definition eoi_locks :: "'va kernel \<Rightarrow> lock_op list" where
  "eoi_locks k = (if irq_initialized (k_irq k) then locked PICS_lock [] else [])"

definition on_tick_locks :: "'va kernel \<Rightarrow> lock_op list" where
  "on_tick_locks k = scheduler_locks @ (if (k_ticks k + 1) mod 100 = 0 then print_locks else [])"

fun irq_locks :: "irq \<Rightarrow> 'va kernel \<Rightarrow> lock_op list" where
  "irq_locks TimerIrq k = on_tick_locks k @ eoi_locks k"
| "irq_locks (KeyboardIrq b) k = keyboard_locks b k @ eoi_locks k"

text \<open>\<open>core::init::initialize\<close>.\<close>

definition initialize_locks :: "BootInfo \<Rightarrow> lock_op list" where
  "initialize_locks b =
     locked PICS_lock [] @ [EnableIrqs] @ scheduler_locks @ prints_locks 2 @
     framebuffer_initialize_locks (framebuffer b) @ locked WRITABLE_FILES [] @
     shell_initialize_locks (kernel_static [] :: u64 kernel) @ prints_locks 9 @ scheduler_locks @ prints_locks 3"

section \<open>Lock discipline\<close>

text \<open>Held locks are released in the opposite order, none is taken twice, and none is kept.\<close>

fun nested_ok :: "lock list \<Rightarrow> lock_op list \<Rightarrow> bool" where
  "nested_ok held [] = (held = [])"
| "nested_ok held (Acquire l # ops) = (l \<notin> set held \<and> nested_ok (l # held) ops)"
| "nested_ok held (Release l # ops) = (case held of [] \<Rightarrow> False | l' # rest \<Rightarrow> l' = l \<and> nested_ok rest ops)"
| "nested_ok held (EnableIrqs # ops) = nested_ok held ops"

text \<open>\<open>uses L t\<close>: a piece of code that takes and releases only locks of \<open>L\<close>, in whatever context holds none of them.\<close>

definition uses :: "lock set \<Rightarrow> lock_op list \<Rightarrow> bool" where
  "uses L t \<longleftrightarrow> (\<forall>held ops. set held \<inter> L = {} \<longrightarrow> nested_ok held (t @ ops) = nested_ok held ops)"

named_theorems lock_intros \<open>code that keeps to the lock discipline\<close>

lemma uses_Nil [lock_intros]: "uses L []"
  by (simp add: uses_def)

lemma uses_append [lock_intros]: "uses L s \<Longrightarrow> uses L t \<Longrightarrow> uses L (s @ t)"
  by (simp add: uses_def)

lemma uses_mono: "uses L t \<Longrightarrow> L \<subseteq> M \<Longrightarrow> uses M t"
  unfolding uses_def by (meson disjoint_iff subsetD)

lemma uses_locked:
  assumes "uses (L - {l}) body" and "l \<in> L"
  shows "uses L (locked l body)"
  unfolding uses_def
proof (intro allI impI)
  fix held ops assume h: "set held \<inter> L = {}"
  then have "set (l # held) \<inter> (L - {l}) = {}" "l \<notin> set held" using assms(2) by auto
  then show "nested_ok held (locked l body @ ops) = nested_ok held ops"
    using assms(1) by (simp add: locked_def uses_def)
qed

lemma uses_replicate [lock_intros]: "uses L t \<Longrightarrow> uses L (concat (replicate n t))"
  by (induction n) (auto intro: lock_intros)

lemma uses_if [lock_intros]: "uses L s \<Longrightarrow> uses L t \<Longrightarrow> uses L (if b then s else t)"
  by simp

lemma uses_enable [lock_intros]: "uses L [EnableIrqs]"
  by (simp add: uses_def)

lemma uses_nested: "uses L t \<Longrightarrow> nested_ok [] t"
  unfolding uses_def by (metis append_Nil2 empty_set inf_bot_left nested_ok.simps(1))

text \<open>The locks in the order in which one may be taken while the one before is held.\<close>

lemma print_uses [lock_intros]: "SERIAL1 \<in> L \<Longrightarrow> uses L print_locks" "SERIAL1 \<in> L \<Longrightarrow> uses L (prints_locks n)"
  unfolding print_locks_def prints_locks_def by (auto intro!: uses_locked lock_intros)

lemma leaf_uses [lock_intros]: "l \<in> L \<Longrightarrow> uses L (locked l [])"
  by (intro uses_locked lock_intros)

lemma driver_uses [lock_intros]:
  "SCHEDULER_lock \<in> L \<Longrightarrow> uses L scheduler_locks" "SERIAL1 \<in> L \<Longrightarrow> uses L (render_locks f)"
  "WRITABLE_FILES \<in> L \<Longrightarrow> uses L (read_locks p)" "WRITABLE_FILES \<in> L \<Longrightarrow> uses L (write_locks p t)"
  "WRITABLE_FILES \<in> L \<Longrightarrow> uses L (remove_locks p)" "PICS_lock \<in> L \<Longrightarrow> uses L (eoi_locks k)"
  "SHIFT_PRESSED \<in> L \<Longrightarrow> uses L (decode_locks b)"
  unfolding scheduler_locks_def render_locks_def read_locks_def write_locks_def remove_locks_def eoi_locks_def decode_locks_def
  by (auto intro: lock_intros)

lemma framebuffer_uses [lock_intros]:
  "{FRAMEBUFFER, SERIAL1} \<subseteq> L \<Longrightarrow> uses L (framebuffer_initialize_locks fb)" "{FRAMEBUFFER, SERIAL1} \<subseteq> L \<Longrightarrow> uses L (redraw_locks fb)"
  "{WRITABLE_FILES, SERIAL1} \<subseteq> L \<Longrightarrow> uses L (for_each_entry_locks fs)"
  unfolding framebuffer_initialize_locks_def redraw_locks_def for_each_entry_locks_def
  by (auto intro!: lock_intros uses_locked split: option.split)

lemma command_uses [lock_intros]:
  "{SERIAL1, SCHEDULER_lock, WRITABLE_FILES, FRAMEBUFFER} \<subseteq> L \<Longrightarrow> uses L (execute_command_locks c k)"
  unfolding execute_command_locks_def print_scheduler_locks_def
  by (auto intro!: lock_intros split: list.split option.split)

abbreviation shell_locks :: "lock set" where
  "shell_locks \<equiv> {SHELL, SERIAL1, SCHEDULER_lock, WRITABLE_FILES, FRAMEBUFFER}"

lemma shell_uses [lock_intros]: "shell_locks \<subseteq> L \<Longrightarrow> uses L (on_key_locks e k)" "shell_locks \<subseteq> L \<Longrightarrow> uses L (shell_initialize_locks k)"
  unfolding on_key_locks_def shell_initialize_locks_def execute_current_line_locks_def
  by (auto intro!: uses_locked lock_intros split: KeyEvent.split option.split)

lemma irq_uses: "uses UNIV (irq_locks i k)"
  by (cases i) (auto simp: on_tick_locks_def keyboard_locks_def intro!: lock_intros split: option.split)

lemma initialize_uses: "uses UNIV (initialize_locks b)"
  unfolding initialize_locks_def by (intro lock_intros) auto

section \<open>Main code and handlers on one processor\<close>

text \<open>Handlers are interrupt gates: while one runs no other interrupt is taken, and the main code does not
  run.  Which interrupt arrives, and the state the handler finds, is not restricted.  A lock stays with the
  handlers until a handler releases it: one that returned without releasing would block the main code and
  every later handler.\<close>

record lock_config =
  main_ops :: "lock_op list"
  main_held :: "lock list"
  irqs_on :: bool
  handler_ops :: "lock_op list option"
  handler_held :: "lock list"

inductive lock_step :: "lock_config \<Rightarrow> lock_config \<Rightarrow> bool" where
  main_acquire: "handler_ops c = None \<Longrightarrow> main_ops c = Acquire l # ops \<Longrightarrow> l \<notin> set (main_held c) \<Longrightarrow> l \<notin> set (handler_held c) \<Longrightarrow>
    lock_step c (c\<lparr>main_ops := ops, main_held := l # main_held c\<rparr>)"
| main_release: "handler_ops c = None \<Longrightarrow> main_ops c = Release l # ops \<Longrightarrow>
    lock_step c (c\<lparr>main_ops := ops, main_held := remove1 l (main_held c)\<rparr>)"
| main_enable: "handler_ops c = None \<Longrightarrow> main_ops c = EnableIrqs # ops \<Longrightarrow>
    lock_step c (c\<lparr>main_ops := ops, irqs_on := True\<rparr>)"
| interrupt: "handler_ops c = None \<Longrightarrow> irqs_on c \<Longrightarrow>
    lock_step c (c\<lparr>handler_ops := Some (irq_locks i (k :: u64 kernel))\<rparr>)"
| handler_acquire: "handler_ops c = Some (Acquire l # ops) \<Longrightarrow> l \<notin> set (main_held c) \<Longrightarrow> l \<notin> set (handler_held c) \<Longrightarrow>
    lock_step c (c\<lparr>handler_ops := Some ops, handler_held := l # handler_held c\<rparr>)"
| handler_release: "handler_ops c = Some (Release l # ops) \<Longrightarrow>
    lock_step c (c\<lparr>handler_ops := Some ops, handler_held := remove1 l (handler_held c)\<rparr>)"
| handler_return: "handler_ops c = Some [] \<Longrightarrow> lock_step c (c\<lparr>handler_ops := None\<rparr>)"

inductive_cases lock_stepE: "lock_step c c'"

definition init_config :: "BootInfo \<Rightarrow> lock_config" where
  "init_config b = \<lparr>main_ops = initialize_locks b, main_held = [], irqs_on = False, handler_ops = None, handler_held = []\<rparr>"

text \<open>The loop of \<open>run\<close>: \<open>hlt\<close>, nothing held.\<close>

definition idle_config :: lock_config where
  "idle_config = \<lparr>main_ops = [], main_held = [], irqs_on = True, handler_ops = None, handler_held = []\<rparr>"

text \<open>A handler that waits for a lock of the code it interrupted: no step is possible.\<close>

definition deadlocked :: "lock_config \<Rightarrow> bool" where
  "deadlocked c \<longleftrightarrow> (\<exists>l ops. handler_ops c = Some (Acquire l # ops) \<and> l \<in> set (main_held c))"

lemma deadlocked_stuck: "deadlocked c \<Longrightarrow> \<not> lock_step c c'"
  by (auto simp: deadlocked_def elim!: lock_stepE)

text \<open>(C38) Initialisation can hang: interrupts are enabled before the scheduler is initialised, and a timer
  interrupt that arrives while \<open>initialize\<close> holds the scheduler lock leaves the machine in a state from which no
  step is possible, the handler waiting for the lock and the code that holds it waiting for the handler.\<close>

theorem initialize_can_deadlock:
  "\<exists>c. lock_step\<^sup>*\<^sup>* (init_config b) c \<and> deadlocked c \<and> (\<forall>c'. \<not> lock_step c c')"
proof -
  let ?rest = "Release SCHEDULER_lock # prints_locks 2 @ framebuffer_initialize_locks (framebuffer b) @ locked WRITABLE_FILES [] @
     shell_initialize_locks (kernel_static [] :: u64 kernel) @ prints_locks 9 @ scheduler_locks @ prints_locks 3"
  define c0 where "c0 h on ops = \<lparr>main_ops = ops, main_held = h, irqs_on = on, handler_ops = None, handler_held = []\<rparr>" for h on ops
  have init: "init_config b = c0 [] False (Acquire PICS_lock # Release PICS_lock # EnableIrqs # Acquire SCHEDULER_lock # ?rest)"
    by (simp add: init_config_def initialize_locks_def locked_def scheduler_locks_def c0_def)
  have s1: "lock_step (c0 [] False (Acquire PICS_lock # ops)) (c0 [PICS_lock] False ops)" for ops
    using main_acquire [of "c0 [] False (Acquire PICS_lock # ops)"] by (simp add: c0_def)
  have s2: "lock_step (c0 [PICS_lock] False (Release PICS_lock # ops)) (c0 [] False ops)" for ops
    using main_release [of "c0 [PICS_lock] False (Release PICS_lock # ops)"] by (simp add: c0_def)
  have s3: "lock_step (c0 [] False (EnableIrqs # ops)) (c0 [] True ops)" for ops
    using main_enable [of "c0 [] False (EnableIrqs # ops)"] by (simp add: c0_def)
  have s4: "lock_step (c0 [] True (Acquire SCHEDULER_lock # ops)) (c0 [SCHEDULER_lock] True ops)" for ops
    using main_acquire [of "c0 [] True (Acquire SCHEDULER_lock # ops)"] by (simp add: c0_def)
  have run: "lock_step\<^sup>*\<^sup>* (init_config b) (c0 [SCHEDULER_lock] True ?rest)"
    unfolding init
    by (rule converse_rtranclp_into_rtranclp, rule s1, rule converse_rtranclp_into_rtranclp, rule s2,
        rule converse_rtranclp_into_rtranclp, rule s3, rule r_into_rtranclp, rule s4)
  let ?c = "(c0 [SCHEDULER_lock] True ?rest)\<lparr>handler_ops := Some (irq_locks TimerIrq (kernel_static [] :: u64 kernel))\<rparr>"
  have "lock_step (c0 [SCHEDULER_lock] True ?rest) ?c" by (rule interrupt) (simp_all add: c0_def)
  with run have "lock_step\<^sup>*\<^sup>* (init_config b) ?c" by simp
  moreover have "deadlocked ?c"
    by (simp add: deadlocked_def c0_def on_tick_locks_def scheduler_locks_def locked_def)
  ultimately show ?thesis using deadlocked_stuck by blast
qed

text \<open>What holds while the main code is in its idle loop: a running handler keeps to the discipline, and
  between two handlers no lock is held.\<close>

definition idle_inv :: "lock_config \<Rightarrow> bool" where
  "idle_inv c \<longleftrightarrow> main_ops c = [] \<and> main_held c = [] \<and> irqs_on c \<and>
     (case handler_ops c of None \<Rightarrow> handler_held c = [] | Some ops \<Rightarrow> nested_ok (handler_held c) ops \<and> EnableIrqs \<notin> set ops)"

lemma irq_locks_no_enable: "EnableIrqs \<notin> set (irq_locks i k)"
proof -
  have p: "EnableIrqs \<notin> set print_locks" "EnableIrqs \<notin> set (prints_locks n)" for n
    by (auto simp: print_locks_def prints_locks_def locked_def)
  have l: "EnableIrqs \<notin> set (locked l t) \<longleftrightarrow> EnableIrqs \<notin> set t" for l t by (simp add: locked_def)
  have "EnableIrqs \<notin> set (execute_command_locks c k)" for c
    by (auto simp: execute_command_locks_def print_scheduler_locks_def p l scheduler_locks_def read_locks_def write_locks_def
        remove_locks_def for_each_entry_locks_def redraw_locks_def render_locks_def split: list.splits option.splits if_splits)
  then have "EnableIrqs \<notin> set (on_key_locks e k)" for e
    by (auto simp: on_key_locks_def execute_current_line_locks_def p l split: KeyEvent.split option.split)
  then show ?thesis
    by (cases i) (auto simp: on_tick_locks_def keyboard_locks_def decode_locks_def eoi_locks_def scheduler_locks_def p l
        split: option.split)
qed

lemma idle_inv_step:
  assumes "lock_step c c'" and "idle_inv c"
  shows "idle_inv c'"
  using assms
proof cases
  case (interrupt i k)
  then show ?thesis
    using assms(2) uses_nested [OF irq_uses, of i k] irq_locks_no_enable [of i k] by (simp add: idle_inv_def)
qed (auto simp: idle_inv_def split: list.splits)

lemma idle_inv_reachable: "lock_step\<^sup>*\<^sup>* c c' \<Longrightarrow> idle_inv c \<Longrightarrow> idle_inv c'"
  by (induction rule: rtranclp_induct) (auto intro: idle_inv_step)

lemma handler_returns:
  "idle_inv c \<Longrightarrow> handler_ops c = Some ops \<Longrightarrow> \<exists>c'. lock_step\<^sup>*\<^sup>* c c' \<and> handler_ops c' = None"
proof (induction ops arbitrary: c)
  case Nil
  then show ?case using handler_return [OF Nil(2)] by (intro exI [of _ "c\<lparr>handler_ops := None\<rparr>"]) auto
next
  case (Cons a ops)
  have "\<exists>c1. lock_step c c1 \<and> handler_ops c1 = Some ops"
  proof (cases a)
    case (Acquire l)
    then show ?thesis using handler_acquire [of c l ops] Cons.prems by (auto simp: idle_inv_def intro!: exI)
  next
    case (Release l)
    then show ?thesis using handler_release [of c l ops] Cons.prems by (auto intro!: exI)
  next
    case EnableIrqs
    then show ?thesis using Cons.prems by (simp add: idle_inv_def)
  qed
  then obtain c1 where c1: "lock_step c c1" "handler_ops c1 = Some ops" by blast
  from Cons.IH [OF idle_inv_step [OF c1(1) Cons.prems(1)] c1(2)] c1(1) show ?case
    by (meson converse_rtranclp_into_rtranclp)
qed

lemma idle_inv_idle: "idle_inv c \<Longrightarrow> handler_ops c = None \<Longrightarrow> c = idle_config"
  by (cases c) (simp add: idle_inv_def idle_config_def)

text \<open>(C16) After initialisation interrupts cannot hang the kernel: whatever interrupts have arrived in the idle
  loop, the machine is never deadlocked, and a running handler always gets all the locks it needs, gives every
  one of them back and returns to the idle loop, where no lock is held and interrupts are on; so it is when no
  handler runs.\<close>

theorem idle_handlers_return:
  assumes "lock_step\<^sup>*\<^sup>* idle_config c"
  shows "\<not> deadlocked c \<and> lock_step\<^sup>*\<^sup>* c idle_config \<and> (handler_ops c = None \<longrightarrow> c = idle_config)"
proof -
  have inv: "idle_inv c" by (rule idle_inv_reachable [OF assms]) (simp add: idle_inv_def idle_config_def)
  obtain c' where c': "lock_step\<^sup>*\<^sup>* c c'" "handler_ops c' = None"
    using handler_returns [OF inv] by (cases "handler_ops c") auto
  from idle_inv_reachable [OF c'(1) inv] c'(2) have "c' = idle_config" by (rule idle_inv_idle)
  with c'(1) inv idle_inv_idle [OF inv] show ?thesis by (auto simp: deadlocked_def idle_inv_def)
qed

theorem idle_handlers_return_witness:
  "\<exists>c. lock_step\<^sup>*\<^sup>* idle_config c \<and> handler_ops c = Some (irq_locks (KeyboardIrq 0x1C) (kernel_static [] :: u64 kernel)) \<and>
     \<not> deadlocked c \<and> lock_step\<^sup>*\<^sup>* c idle_config"
proof -
  let ?c = "idle_config\<lparr>handler_ops := Some (irq_locks (KeyboardIrq 0x1C) (kernel_static [] :: u64 kernel))\<rparr>"
  have "lock_step idle_config ?c" by (rule interrupt) (simp_all add: idle_config_def)
  then have r: "lock_step\<^sup>*\<^sup>* idle_config ?c" by simp
  from idle_handlers_return [OF r] r show ?thesis by (intro exI [of _ ?c]) (simp del: irq_locks.simps)
qed

end
