(* ===== verification/Cpu_Entry.thy ===== *)
theory Cpu_Entry
  imports Kernel
begin

text \<open>
  What the processor needs before and around the generic kernel: the entry point (\<^verbatim>\<open>kernel/src/main.rs\<close>)
  with the control registers it sets, the segment tables and the double fault stack
  (\<^verbatim>\<open>arch/x86_64/gdt.rs\<close>), and the exception handlers of \<^verbatim>\<open>arch/x86_64/interrupts.rs\<close>.
  Descriptors, selectors and virtual addresses are types of the \<^verbatim>\<open>x86_64\<close> crate; its operations are the
  argument \<open>segment_crate\<close>.
\<close>

unbundle bit_operations_syntax

section \<open>The entry point\<close>

record cpu =
  cr0 :: u64
  cr4 :: u64
  x87_reset :: bool
  mxcsr :: u32

definition INITIAL_MXCSR :: u32 where "INITIAL_MXCSR = 0x1f80"

text \<open>The instructions of \<open>_start\<close>, one record update each; \<open>and r, -13\<close> sign-extends its operand.\<close>

definition start_setup :: "cpu \<Rightarrow> cpu" where
  "start_setup c =
     (let c1 = c\<lparr>cr0 := (cr0 c AND - 13) OR 2\<rparr>;
          c2 = c1\<lparr>cr4 := cr4 c1 OR 0x600\<rparr>;
          c3 = c2\<lparr>x87_reset := True\<rparr>
      in c3\<lparr>mxcsr := INITIAL_MXCSR\<rparr>)"

definition start_kernel :: "(panic \<Rightarrow> rstr) \<Rightarrow> limine_responses \<Rightarrow> cpu \<Rightarrow> boot_state \<Rightarrow> boot_outcome \<times> cpu \<times> boot_state" where
  "start_kernel info l c s =
     (let c' = start_setup c in case enter info l s of (r, s') \<Rightarrow> (r, c', s'))"

lemma bits_of_constants:
  "bit (- 13 :: u64) n \<longleftrightarrow> n < 64 \<and> n \<noteq> 2 \<and> n \<noteq> 3" "bit (2 :: u64) n \<longleftrightarrow> n = 1" "bit (0x600 :: u64) n \<longleftrightarrow> n = 9 \<or> n = 10"
proof -
  have e: "(- 13 :: u64) = NOT (push_bit 2 1 OR push_bit 3 1)" "(2 :: u64) = push_bit 1 1" "(0x600 :: u64) = push_bit 9 1 OR push_bit 10 1"
    by simp_all
  show "bit (- 13 :: u64) n \<longleftrightarrow> n < 64 \<and> n \<noteq> 2 \<and> n \<noteq> 3" "bit (2 :: u64) n \<longleftrightarrow> n = 1" "bit (0x600 :: u64) n \<longleftrightarrow> n = 9 \<or> n = 10"
    unfolding e by (auto simp: bit_simps simp del: push_bit_of_1)
qed

lemma start_registers: "cr0 (start_setup c) = (cr0 c AND - 13) OR 2" "cr4 (start_setup c) = cr4 c OR 0x600"
  "mxcsr (start_setup c) = 0x1f80" "x87_reset (start_setup c) = True"
  unfolding start_setup_def INITIAL_MXCSR_def Let_def by (rule refl | simp)+

lemma sse_registers:
  "bit (cr0 (start_setup c)) n = (n = 1 \<or> n \<noteq> 2 \<and> n \<noteq> 3 \<and> bit (cr0 c) n)"
  "bit (cr4 (start_setup c)) n = (n = 9 \<or> n = 10 \<or> bit (cr4 c) n)"
  "bit (mxcsr (start_setup c)) n = (7 \<le> n \<and> n \<le> 12)"
proof -
  have m: "(0x1f80 :: u32) = push_bit 7 (mask 6)" by (simp add: mask_numeral)
  show "bit (mxcsr (start_setup c)) n = (7 \<le> n \<and> n \<le> 12)"
    unfolding start_registers m by (auto simp: bit_push_bit_iff bit_mask_iff)
  have "bit ((cr0 c AND - 13) OR 2) n = (bit (cr0 c) n \<and> bit (- 13 :: u64) n \<or> bit (2 :: u64) n)"
    by (simp only: bit_or_iff bit_and_iff)
  moreover have "bit (cr0 c) n \<Longrightarrow> n < 64" using bit_imp_le_length [of "cr0 c" n] by simp
  ultimately show "bit (cr0 (start_setup c)) n = (n = 1 \<or> n \<noteq> 2 \<and> n \<noteq> 3 \<and> bit (cr0 c) n)"
    unfolding start_registers using bits_of_constants by metis
  show "bit (cr4 (start_setup c)) n = (n = 9 \<or> n = 10 \<or> bit (cr4 c) n)"
    unfolding start_registers using bits_of_constants(3) [of n] by (metis bit_or_iff)
qed

text \<open>The entry point turns on SSE and changes nothing else: in CR0 emulation (bit 2) and task-switched
  (bit 3) are clear and the coprocessor monitor (bit 1) is set, in CR4 the two SSE bits 9 and 10 are set,
  every other bit of both registers is as it was, and MXCSR masks exactly the six exceptions (bits 7 to 12).\<close>

theorem start_enables_sse:
  "(\<forall>n. bit (cr0 (start_setup c)) n = (n = 1 \<or> n \<noteq> 2 \<and> n \<noteq> 3 \<and> bit (cr0 c) n)) \<and>
   (\<forall>n. bit (cr4 (start_setup c)) n = (n = 9 \<or> n = 10 \<or> bit (cr4 c) n)) \<and>
   (\<forall>n. bit (mxcsr (start_setup c)) n = (7 \<le> n \<and> n \<le> 12)) \<and> x87_reset (start_setup c)"
  by (simp add: sse_registers start_registers(4))

section \<open>Segment tables\<close>

record ('va, 'g, 'd, 's) segment_crate =
  tss_new :: "'va list"
  from_ptr :: "usize \<Rightarrow> 'va"
  va_add :: "'va \<Rightarrow> u64 \<Rightarrow> 'va res"
  gdt_new :: 'g
  gdt_append :: "'d \<Rightarrow> 'g \<Rightarrow> ('s \<times> 'g) res"
  kernel_code_segment :: 'd
  tss_segment :: "'va list \<Rightarrow> 'd"

record ('g, 's) GdtState =
  gdt :: 'g
  code_selector :: 's
  tss_selector :: 's

text \<open>The two \<open>Once\<close> cells, and the registers that \<open>init\<close> loads.  The only part of the task state segment
  that is used is its interrupt stack table.\<close>

record ('va, 'g, 's) gdt_statics =
  GDT_STATE :: "('g, 's) GdtState option"
  TSS :: "'va list option"

record ('g, 's) segment_registers =
  gdtr :: 'g
  cs_reg :: 's
  task_reg :: 's

definition STACK_SIZE :: u64 where "STACK_SIZE = 4096 * 5"

definition tss_build :: "('va, 'g, 'd, 's) segment_crate \<Rightarrow> usize \<Rightarrow> 'va list res" where
  "tss_build x stack =
     rbind (va_add x (from_ptr x stack) STACK_SIZE) (\<lambda>top.
       update_chk (tss_new x) (unat DOUBLE_FAULT_IST_INDEX) top)"

definition tss :: "('va, 'g, 'd, 's) segment_crate \<Rightarrow> usize \<Rightarrow> ('va, 'g, 's) gdt_statics \<Rightarrow> ('va list \<times> ('va, 'g, 's) gdt_statics) res" where
  "tss x stack st =
     (case TSS st of
        Some t \<Rightarrow> Inr (t, st)
      | None \<Rightarrow> rbind (tss_build x stack) (\<lambda>t. Inr (t, st\<lparr>TSS := Some t\<rparr>)))"

definition GdtState_new :: "('va, 'g, 'd, 's) segment_crate \<Rightarrow> usize \<Rightarrow> ('va, 'g, 's) gdt_statics \<Rightarrow>
    (('g, 's) GdtState \<times> ('va, 'g, 's) gdt_statics) res" where
  "GdtState_new x stack st =
     rbind (gdt_append x (kernel_code_segment x) (gdt_new x)) (\<lambda>(code, g1).
     rbind (tss x stack st) (\<lambda>(t, st1).
     rbind (gdt_append x (tss_segment x t) g1) (\<lambda>(sel, g2).
       Inr (\<lparr>gdt = g2, code_selector = code, tss_selector = sel\<rparr>, st1))))"

definition gdt_init :: "('va, 'g, 'd, 's) segment_crate \<Rightarrow> usize \<Rightarrow> ('va, 'g, 's) gdt_statics \<Rightarrow>
    (('g, 's) segment_registers \<times> ('va, 'g, 's) gdt_statics) res" where
  "gdt_init x stack st =
     rbind (case GDT_STATE st of
              Some s \<Rightarrow> Inr (s, st)
            | None \<Rightarrow> rbind (GdtState_new x stack st) (\<lambda>(s, st1). Inr (s, st1\<lparr>GDT_STATE := Some s\<rparr>))) (\<lambda>(s, st2).
       Inr (\<lparr>gdtr = gdt s, cs_reg = code_selector s, task_reg = tss_selector s\<rparr>, st2))"

definition gdt_static :: "('va, 'g, 's) gdt_statics" where
  "gdt_static = \<lparr>GDT_STATE = None, TSS = None\<rparr>"

text \<open>What the crate documents: a new table has room for these two descriptors, the selector that
  \<open>append\<close> returns selects the appended descriptor and leaves the others alone, the interrupt stack
  table has seven entries, and adding to an address adds to the pointer (here for the stack array).\<close>

definition crate_laws :: "('g \<Rightarrow> 's \<Rightarrow> 'd option) \<Rightarrow> usize \<Rightarrow> ('va, 'g, 'd, 's) segment_crate \<Rightarrow> bool" where
  "crate_laws selects stack x \<longleftrightarrow>
     (\<forall>d. \<exists>s g. gdt_append x d (gdt_new x) = Inr (s, g) \<and> (\<forall>d'. \<exists>s' g'. gdt_append x d' g = Inr (s', g'))) \<and>
     (\<forall>d g s g'. gdt_append x d g = Inr (s, g') \<longrightarrow> selects g' s = Some d \<and>
        (\<forall>s' d'. selects g s' = Some d' \<longrightarrow> selects g' s' = Some d')) \<and>
     length (tss_new x) = 7 \<and> va_add x (from_ptr x stack) STACK_SIZE = Inr (from_ptr x (stack + STACK_SIZE))"

lemma gdt_init_spec:
  assumes "crate_laws selects stack x"
  shows "\<exists>r st ist i. gdt_init x stack gdt_static = Inr (r, st) \<and>
    selects (gdtr r) (cs_reg r) = Some (kernel_code_segment x) \<and> selects (gdtr r) (task_reg r) = Some (tss_segment x ist) \<and>
    map_of build_idt DoubleFaultSlot = Some (DoubleFaultHandler, Some i) \<and>
    ist = (tss_new x)[unat i := from_ptr x (stack + 20480)] \<and> unat i < length ist \<and>
    gdt_init x stack st = Inr (r, st)"
proof -
  let ?ist = "(tss_new x)[0 := from_ptr x (stack + STACK_SIZE)]"
  have len: "length (tss_new x) = 7" and add: "va_add x (from_ptr x stack) STACK_SIZE = Inr (from_ptr x (stack + STACK_SIZE))"
    using assms by (simp_all add: crate_laws_def)
  obtain s1 g1 where 1: "gdt_append x (kernel_code_segment x) (gdt_new x) = Inr (s1, g1)"
    and room: "\<forall>d'. \<exists>s' g'. gdt_append x d' g1 = Inr (s', g')"
    using assms unfolding crate_laws_def by metis
  obtain s2 g2 where 2: "gdt_append x (tss_segment x ?ist) g1 = Inr (s2, g2)" using room by blast
  have sel: "selects g2 s1 = Some (kernel_code_segment x)" "selects g2 s2 = Some (tss_segment x ?ist)"
    using assms 1 2 unfolding crate_laws_def by blast+
  have "tss_build x stack = Inr ?ist"
    using len by (simp add: tss_build_def add DOUBLE_FAULT_IST_INDEX_def panic_free)
  then have "gdt_init x stack gdt_static = Inr (\<lparr>gdtr = g2, cs_reg = s1, task_reg = s2\<rparr>,
      \<lparr>GDT_STATE = Some \<lparr>gdt = g2, code_selector = s1, tss_selector = s2\<rparr>, TSS = Some ?ist\<rparr>)"
    using 1 2 by (simp add: gdt_init_def GdtState_new_def tss_def gdt_static_def)
  moreover have "map_of build_idt DoubleFaultSlot = Some (DoubleFaultHandler, Some 0)"
    by (simp add: build_idt_def DOUBLE_FAULT_IST_INDEX_def)
  ultimately show ?thesis
    using sel len by (intro exI conjI) (auto simp: gdt_init_def STACK_SIZE_def)
qed

text \<open>(C35) Segment set-up: \<open>init\<close> does not panic and loads a table in which the code selector selects the kernel
  code segment and the task register selects a task state segment whose entry for the double fault
  handler of \<open>build_idt\<close> is the address just above the 20 KiB stack; the other six entries are untouched, and a second call loads the
  same registers.\<close>

theorem gdt_init_loads:
  assumes "crate_laws selects stack x"
  shows "\<exists>r st ist i. gdt_init x stack gdt_static = Inr (r, st) \<and>
    selects (gdtr r) (cs_reg r) = Some (kernel_code_segment x) \<and> selects (gdtr r) (task_reg r) = Some (tss_segment x ist) \<and>
    map_of build_idt DoubleFaultSlot = Some (DoubleFaultHandler, Some i) \<and>
    ist = (tss_new x)[unat i := from_ptr x (stack + 20480)] \<and> unat i < length ist \<and>
    gdt_init x stack st = Inr (r, st)"
  by (rule gdt_init_spec [OF assms])

text \<open>A table of at most eight descriptors whose selectors are indices.\<close>

definition table_crate :: "(usize, usize list option list, usize list option, nat) segment_crate" where
  "table_crate = \<lparr>tss_new = replicate 7 0, from_ptr = (\<lambda>p. p), va_add = (\<lambda>p n. Inr (p + n)), gdt_new = [Some []],
     gdt_append = (\<lambda>d g. if length g < 8 then Inr (length g, g @ [d]) else Inl IndexOutOfBounds),
     kernel_code_segment = None, tss_segment = Some\<rparr>"

definition table_selects :: "usize list option list \<Rightarrow> nat \<Rightarrow> usize list option option" where
  "table_selects g s = (if s < length g then Some (g ! s) else None)"

lemma table_crate_laws: "crate_laws table_selects (base :: usize) table_crate"
  by (auto simp: crate_laws_def table_crate_def table_selects_def nth_append split: if_splits)

theorem gdt_init_loads_witness:
  "\<exists>r st ist. gdt_init table_crate 0x1000 gdt_static = Inr (r, st) \<and>
     table_selects (gdtr r) (task_reg r) = Some (Some ist) \<and> ist ! 0 = 0x6000"
proof -
  obtain r st ist i where r: "gdt_init table_crate 0x1000 gdt_static = Inr (r, st)"
    "table_selects (gdtr r) (task_reg r) = Some (tss_segment table_crate ist)"
    "map_of build_idt DoubleFaultSlot = Some (DoubleFaultHandler, Some i)"
    "ist = (tss_new table_crate)[unat i := from_ptr table_crate (0x1000 + 20480)]" "unat i < length ist"
    using gdt_init_loads [OF table_crate_laws [of "0x1000"]] by blast
  from r(3) have "i = 0" by (simp add: build_idt_def DOUBLE_FAULT_IST_INDEX_def)
  with r(4,5) have "ist ! 0 = 0x6000" by (simp add: table_crate_def)
  with r(1,2) show ?thesis by (auto simp: table_crate_def)
qed

section \<open>Exceptions\<close>

text \<open>The handlers get the interrupt stack frame; its \<open>{:#?}\<close> text, like the texts of CR2 and of the page fault
  code, is made by the crate and is an argument.  \<open>halt_forever\<close> never returns.\<close>

datatype handler_end = Resumes | HaltsForever

definition halt_forever :: "'va kernel \<Rightarrow> handler_end \<times> 'va kernel" where
  "halt_forever k = (HaltsForever, k)"

definition breakpoint_handler :: "rstr \<Rightarrow> 'va kernel \<Rightarrow> handler_end \<times> 'va kernel" where
  "breakpoint_handler frame k = (Resumes, println frame (println (lit ''AetherOS: breakpoint exception'') k))"

definition double_fault_handler :: "rstr \<Rightarrow> u64 \<Rightarrow> 'va kernel \<Rightarrow> handler_end \<times> 'va kernel" where
  "double_fault_handler frame error_code k =
     halt_forever (println frame (println (lit ''AetherOS: double fault, error_code='' @ display_nat (unat error_code)) k))"

definition general_protection_fault_handler :: "rstr \<Rightarrow> u64 \<Rightarrow> 'va kernel \<Rightarrow> handler_end \<times> 'va kernel" where
  "general_protection_fault_handler frame error_code k =
     halt_forever (println frame
       (println (lit ''AetherOS: general protection fault, error_code='' @ display_nat (unat error_code)) k))"

definition page_fault_handler :: "rstr \<Rightarrow> rstr \<Rightarrow> rstr \<Rightarrow> 'va kernel \<Rightarrow> handler_end \<times> 'va kernel" where
  "page_fault_handler frame cr2 error_code k =
     halt_forever (println frame (println (lit ''AetherOS: page fault error_code='' @ error_code)
       (println (lit ''AetherOS: page fault accessing '' @ cr2) k)))"

datatype cpu_exception = Breakpoint rstr | DoubleFault rstr u64 | GeneralProtection rstr u64 | PageFault rstr rstr rstr

fun exception_slot :: "cpu_exception \<Rightarrow> idt_slot" where
  "exception_slot (Breakpoint _) = BreakpointSlot"
| "exception_slot (DoubleFault _ _) = DoubleFaultSlot"
| "exception_slot (GeneralProtection _ _) = GeneralProtectionSlot"
| "exception_slot (PageFault _ _ _) = PageFaultSlot"

text \<open>Delivery through the handler table: the processor runs the handler that the slot names.\<close>

fun run_handler :: "handler \<Rightarrow> cpu_exception \<Rightarrow> 'va kernel \<Rightarrow> (handler_end \<times> 'va kernel) option" where
  "run_handler BreakpointHandler (Breakpoint f) k = Some (breakpoint_handler f k)"
| "run_handler DoubleFaultHandler (DoubleFault f e) k = Some (double_fault_handler f e k)"
| "run_handler GeneralProtectionHandler (GeneralProtection f e) k = Some (general_protection_fault_handler f e k)"
| "run_handler PageFaultHandler (PageFault f c e) k = Some (page_fault_handler f c e k)"
| "run_handler _ _ k = None"

definition deliver :: "cpu_exception \<Rightarrow> 'va kernel \<Rightarrow> (handler_end \<times> 'va kernel) option" where
  "deliver e k = Option.bind (map_of build_idt (exception_slot e)) (\<lambda>(h, _). run_handler h e k)"

fun exception_report :: "cpu_exception \<Rightarrow> rstr list" where
  "exception_report (Breakpoint f) = [lit ''AetherOS: breakpoint exception'', f]"
| "exception_report (DoubleFault f e) = [lit ''AetherOS: double fault, error_code='' @ display_nat (unat e), f]"
| "exception_report (GeneralProtection f e) = [lit ''AetherOS: general protection fault, error_code='' @ display_nat (unat e), f]"
| "exception_report (PageFault f c e) = [lit ''AetherOS: page fault accessing '' @ c, lit ''AetherOS: page fault error_code='' @ e, f]"

text \<open>Exceptions: each of the four exceptions finds its own handler in the table; the handler prints the
  report with the error code and the stack frame, changes nothing but the console, and only the
  breakpoint handler lets the interrupted code go on.\<close>

theorem exceptions_are_reported:
  "\<exists>r k'. deliver e k = Some (r, k') \<and> k' = print (concat (map (\<lambda>l. l @ [newline]) (exception_report e))) k \<and>
    (r = Resumes \<longleftrightarrow> (\<exists>f. e = Breakpoint f))"
  by (cases e) (simp_all add: deliver_def build_idt_def breakpoint_handler_def double_fault_handler_def
      general_protection_fault_handler_def page_fault_handler_def halt_forever_def println_def print_def)

end
