(* ===== verification/Kernel_Properties.thy ===== *)
theory Kernel_Properties
  imports Kernel
begin

text \<open>
  The properties of the whole kernel: it boots, no interrupt makes it panic, what is typed reaches
  the file system, and the system calls report the components' state.
\<close>

section \<open>Commands typed at the keyboard\<close>

lemma printable_whitespace: "printable c \<Longrightarrow> is_whitespace c \<longleftrightarrow> c = 0x20"
  by (auto simp: printable_def is_whitespace_def)

lemma printable_lit:
  "list_all printable (lit ''write '')" "list_all printable (lit ''cat '')" "list_all printable (lit ''rm '')"
  by (simp_all add: lit_def printable_def)

text \<open>A word without blanks, and a text that keeps its last character when trimmed.\<close>

definition file_name :: "rstr \<Rightarrow> bool" where
  "file_name f \<longleftrightarrow> f \<noteq> [] \<and> list_all printable f \<and> 0x20 \<notin> set f"

definition file_text :: "rstr \<Rightarrow> bool" where
  "file_text t \<longleftrightarrow> t \<noteq> [] \<and> list_all printable t \<and> last t \<noteq> 0x20"

lemma file_nameD:
  assumes "file_name f"
  shows "f \<noteq> []" "\<forall>c\<in>set f. \<not> is_whitespace c" "valid_str f" "list_all printable f" "0x20 \<notin> set f"
  using assms printable_whitespace
  by (auto simp: file_name_def list_all_iff printable_def valid_str_def scalar_def)

lemma file_textD:
  assumes "file_text t"
  shows "t \<noteq> []" "\<not> is_whitespace (last t)" "valid_str t" "list_all printable t"
  using assms printable_whitespace
  by (auto simp: file_text_def list_all_iff printable_def valid_str_def scalar_def)

definition write_cmd :: "rstr \<Rightarrow> rstr \<Rightarrow> rstr" where
  "write_cmd f t = lit ''write '' @ f @ [0x20] @ t"

definition cat_cmd :: "rstr \<Rightarrow> rstr" where
  "cat_cmd f = lit ''cat '' @ f"

lemma command_words:
  "lit ''write '' = lit ''write'' @ [0x20]" "lit ''cat '' = lit ''cat'' @ [0x20]"
  "lit ''write'' \<noteq> []" "lit ''cat'' \<noteq> []"
  "\<forall>c\<in>set (lit ''write''). \<not> is_whitespace c" "\<forall>c\<in>set (lit ''cat''). \<not> is_whitespace c"
  by (simp_all add: lit_def is_whitespace_def)

lemma blank: "is_whitespace 0x20"
  by (simp add: is_whitespace_def)

lemma write_cmd_parse:
  assumes "file_name f" "file_text t"
  shows "trim (write_cmd f t) = write_cmd f t"
    and "\<exists>args. split_whitespace (write_cmd f t) = lit ''write'' # args"
    and "strip_prefix (lit ''write '') (write_cmd f t) = Some (f @ [0x20] @ t)"
    and "split_once 0x20 (f @ [0x20] @ t) = Some (f, t)"
proof -
  have "write_cmd f t = lit ''write'' @ 0x20 # (f @ [0x20] @ t)" by (simp add: write_cmd_def command_words)
  then show "\<exists>args. split_whitespace (write_cmd f t) = lit ''write'' # args"
    using split_whitespace_word(2) [OF command_words(3,5) blank] by simp
  show "strip_prefix (lit ''write '') (write_cmd f t) = Some (f @ [0x20] @ t)"
    by (simp add: write_cmd_def)
  show "split_once 0x20 (f @ [0x20] @ t) = Some (f, t)"
    using split_once_append [of "0x20" f t] file_nameD(5) [OF assms(1)] by simp
  have "hd (write_cmd f t) = 0x77" by (simp add: write_cmd_def lit_def)
  then show "trim (write_cmd f t) = write_cmd f t"
    using file_textD(1,2) [OF assms(2)] by (intro trim_fixed) (simp_all add: write_cmd_def is_whitespace_def)
qed

lemma cat_cmd_parse:
  assumes "file_name f"
  shows "trim (cat_cmd f) = cat_cmd f" and "split_whitespace (cat_cmd f) = [lit ''cat'', f]"
proof -
  have "cat_cmd f = lit ''cat'' @ 0x20 # f" by (simp add: cat_cmd_def command_words)
  then show "split_whitespace (cat_cmd f) = [lit ''cat'', f]"
    using split_whitespace_word(2) [OF command_words(4,6) blank] split_whitespace_word(1) file_nameD(1,2) [OF assms]
    by simp
  have "hd (cat_cmd f) = 0x63" by (simp add: cat_cmd_def lit_def)
  moreover have "\<not> is_whitespace (last f)" using file_nameD(1,2) [OF assms] by simp
  ultimately show "trim (cat_cmd f) = cat_cmd f"
    using file_nameD(1) [OF assms] by (intro trim_fixed) (simp_all add: cat_cmd_def is_whitespace_def)
qed

lemma execute_write:
  assumes f: "file_name f" and t: "file_text t" and len: "length t \<le> MAX_CONTENT_LEN"
    and path: "spec_path f = Inr n" and k: "kernel_ok k"
    and room: "n \<in> dom (abs_overlay (writable_files (k_vfs k))) \<or>
      card (dom (abs_overlay (writable_files (k_vfs k)))) < MAX_OVERLAY_FILES"
  shows "\<exists>fs. execute_command (write_cmd f t) k = Inr (println (lit ''written: '' @ f) (set_files fs k)) \<and>
    overlay_ok fs \<and> abs_overlay fs = (abs_overlay (writable_files (k_vfs k)))(n \<mapsto> t)"
proof -
  let ?fs = "writable_files (k_vfs k)"
  have "\<forall>c\<in>set t. c < 0x80" using file_textD(4) [OF t] by (fastforce simp: list_all_iff printable_def)
  then have "str_len t \<le> MAX_CONTENT_LEN" using len by (simp add: str_len_ascii)
  then have spec: "spec_call initramfs_map (Write f t) (abs_overlay ?fs) = (Done (Inr ()), (abs_overlay ?fs)(n \<mapsto> t))"
    using path room by (auto simp: not_less)
  obtain fs where fs: "vfs_write f t ?fs = Inr (Inr (), fs)" "overlay_ok fs"
    "abs_overlay fs = (abs_overlay ?fs)(n \<mapsto> t)"
    using write_sim [OF _ file_nameD(3) [OF f] file_textD(3) [OF t], of ?fs initramfs_map] k
    unfolding spec by (auto simp: kernel_ok_def elim!: rbind_eq_InrE)
  have "cmd_write (write_cmd f t) k = Inr (println (lit ''written: '' @ f) (set_files fs k))"
    using fs(1) write_cmd_parse(3,4) [OF f t] by (simp add: cmd_write_def)
  then have "execute_command (write_cmd f t) k = Inr (println (lit ''written: '' @ f) (set_files fs k))"
    using write_cmd_parse(2) [OF f t] by (auto simp: execute_command_def)
  with fs(2,3) show ?thesis by blast
qed

lemma execute_cat:
  assumes f: "file_name f" and path: "spec_path f = Inr n" and k: "kernel_ok k"
    and t: "vfs_view (writable_files (k_vfs k)) n = Some t"
  shows "execute_command (cat_cmd f) k = Inr (println t k)"
proof -
  let ?fs = "writable_files (k_vfs k)"
  have ok: "overlay_ok ?fs" using k by (simp add: kernel_ok_def)
  obtain r where r: "vfs_read f ?fs = Inr r" "map_option (deref ?fs) r = Some (as_bytes t)"
    using read_spec [OF ok file_nameD(3) [OF f]] path t by auto
  then obtain c where c: "r = Some c" "deref ?fs c = as_bytes t" by auto
  then have "shown_text ?fs c = Inr t" using view_text_valid [OF ok t] by (simp add: shown_text_def)
  with r(1) c(1) cat_cmd_parse(2) [OF f] show ?thesis by (simp add: execute_command_def cmd_cat_def)
qed

section \<open>Line editing\<close>

text \<open>What the line under the cursor is after a key: characters are appended while there is room,
  a character that does not fit discards the line, and Backspace removes the last one.\<close>

fun edit_line :: "KeyEvent \<Rightarrow> rstr \<Rightarrow> rstr" where
  "edit_line (Char_event c) l = (if length l < MAX_LINE_LEN then l @ [c] else [])"
| "edit_line Backspace l = butlast l"
| "edit_line Enter l = []"

definition press_keys :: "KeyEvent list \<Rightarrow> 'va kernel \<Rightarrow> 'va kernel res" where
  "press_keys es k = fold (\<lambda>e r. rbind r (on_key e)) es (Inr k)"

fun key_ok :: "KeyEvent \<Rightarrow> bool" where
  "key_ok (Char_event c) = printable c"
| "key_ok _ = True"

lemma on_key_edit:
  assumes k: "kernel_ok k" "shell_initialized (k_shell k)" and e: "key_ok e"
  shows "\<exists>k'. on_key e k = Inr k' \<and> kernel_ok k' \<and> shell_initialized (k_shell k') \<and>
    line_text (k_shell k') = edit_line e (line_text (k_shell k))"
proof -
  have ok: "shell_ok (k_shell k)" using k by (simp add: kernel_ok_def)
  have pr: "\<forall>c. e = Char_event c \<longrightarrow> printable c" using e by auto
  obtain k' where k': "on_key e k = Inr k'" "kernel_ok k'" "same_devices k k'"
    using on_key_safe [OF k(1) pr] by blast
  have "line_text (k_shell k') = edit_line e (line_text (k_shell k))"
  proof (cases e)
    case (Char_event c)
    show ?thesis
    proof (cases "line_len (k_shell k) < MAX_LINE_LEN")
      case True
      then have "k' = type_char c k" using on_key_char [OF k True, of c] k'(1) Char_event by simp
      then show ?thesis
        using Char_event push_char(2) [OF ok True, of c] e length_line_text [OF ok] True
        by (simp add: type_char_def)
    next
      case False
      then show ?thesis
        using k'(1) k(2) Char_event length_line_text [OF ok]
        by (auto simp: on_key_def prompt_def set_len_def line_text_def)
    qed
  next
    case Backspace
    then show ?thesis
      using k'(1) k(2) pop_char(2) [OF ok] length_line_text [OF ok]
      by (cases "line_len (k_shell k) > 0") (auto simp: on_key_def set_len_def line_text_def)
  next
    case Enter
    obtain k1 where "execute_current_line (print [newline] k) = Inr k1" "line_len (k_shell k1) = 0"
      using execute_current_line_safe [of "print [newline] k"] k(1) by auto
    then show ?thesis using k'(1) k(2) Enter by (auto simp: on_key_def prompt_def line_text_def)
  qed
  with k' k(2) show ?thesis by (simp add: same_devices_def)
qed

section \<open>Properties\<close>

text \<open>(C1) A booted kernel never panics: with the boot information of a well-formed memory map and a
  sane framebuffer, initialisation succeeds, and then any sequence of timer and keyboard interrupts
  (fewer than \<open>2 ^ 64\<close> timer ticks, whatever bytes the keyboard sends) runs without a panic, keeps
  every component's invariant, counts the ticks exactly and acknowledges every interrupt once.\<close>

theorem booted_kernel_never_panics:
  assumes "accepts_canonical vnew" and "boot_info_wf b" and "list_all region_ok (boot_regions b)"
    and "unat heap_space + 131072 < 2 ^ 64" and "screen_ok (framebuffer b)"
    and "timer_count is < 2 ^ 64"
  shows "\<exists>k k'. initialize vnew heap_space m1 m2 b (kernel_static log) = Inr k \<and> run_irqs is k = Inr k' \<and>
    kernel_ok k' \<and> unat (ticks k') = timer_count is \<and>
    hw (k_irq k') = hw (k_irq k) @ replicate (length is) (Out 0x20 0x20)"
proof -
  obtain k where k: "initialize vnew heap_space m1 m2 b (kernel_static log) = Inr k" "kernel_ok k" "k_ticks k = 0"
    "k_irq k = interrupts_init m1 m2 irq_static"
    using kernel_initialize_spec [OF assms(1-5)] by blast
  have e: "eoi k = [Out 0x20 0x20]" by (simp add: eoi_def k(4) interrupts_init_hw)
  obtain k' where "run_irqs is k = Inr k'" "kernel_ok k'" "unat (k_ticks k') = timer_count is"
    "hw (k_irq k') = hw (k_irq k) @ concat (map (\<lambda>_. eoi k) is)"
    using run_irqs_spec [OF k(2), of "is"] k(3) assms(6) by auto
  moreover have "concat (map (\<lambda>_. eoi k) is) = replicate (length is) (Out 0x20 0x20)"
    by (simp add: e) (induction "is", auto)
  ultimately show ?thesis using k(1) by (auto simp: ticks_def)
qed

lemma example_screen: "screen_ok (framebuffer example_boot_info)"
  by (simp add: screen_ok_def example_boot_info_def BootInfo_new_def)

theorem booted_kernel_never_panics_witness:
  "\<exists>k k'. initialize identity_virt_addr 0x200000 0xFF 0xFF example_boot_info (kernel_static []) = Inr k \<and>
     run_irqs [TimerIrq, KeyboardIrq 0x1C, KeyboardIrq 0xFF, TimerIrq] k = Inr k' \<and>
     unat (ticks k') = 2"
proof -
  have "unat (0x200000 :: usize) + 131072 < 2 ^ 64" "timer_count [TimerIrq, KeyboardIrq 0x1C, KeyboardIrq 0xFF, TimerIrq] < 2 ^ 64"
    by simp_all
  from booted_kernel_never_panics [OF accepts_canonical_identity example_boot_info_wf example_regions_ok this(1)
      example_screen this(2), of "0xFF" "0xFF" "[]"]
  show ?thesis by (auto simp: eval_nat_numeral)
qed

text \<open>The boot reaches its markers: initialisation of a kernel with a well-formed memory map
  leaves the frame allocator with exactly the frames of the map, the shell and the keyboard ready,
  an empty overlay, two tasks, and prints, after the shell's prompt, the line
  \<open>AetherOS: kernel initialized\<close> that the boot check waits for.\<close>

theorem kernel_initialization:
  assumes "accepts_canonical vnew" and "boot_info_wf b" and "list_all region_ok (boot_regions b)"
    and "unat heap_space + 131072 < 2 ^ 64" and "screen_ok (framebuffer b)"
  shows "\<exists>k pre post. initialize vnew heap_space m1 m2 b (kernel_static log) = Inr k \<and>
    k_console k = log @ pre @ lit ''AetherOS: kernel initialized'' @ [newline] @ post \<and>
    frame_contents (k_frames k) = boot_frames b \<and> awaiting_input k \<and> line_text (k_shell k) = [] \<and>
    vfs_view (writable_files (k_vfs k)) = initramfs_map \<and> task_count (k_sched k) = 2"
proof -
  obtain k pre post where k: "initialize vnew heap_space m1 m2 b (kernel_static log) = Inr k" "kernel_ok k"
    "k_console k = log @ pre @ lit ''aether> '' @ lit ''AetherOS: kernel initialized'' @ [newline] @ post"
    "k_kbd k = keyboard_initialize keyboard_static" "k_vfs k = vfs_initialize vfs_static"
    "k_shell k = Shell_new\<lparr>shell_initialized := True\<rparr>" "frame_contents (k_frames k) = boot_frames b"
    "scheduler_initialize vnew sched_static = Inr (k_sched k)"
    using kernel_initialize_spec [OF assms, of m1 m2 log] by blast
  have "awaiting_input k" "line_text (k_shell k) = []"
    using k by (simp_all add: awaiting_input_def keyboard_initialize_def keyboard_static_def line_text_def Shell_new_def)
  moreover have "vfs_view (writable_files (k_vfs k)) = initramfs_map"
    by (simp add: k(5) vfs_view_def abs_overlay_empty)
  moreover have "task_count (k_sched k) = 2"
    using initialize_spec [OF assms(1)] k(8) by (auto simp: sched_ok_def task_count_def)
  ultimately show ?thesis using k(1,3,7) by (metis append.assoc)
qed

theorem kernel_initialization_witness:
  "\<exists>k. initialize identity_virt_addr 0x200000 0xFF 0xFF example_boot_info (kernel_static []) = Inr k \<and>
     frame_contents (k_frames k) = [0x1000, 0x2000, 0x10000] \<and> awaiting_input k"
proof -
  have "unat (0x200000 :: usize) + 131072 < 2 ^ 64" by simp
  from kernel_initialization [OF accepts_canonical_identity example_boot_info_wf example_regions_ok this example_screen,
      of "0xFF" "0xFF" "[]"]
  show ?thesis by (auto simp: example_boot_frames)
qed

text \<open>(C5) From key press to disk and back: typing \<open>write f t\<close> and Enter, then \<open>cat f\<close> and Enter,
  as scan codes, at a waiting prompt, makes the console show the echoed command, \<open>written: f\<close>, and then
  exactly the text \<open>t\<close>, and leaves the kernel waiting at an empty line again.\<close>

theorem typed_write_then_cat:
  fixes k :: "'va kernel"
  assumes f: "file_name f" and t: "file_text t" and len: "length f + length t + 7 \<le> MAX_LINE_LEN"
    and path: "spec_path f = Inr n" and k: "awaiting_input k" "line_text (k_shell k) = []"
    and room: "card (dom (abs_overlay (writable_files (k_vfs k)))) < MAX_OVERLAY_FILES"
  shows "\<exists>k'. run_irqs (type_line (write_cmd f t) @ type_line (cat_cmd f)) k = Inr k' \<and>
    awaiting_input k' \<and> line_text (k_shell k') = [] \<and>
    k_console k' = k_console k @ write_cmd f t @ [newline] @ lit ''written: '' @ f @ [newline] @
      lit ''aether> '' @ cat_cmd f @ [newline] @ t @ [newline] @ lit ''aether> ''"
proof -
  have "length (lit ''write '') = 6" "length (lit ''cat '') = 4" by (simp_all add: lit_def)
  then have l: "length (write_cmd f t) \<le> MAX_LINE_LEN" "length (cat_cmd f) \<le> MAX_LINE_LEN" "length t \<le> MAX_CONTENT_LEN"
    using len by (simp_all add: write_cmd_def cat_cmd_def MAX_LINE_LEN_def MAX_CONTENT_LEN_def)
  have p: "list_all printable (write_cmd f t)" "list_all printable (cat_cmd f)"
    using file_nameD(4) [OF f] file_textD(4) [OF t] printable_lit
    by (auto simp: write_cmd_def cat_cmd_def printable_def list_all_iff)
  have ne: "trim (write_cmd f t) \<noteq> []" "trim (cat_cmd f) \<noteq> []"
    using write_cmd_parse(1) [OF f t] cat_cmd_parse(1) [OF f] file_nameD(1) [OF f]
    by (simp_all add: write_cmd_def cat_cmd_def)
  obtain k1 k2 k3 :: "'va kernel" where w: "awaiting_input k1" "k_console k1 = k_console k @ write_cmd f t @ [newline]"
    "k_vfs k1 = k_vfs k" "execute_command (trim (write_cmd f t)) k1 = Inr k2"
    "run_irqs (type_line (write_cmd f t)) k = Inr k3" "awaiting_input k3" "line_text (k_shell k3) = []"
    "k_console k3 = k_console k2 @ lit ''aether> ''" "k_vfs k3 = k_vfs k2"
    using type_line_irqs [OF p(1) l(1) ne(1) k] by blast
  have "kernel_ok k1" "kernel_ok k3" using w(1,6) by (simp_all add: awaiting_input_def)
  obtain fs where k2: "k2 = println (lit ''written: '' @ f) (set_files fs k1)"
    "abs_overlay fs = (abs_overlay (writable_files (k_vfs k)))(n \<mapsto> t)"
    using execute_write [OF f t l(3) path \<open>kernel_ok k1\<close>] room w(3,4) write_cmd_parse(1) [OF f t] by auto
  have "vfs_view (writable_files (k_vfs k3)) n = Some t"
    by (simp add: w(9) k2 set_files_def vfs_view_def)
  obtain k4 k5 k6 :: "'va kernel" where c: "awaiting_input k4" "k_console k4 = k_console k3 @ cat_cmd f @ [newline]"
    "k_vfs k4 = k_vfs k3" "execute_command (trim (cat_cmd f)) k4 = Inr k5"
    "run_irqs (type_line (cat_cmd f)) k3 = Inr k6" "awaiting_input k6" "line_text (k_shell k6) = []"
    "k_console k6 = k_console k5 @ lit ''aether> ''"
    using type_line_irqs [OF p(2) l(2) ne(2) w(6,7)] by blast
  have "k5 = println t k4"
    using execute_cat [OF f path, of k4 t] c(1,3,4) \<open>vfs_view (writable_files (k_vfs k3)) n = Some t\<close>
      cat_cmd_parse(1) [OF f] by (simp add: awaiting_input_def)
  then show ?thesis
    using w(2,5,8) c(2,5-8) k2(1) by (simp add: run_irqs_append set_files_def)
qed

theorem typed_write_then_cat_witness:
  "\<exists>k k' pre. initialize identity_virt_addr 0x200000 0xFF 0xFF example_boot_info (kernel_static []) = Inr k \<and>
     run_irqs (type_line (write_cmd (lit ''a'') (lit ''hi'')) @ type_line (cat_cmd (lit ''a''))) k = Inr k' \<and>
     k_console k' = pre @ lit ''hi'' @ [newline] @ lit ''aether> ''"
proof -
  have "unat (0x200000 :: usize) + 131072 < 2 ^ 64" by simp
  from kernel_initialize_spec [OF accepts_canonical_identity example_boot_info_wf example_regions_ok this example_screen,
      of "0xFF" "0xFF" "[]"]
  obtain k where k: "initialize identity_virt_addr 0x200000 0xFF 0xFF example_boot_info (kernel_static []) = Inr k"
    "kernel_ok k" "k_kbd k = keyboard_initialize keyboard_static" "k_vfs k = vfs_initialize vfs_static"
    "k_shell k = Shell_new\<lparr>shell_initialized := True\<rparr>" by blast
  have a: "awaiting_input k" "line_text (k_shell k) = []"
    using k by (simp_all add: awaiting_input_def keyboard_initialize_def keyboard_static_def line_text_def Shell_new_def)
  have "file_name (lit ''a'')" "file_text (lit ''hi'')"
    "length (lit ''a'') + length (lit ''hi'') + 7 \<le> MAX_LINE_LEN"
    by (simp_all add: file_name_def file_text_def lit_def printable_def MAX_LINE_LEN_def)
  from typed_write_then_cat [OF this spec_path_a(1) a] k(1,4) show ?thesis
    by (auto simp: abs_overlay_empty MAX_OVERLAY_FILES_def)
qed

text \<open>(C28) Line editing: for any sequence of keys, the bytes in the line buffer are the text that
  the keys produce under \<open>edit_line\<close> (append, Backspace, discard when a 129th character arrives,
  empty after Enter), and no key panics.\<close>

theorem shell_line_is_edited_text:
  assumes "kernel_ok k" and "shell_initialized (k_shell k)" and "list_all key_ok es"
  shows "\<exists>k'. press_keys es k = Inr k' \<and> kernel_ok k' \<and>
    line_text (k_shell k') = fold edit_line es (line_text (k_shell k)) \<and>
    length (line_text (k_shell k')) \<le> MAX_LINE_LEN"
proof -
  have "\<exists>k'. press_keys es k = Inr k' \<and> kernel_ok k' \<and> shell_initialized (k_shell k') \<and>
      line_text (k_shell k') = fold edit_line es (line_text (k_shell k))"
    using assms(3)
  proof (induction es rule: rev_induct)
    case Nil
    then show ?case using assms(1,2) by (simp add: press_keys_def)
  next
    case (snoc e es)
    then obtain k1 where k1: "press_keys es k = Inr k1" "kernel_ok k1" "shell_initialized (k_shell k1)"
      "line_text (k_shell k1) = fold edit_line es (line_text (k_shell k))" by auto
    from on_key_edit [OF k1(2,3), of e] snoc.prems k1 show ?case by (auto simp: press_keys_def)
  qed
  then show ?thesis
    using length_line_text by (fastforce simp: kernel_ok_def shell_ok_def)
qed

lemma example_kernel:
  obtains k where "initialize identity_virt_addr 0x200000 0xFF 0xFF example_boot_info (kernel_static []) = Inr k"
    and "kernel_ok k" and "shell_initialized (k_shell k)" and "line_text (k_shell k) = []" and "k_ticks k = 0"
proof -
  have "unat (0x200000 :: usize) + 131072 < 2 ^ 64" by simp
  from kernel_initialize_spec [OF accepts_canonical_identity example_boot_info_wf example_regions_ok this example_screen,
      of "0xFF" "0xFF" "[]"] that
  show thesis by (auto simp: line_text_def Shell_new_def)
qed

theorem shell_line_is_edited_text_witness:
  "\<exists>k k'. initialize identity_virt_addr 0x200000 0xFF 0xFF example_boot_info (kernel_static []) = Inr k \<and>
     press_keys [Char_event 0x61, Char_event 0x62, Backspace] k = Inr k' \<and> line_text (k_shell k') = [0x61]"
proof -
  obtain k where k: "initialize identity_virt_addr 0x200000 0xFF 0xFF example_boot_info (kernel_static []) = Inr k"
    "kernel_ok k" "shell_initialized (k_shell k)" "line_text (k_shell k) = []" using example_kernel .
  with shell_line_is_edited_text [OF k(2,3), of "[Char_event 0x61, Char_event 0x62, Backspace]"]
  show ?thesis by (auto simp: printable_def MAX_LINE_LEN_def)
qed

text \<open>(C34) System calls never panic, change nothing but (for \<open>WriteDebug\<close>) the console, and report
  the components' state: the tick counter, the number of tasks, the used heap, the discovered frames,
  and 0 or 1 for the mode and the address space of the running task.\<close>

theorem syscalls_report_state:
  assumes "kernel_ok k"
  shows "\<exists>r k'. dispatch c arg0 k = Inr (r, k') \<and>
    (case c of
       WriteDebug \<Rightarrow> r = 0 \<and> k' = print (lit ''AetherOS syscall debug: '' @ display_nat (unat arg0) @ [newline]) k
     | QueryTicks \<Rightarrow> r = k_ticks k \<and> k' = k
     | QueryTaskCount \<Rightarrow> unat r = sched_len (SCHEDULER (k_sched k)) \<and> k' = k
     | QueryHeapUsage \<Rightarrow> heap_used (k_heap k) = Inr r \<and> k' = k
     | QueryUsableFrames \<Rightarrow> r = usable_frame_count (k_frames k) \<and> k' = k
     | QueryExecutionMode \<Rightarrow>
         r = (if execution_mode (task_at (SCHEDULER (k_sched k)) (running_index (k_sched k))) = User then 1 else 0) \<and> k' = k
     | QueryAddressSpaceKind \<Rightarrow>
         r = (if kind (address_space (task_at (SCHEDULER (k_sched k)) (running_index (k_sched k)))) = KernelAndUser
              then 1 else 0) \<and> k' = k)"
proof -
  have ok: "sched_ok (k_sched k)" using assms by (simp add: kernel_ok_def)
  let ?p = "task_at (SCHEDULER (k_sched k)) (running_index (k_sched k))"
  have "sched_len (SCHEDULER (k_sched k)) \<le> 16"
    using ok sched_wfD(2) by (auto simp: sched_ok_def MAX_TASKS_def)
  then have count: "unat (task_count (k_sched k)) = sched_len (SCHEDULER (k_sched k))"
    using ok by (simp add: sched_ok_def task_count_def unat_of_nat take_bit_eq_mod)
  obtain u where "heap_used (k_heap k) = Inr u" using heap_used_total by blast
  moreover have "current_task_execution_mode (k_sched k) = Inr (Some (execution_mode ?p))"
    "current_task_address_space_kind (k_sched k) = Inr (Some (kind (address_space ?p)))"
    using sched_ok_current(2) [OF ok]
    by (simp_all add: current_task_execution_mode_def current_task_address_space_kind_def)
  ultimately show ?thesis
    using count by (cases c; cases "execution_mode ?p"; cases "kind (address_space ?p)")
      (auto simp: ticks_def println_def)
qed

theorem syscalls_report_state_witness:
  "\<exists>k k'. initialize identity_virt_addr 0x200000 0xFF 0xFF example_boot_info (kernel_static []) = Inr k \<and>
     dispatch QueryTicks 5 k = Inr (0, k')"
proof -
  obtain k where k: "initialize identity_virt_addr 0x200000 0xFF 0xFF example_boot_info (kernel_static []) = Inr k"
    "kernel_ok k" "k_ticks k = 0" using example_kernel .
  with syscalls_report_state [OF k(2), of QueryTicks 5] show ?thesis by auto
qed

end
