(* ===== verification/Console_Text.thy ===== *)
theory Console_Text
  imports Kernel_Properties
begin

text \<open>
  Everything the kernel prints is text.  In the source this is the type \<open>&str\<close> of what reaches the
  console, except at \<open>leak_str\<close>, whose unsafe code makes a promise the compiler cannot check; here it is
  the invariant that the console only holds Unicode scalar values and the overlay only ASCII bytes, for
  every boot and every sequence of interrupts.  The theory also gives the complete text that
  initialisation prints.
\<close>

section \<open>Formatted values\<close>

lemma display_nat_valid [simp]: "valid_str (display_nat n)"
proof (induction n rule: less_induct)
  case (less n)
  then show ?case using display_nat.simps [of n] less.IH [of "n div 10"] by (cases "n < 10") (auto simp: scalar_def)
qed

lemma hex_digits_valid [simp]: "valid_str (hex_digits n)"
proof (induction n rule: less_induct)
  case (less n)
  have "scalar (hex_digit d)" if "d < 16" for d using that by (auto simp: hex_digit_def scalar_def)
  then show ?case using hex_digits.simps [of n] less.IH [of "n div 16"] by (cases "n < 16") auto
qed

lemma display_valid [simp]: "valid_str (display_hex n)" "valid_str (display_bool b)"
  by (simp_all add: display_hex_def display_bool_def)

lemma newline_scalar [simp]: "scalar newline" "scalar 0x0A" "scalar 0x27"
  by (simp_all add: newline_def scalar_def)

lemma debug_valid: "valid_str s \<Longrightarrow> valid_str (debug_option_str (Some s))" "valid_str (debug_option_str None)"
  by (auto simp: debug_option_str_def debug_char_def valid_str_def list_all_iff lit_def scalar_def)

section \<open>The invariant\<close>

definition text_ok :: "'va kernel \<Rightarrow> bool" where
  "text_ok k \<longleftrightarrow> valid_str (k_console k)"

definition names_ok :: "'va sched_state \<Rightarrow> bool" where
  "names_ok s \<longleftrightarrow> (\<forall>i < sched_len (SCHEDULER s). valid_str (proc_name (task_at (SCHEDULER s) i)))"

lemma text_ok_print [simp]: "text_ok (print t k) \<longleftrightarrow> text_ok k \<and> valid_str t" "text_ok (println t k) \<longleftrightarrow> text_ok k \<and> valid_str t"
  "text_ok (println_all ts k) \<longleftrightarrow> text_ok k \<and> list_all valid_str ts"
proof -
  show "text_ok (print t k) \<longleftrightarrow> text_ok k \<and> valid_str t" "text_ok (println t k) \<longleftrightarrow> text_ok k \<and> valid_str t"
    by (simp_all add: text_ok_def)
  show "text_ok (println_all ts k) \<longleftrightarrow> text_ok k \<and> list_all valid_str ts"
    by (induction ts arbitrary: k) (simp_all add: println_all_def text_ok_def)
qed

lemma text_ok_updates [simp]: "text_ok (set_files fs k) = text_ok k" "text_ok (set_len n k) = text_ok k" "text_ok (prompt k) = text_ok k"
  "text_ok (k\<lparr>k_shell := s\<rparr>) = text_ok k" "text_ok (k\<lparr>k_kbd := q\<rparr>) = text_ok k" "text_ok (k\<lparr>k_irq := x\<rparr>) = text_ok k"
  "text_ok (k\<lparr>k_sched := y\<rparr>) = text_ok k" "text_ok (k\<lparr>k_ticks := t\<rparr>) = text_ok k" "text_ok (k\<lparr>k_pixels := p\<rparr>) = text_ok k"
  "text_ok (k\<lparr>k_fb := f\<rparr>) = text_ok k"
  by (simp_all add: text_ok_def set_files_def set_len_def prompt_def)

section \<open>Commands\<close>

lemma labels_valid [simp]: "valid_str (ProcessState_label st)" "valid_str (ExecutionMode_label md)"
  "valid_str (AddressSpaceKind_label kd)" "valid_str scheduling_model" "valid_str (VfsError_message e)"
  by ((cases st; simp), (cases md; simp), (cases kd; simp), simp add: scheduling_model_def, (cases e; simp))

lemma current_name_valid:
  assumes "kernel_ok k" and "names_ok (k_sched k)" and "current_task_name (k_sched k) = Inr n"
  shows "valid_str (debug_option_str n)"
proof -
  have ok: "sched_ok (k_sched k)" using assms(1) by (simp add: kernel_ok_def)
  then have "running_index (k_sched k) < sched_len (SCHEDULER (k_sched k))" by (rule ring.position_less)
  with assms(2,3) sched_ok_current(2) [OF ok] show ?thesis
    by (auto simp: current_task_name_def names_ok_def debug_valid)
qed

lemma print_scheduler_text:
  assumes "kernel_ok k" "names_ok (k_sched k)" "text_ok k" and "print_scheduler k = Inr k'"
  shows "text_ok k'"
  using assms(4) current_name_valid [OF assms(1,2)] assms(3)
  by (auto simp: print_scheduler_def unwrap_or_def elim!: rbind_eq_InrE split: option.split)

lemma shown_text_valid: "shown_text fs r = Inr t \<Longrightarrow> valid_str t"
  by (auto simp: shown_text_def from_utf8_iff split: option.splits)

lemma ls_names_valid:
  assumes "for_each_entry fs = Inr names"
  shows "list_all valid_str names"
proof -
  have "list_all valid_str ns" if "overlay_entries es = Inr ns" for es ns
    using that by (induction es arbitrary: ns)
      (auto simp: OverlayFile_path_def from_utf8_iff elim!: rbind_eq_InrE split: if_splits option.splits)
  moreover have "list_all valid_str ns" if "initramfs_entries fs ms = Inr ns" "set ms \<subseteq> set files" for ms ns
    using that by (induction ms arbitrary: ns) (auto elim!: rbind_eq_InrE split: if_splits intro: valid_files)
  ultimately show ?thesis using assms by (auto simp: for_each_entry_def elim!: rbind_eq_InrE)
qed

lemma command_text:
  assumes k: "kernel_ok k" "names_ok (k_sched k)" "text_ok k" and v: "valid_str c" and run: "execute_command c k = Inr k'"
  shows "text_ok k'"
proof (cases "split_whitespace c")
  case (Cons head args)
  have args: "\<forall>w\<in>set args. valid_str w"
    using split_whitespace_words [of _ c] Cons v valid_str_sub by fastforce
  have info: "text_ok k2" if "cmd_info k = Inr k2" for k2
    by (rule print_scheduler_text [OF _ _ _ that [unfolded cmd_info_def]]) (use k in \<open>simp_all add: println_all_eq text_ok_def\<close>)
  have cat: "text_ok k2" if "cmd_cat args k = Inr k2" for k2
    using that args k(3) shown_text_valid [of "writable_files (k_vfs k)"]
    by (auto simp: cmd_cat_def elim!: rbind_eq_InrE split: list.splits option.splits)
  have wr: "text_ok k2" if w: "cmd_write c k = Inr k2" for k2
  proof (cases "strip_prefix (lit ''write '') c")
    case (Some a)
    have "valid_str p" if "split_once 0x20 a = Some (p, t)" for p t
      using split_once_subset [OF that] strip_prefix_subset [OF Some] v valid_str_sub by blast
    then show ?thesis using w Some k(3) by (auto simp: cmd_write_def elim!: rbind_eq_InrE split: option.splits sum.splits)
  qed (use w k(3) in \<open>auto simp: cmd_write_def\<close>)
  have rm: "text_ok k2" if "cmd_rm args k = Inr k2" for k2
    using that args k(3) by (auto simp: cmd_rm_def elim!: rbind_eq_InrE split: list.splits sum.splits)
  have ls: "text_ok k2" if "cmd_ls k = Inr k2" for k2
    using that k(3) ls_names_valid by (auto simp: cmd_ls_def elim!: rbind_eq_InrE)
  have cl: "text_ok k2" if "cmd_clear k = Inr k2" for k2
    using that k(3) by (auto simp: cmd_clear_def redraw_boot_shell_surface_def show_visual_def render_boot_visual_def Let_def
        elim!: rbind_eq_InrE split: option.splits if_splits)
  have mem: "text_ok k2" if "cmd_mem k = Inr k2" for k2
    using that k(3) by (auto simp: cmd_mem_def elim!: rbind_eq_InrE)
  have sch: "text_ok k2" if "print_scheduler k = Inr k2" for k2
    by (rule print_scheduler_text [OF k that])
  show ?thesis
    using run Cons v k(3) info cat wr rm ls cl mem sch
    by (auto simp: execute_command_def cmd_help_def cmd_ticks_def cmd_tasks_def cmd_storage_def primary_device_def split: if_splits)
qed (use run k in \<open>simp add: execute_command_def\<close>)

section \<open>The bytes of the overlay\<close>

text \<open>What is typed is ASCII, so the overlay holds ASCII bytes only, unused slots and the tails of the buffers
  included.  Then a reference to a slot shows UTF-8 whatever its length, also after the slot has changed.\<close>

definition files_ascii :: "OverlayFile list \<Rightarrow> bool" where
  "files_ascii fs \<longleftrightarrow> (\<forall>e\<in>set fs. \<forall>b\<in>set (file_contents e). b < 0x80)"

definition kernel_ascii :: "'va kernel \<Rightarrow> bool" where
  "kernel_ascii k \<longleftrightarrow> files_ascii (writable_files (k_vfs k))"

lemma kernel_ascii_print [simp]: "kernel_ascii (print t k) = kernel_ascii k" "kernel_ascii (println t k) = kernel_ascii k"
  "kernel_ascii (println_all ts k) = kernel_ascii k" "kernel_ascii (prompt k) = kernel_ascii k" "kernel_ascii (set_len n k) = kernel_ascii k"
  "kernel_ascii (k\<lparr>k_shell := s\<rparr>) = kernel_ascii k" "kernel_ascii (k\<lparr>k_kbd := q\<rparr>) = kernel_ascii k"
  "kernel_ascii (set_files fs k) = files_ascii fs"
  by (simp_all add: kernel_ascii_def println_all_eq prompt_def set_len_def set_files_def)

lemma files_ascii_update:
  assumes "files_ascii fs" and "i < length fs \<Longrightarrow> \<forall>b\<in>set (file_contents e). b < 0x80"
  shows "files_ascii (fs[i := e])"
proof (cases "i < length fs")
  case True
  then show ?thesis using assms set_update_subset_insert [of fs i e] unfolding files_ascii_def by blast
qed (use assms(1) in \<open>simp add: list_update_beyond\<close>)

lemma store_ascii:
  assumes "files_ascii fs" and "\<forall>b\<in>set bytes. b < 0x80" and "store_slot i p bytes fs = Inr fs'"
  shows "files_ascii fs'"
proof -
  obtain e where e: "OverlayFile_write p bytes (fs ! i) = Inr e" "fs' = fs[i := e]"
    using assms(3) by (auto simp: store_slot_def elim!: rbind_eq_InrE)
  have "set (file_contents e) \<subseteq> set bytes \<union> set (file_contents (fs ! i))"
    using e(1) by (auto simp: OverlayFile_write_def copy_prefix_def elim!: rbind_eq_InrE split: if_splits dest: in_set_dropD)
  with assms(1,2) show ?thesis
    unfolding e(2) by (intro files_ascii_update) (auto simp: files_ascii_def dest!: nth_mem)
qed

lemma as_bytes_small: "\<forall>c\<in>set t. c < 0x80 \<Longrightarrow> \<forall>b\<in>set (as_bytes t). b < 0x80"
  by (auto simp: as_bytes_ascii word_less_nat_alt unat_of_nat take_bit_eq_mod)

lemma write_ascii:
  assumes "files_ascii fs" and "\<forall>c\<in>set t. c < 0x80" and "vfs_write p t fs = Inr (r, fs')"
  shows "files_ascii fs'"
proof -
  have "files_ascii g" if "store_slot i n (as_bytes t) fs = Inr g" for i n g
    by (rule store_ascii [OF assms(1) as_bytes_small [OF assms(2)] that])
  then show ?thesis using assms(1,3)
    by (auto simp: vfs_write_def elim!: rbind_eq_InrE split: sum.splits if_splits option.splits)
qed

lemma remove_ascii: "files_ascii fs \<Longrightarrow> vfs_remove p fs = Inr (r, fs') \<Longrightarrow> files_ascii fs'"
  by (auto simp: vfs_remove_def OverlayFile_EMPTY_def intro!: files_ascii_update elim!: rbind_eq_InrE
      split: sum.splits if_splits option.splits)

lemma ascii_shown:
  assumes "files_ascii fs" and "i < length fs"
  shows "\<exists>t. from_utf8 (deref fs (OverlayRef i n)) = Some t"
proof -
  let ?bs = "take n (file_contents (fs ! i))"
  have "\<forall>b\<in>set ?bs. b < 0x80" 
    using assms nth_mem [OF assms(2)] in_set_takeD unfolding files_ascii_def by fast
  then have small: "\<forall>c\<in>set (map unat ?bs). c < 0x80" by (simp add: word_less_nat_alt)
  then have "as_bytes (map unat ?bs) = ?bs" by (simp add: as_bytes_ascii comp_def)
  with valid_str_ascii [OF small] have "from_utf8 ?bs = Some (map unat ?bs)" by (simp add: from_utf8_iff)
  then show ?thesis by simp
qed

lemma command_ascii:
  assumes k: "kernel_ascii k" and c: "\<forall>x\<in>set c. x < 0x80" and run: "execute_command c k = Inr k'"
  shows "kernel_ascii k'"
proof (cases "split_whitespace c")
  case (Cons head args)
  have wr: "kernel_ascii k2" if w: "cmd_write c k = Inr k2" for k2
  proof (cases "strip_prefix (lit ''write '') c")
    case (Some a)
    have "\<forall>x\<in>set t. x < 0x80" if "split_once 0x20 a = Some (p, t)" for p t
      using split_once_subset [OF that] strip_prefix_subset [OF Some] c by blast
    then show ?thesis using w Some k write_ascii
      by (auto simp: cmd_write_def kernel_ascii_def [of k] elim!: rbind_eq_InrE split: option.splits sum.splits)
  qed (use w k in \<open>auto simp: cmd_write_def\<close>)
  have rm: "kernel_ascii k2" if "cmd_rm args k = Inr k2" for k2
    using that k remove_ascii by (auto simp: cmd_rm_def kernel_ascii_def [of k] elim!: rbind_eq_InrE split: list.splits sum.splits)
  have cat: "kernel_ascii k2" if "cmd_cat args k = Inr k2" for k2
    using that k by (auto simp: cmd_cat_def elim!: rbind_eq_InrE split: list.splits option.splits)
  have cl: "kernel_ascii k2" if "cmd_clear k = Inr k2" for k2
    using that k by (auto simp: cmd_clear_def redraw_boot_shell_surface_def show_visual_def kernel_ascii_def
        elim!: rbind_eq_InrE split: option.splits)
  have sch: "kernel_ascii k2" if "print_scheduler k1 = Inr k2" "kernel_ascii k1" for k1 k2 :: "'a kernel"
    using that by (auto simp: print_scheduler_def elim!: rbind_eq_InrE)
  show ?thesis
    using run Cons k wr rm cat cl sch
    by (auto simp: execute_command_def cmd_help_def cmd_info_def cmd_ticks_def cmd_tasks_def cmd_storage_def cmd_mem_def cmd_ls_def
        elim!: rbind_eq_InrE split: if_splits)
qed (use run k in \<open>simp add: execute_command_def\<close>)

section \<open>Interrupts and initialisation\<close>

lemma scalar_printable: "printable c \<Longrightarrow> scalar c"
  by (simp add: printable_def scalar_def)

lemma on_key_text:
  assumes k: "kernel_ok k" "names_ok (k_sched k)" "text_ok k" and e: "\<forall>c. e = Char_event c \<longrightarrow> printable c"
    and run: "on_key e k = Inr k'"
  shows "text_ok k'"
proof -
  have line: "text_ok k2" if "execute_current_line (print [newline] k) = Inr k2" for k2
  proof -
    have "valid_str (trim (line_text (k_shell k)))" using k(1) line_text_valid by (simp add: kernel_ok_def)
    then have "text_ok k3" if "execute_command (trim (line_text (k_shell k))) (print [newline] k) = Inr k3" for k3
      using command_text [OF _ _ _ _ that] k by simp
    then show ?thesis
      using that k by (auto simp: execute_current_line_spec elim!: rbind_eq_InrE split: if_splits)
  qed
  show ?thesis
    using run e k(3) line
    by (cases e) (auto simp: on_key_def scalar_printable elim!: rbind_eq_InrE split: if_splits, simp_all add: scalar_def)
qed

lemma on_key_ascii:
  assumes k: "kernel_ok k" "kernel_ascii k" and run: "on_key e k = Inr k'"
  shows "kernel_ascii k'"
proof -
  have line: "kernel_ascii k2" if "execute_current_line (print [newline] k) = Inr k2" for k2
  proof -
    have "list_all printable (line_text (k_shell k))" using k(1) line_text_printable by (simp add: kernel_ok_def)
    then have "\<forall>x\<in>set (trim (line_text (k_shell k))). x < 0x80"
      using trim_subset [of "line_text (k_shell k)"] by (fastforce simp: list_all_iff printable_def)
    then show ?thesis
      using that k command_ascii [of "print [newline] k" "trim (line_text (k_shell k))"]
      by (auto simp: execute_current_line_spec elim!: rbind_eq_InrE split: if_splits)
  qed
  show ?thesis
    using run k(2) line by (cases e) (auto simp: on_key_def elim!: rbind_eq_InrE split: if_splits)
qed

lemma irq_ascii:
  assumes k: "kernel_ok k" "kernel_ascii k" and run: "handle_irq i k = Inr k'"
  shows "kernel_ascii k'"
proof (cases i)
  case TimerIrq
  then show ?thesis
    using run k(2) by (auto simp: timer_interrupt_handler_def on_tick_def Let_def end_of_interrupt_def kernel_ascii_def
        elim!: rbind_eq_InrE split: if_splits)
next
  case (KeyboardIrq b)
  obtain ev q where ev: "on_interrupt b (k_kbd k) = (ev, q)" by (cases "on_interrupt b (k_kbd k)")
  have "kernel_ok (k\<lparr>k_kbd := q\<rparr>)" using k(1) by simp
  then have "kernel_ascii k2" if "keyboard_on_interrupt b k = Inr k2" for k2
    using that ev k(2) on_key_ascii [of "k\<lparr>k_kbd := q\<rparr>"] by (auto simp: keyboard_on_interrupt_def Let_def split: option.splits)
  then show ?thesis
    using run KeyboardIrq by (auto simp: keyboard_interrupt_handler_def end_of_interrupt_def kernel_ascii_def elim!: rbind_eq_InrE)
qed

lemma irq_text:
  assumes k: "kernel_ok k" "names_ok (k_sched k)" "text_ok k" and run: "handle_irq i k = Inr k'"
  shows "text_ok k' \<and> names_ok (k_sched k')"
proof (cases i)
  case TimerIrq
  have ok: "sched_ok (k_sched k)" using k(1) by (simp add: kernel_ok_def)
  obtain s where s: "scheduler_tick (k_sched k) = Inr s" "sched_len (SCHEDULER s) = sched_len (SCHEDULER (k_sched k))"
    "\<forall>i < sched_len (SCHEDULER (k_sched k)). proc_name (task_at (SCHEDULER s) i) = proc_name (task_at (SCHEDULER (k_sched k)) i)"
    using tick_spec [OF ok] by blast
  then have "names_ok s" using k(2) by (simp add: names_ok_def)
  with run TimerIrq s(1) k(3) show ?thesis
    by (auto simp: timer_interrupt_handler_def on_tick_def Let_def end_of_interrupt_def elim!: rbind_eq_InrE split: if_splits)
next
  case (KeyboardIrq b)
  obtain ev q where ev: "on_interrupt b (k_kbd k) = (ev, q)" by (cases "on_interrupt b (k_kbd k)")
  have "text_ok k2 \<and> k_sched k2 = k_sched k" if "keyboard_on_interrupt b k = Inr k2" for k2
  proof (cases ev)
    case None
    then show ?thesis using that ev k(3) by (auto simp: keyboard_on_interrupt_def)
  next
    case (Some e)
    let ?k = "k\<lparr>k_kbd := q\<rparr>"
    have p: "\<forall>c. e = Char_event c \<longrightarrow> printable c" using event_printable [of b "k_kbd k" e] ev Some by simp
    have r: "on_key e ?k = Inr k2" using that ev Some by (simp add: keyboard_on_interrupt_def)
    have "text_ok k2" using on_key_text [OF _ _ _ p r] k by simp
    moreover have "k_sched k2 = k_sched k"
      using on_key_safe [of ?k e] p r k(1) by (auto simp: same_devices_def same_core_def)
    ultimately show ?thesis by blast
  qed
  then show ?thesis
    using run KeyboardIrq k(2) by (auto simp: keyboard_interrupt_handler_def end_of_interrupt_def elim!: rbind_eq_InrE)
qed

lemma run_irqs_text:
  "kernel_ok k \<Longrightarrow> names_ok (k_sched k) \<Longrightarrow> text_ok k \<Longrightarrow> unat (k_ticks k) + timer_count is < 2 ^ 64 \<Longrightarrow>
   run_irqs is k = Inr k' \<Longrightarrow> text_ok k'"
proof (induction "is" arbitrary: k)
  case (Cons i "is")
  obtain k1 where k1: "handle_irq i k = Inr k1" "run_irqs is k1 = Inr k'" using Cons.prems(5) by (auto elim!: rbind_eq_InrE)
  have "unat (k_ticks k) + timer_count [i] < 2 ^ 64"
    using Cons.prems(4) by (cases i) (simp_all add: timer_count_def split: if_splits)
  with run_irqs_spec [OF Cons.prems(1), of "[i]"] k1(1)
  have "kernel_ok k1" "unat (k_ticks k1) = unat (k_ticks k) + timer_count [i]" by auto
  moreover have "timer_count (i # is) = timer_count [i] + timer_count is" by (simp add: timer_count_def)
  ultimately show ?case using Cons.IH [of k1] irq_text [OF Cons.prems(1-3) k1(1)] k1(2) Cons.prems(4) by simp
qed simp

lemma run_irqs_ascii:
  "kernel_ok k \<Longrightarrow> kernel_ascii k \<Longrightarrow> unat (k_ticks k) + timer_count is < 2 ^ 64 \<Longrightarrow> run_irqs is k = Inr k' \<Longrightarrow> kernel_ascii k'"
proof (induction "is" arbitrary: k)
  case (Cons i "is")
  obtain k1 where k1: "handle_irq i k = Inr k1" "run_irqs is k1 = Inr k'" using Cons.prems(4) by (auto elim!: rbind_eq_InrE)
  have n: "timer_count (i # is) = timer_count [i] + timer_count is" by (simp add: timer_count_def)
  with Cons.prems(3) have "unat (k_ticks k) + timer_count [i] < 2 ^ 64" by simp
  with run_irqs_spec [OF Cons.prems(1), of "[i]"] k1(1)
  have "kernel_ok k1" "unat (k_ticks k1) = unat (k_ticks k) + timer_count [i]" by auto
  with Cons.IH [of k1] irq_ascii [OF Cons.prems(1,2) k1(1)] k1(2) Cons.prems(3) n show ?case by simp
qed simp

lemma initialize_text:
  assumes v: "accepts_canonical vnew" and b: "boot_info_wf b" "list_all region_ok (boot_regions b)"
    and h: "unat heap_space + 131072 < 2 ^ 64" and fb: "screen_ok (framebuffer b)"
    and run: "initialize vnew heap_space m1 m2 b (kernel_static log) = Inr k" and log: "valid_str log"
  shows "text_ok k \<and> names_ok (k_sched k) \<and> kernel_ok k \<and> k_ticks k = 0"
proof -
  have spec: "kernel_ok k" "k_ticks k = 0" "scheduler_initialize vnew sched_static = Inr (k_sched k)"
    using kernel_initialize_spec [OF v b h fb, of m1 m2 log] run by auto
  have names: "names_ok s" if "scheduler_initialize vnew sched_static = Inr s" for s
  proof -
    obtain st where "scheduler_initialize vnew sched_static = Inr st" "sched_len (SCHEDULER st) = 2"
      "proc_name (task_at (SCHEDULER st) 0) = lit ''idle''" "proc_name (task_at (SCHEDULER st) 1) = lit ''init''"
      using initialize_spec [OF v] by metis
    with that show ?thesis by (auto simp: names_ok_def less_Suc_eq numeral_2_eq_2)
  qed
  have start: "text_ok (kernel_static log :: 'a kernel)" using log by (simp add: text_ok_def kernel_static_def)
  have render: "valid_str t" if "render_boot_visual f = Inr (t, px)" for f t px
    using that by (auto simp: render_boot_visual_def Let_def elim!: rbind_eq_InrE split: if_splits)
  have framebuf: "text_ok k2 \<and> k_sched k2 = k_sched k1" if "framebuffer_initialize fb' k1 = Inr k2" "text_ok k1" for fb' and k1 k2 :: "'a kernel"
    using that render by (auto simp: framebuffer_initialize_def show_visual_def elim!: rbind_eq_InrE split: option.splits)
  obtain f hp s k2 where init: "scheduler_initialize vnew sched_static = Inr s"
    "framebuffer_initialize (framebuffer b) (keyboard_initialize_kernel (timer_initialize
       ((kernel_static log)\<lparr>k_irq := interrupts_init m1 m2 irq_static, k_frames := f, k_heap := hp, k_sched := s\<rparr>))) = Inr k2"
    "init_report b (shell_initialize (fs_initialize k2)) = Inr k"
    using run by (auto simp: initialize_def memory_initialize_def kernel_static_def elim!: rbind_eq_InrE)
  have "text_ok (keyboard_initialize_kernel (timer_initialize
       ((kernel_static log :: 'a kernel)\<lparr>k_irq := interrupts_init m1 m2 irq_static, k_frames := f, k_heap := hp, k_sched := s\<rparr>)))"
    using start by (simp add: keyboard_initialize_kernel_def timer_initialize_def text_ok_def)
  from framebuf [OF init(2) this] have k2: "text_ok k2" "k_sched k2 = s"
    by (simp_all add: keyboard_initialize_kernel_def timer_initialize_def)
  let ?k3 = "shell_initialize (fs_initialize k2)"
  have k3: "text_ok ?k3" "k_sched ?k3 = s"
    using k2 by (simp_all add: shell_initialize_def fs_initialize_def println_all_eq prompt_def text_ok_def)
  have "valid_str (debug_option_str n)" if "current_task_name (k_sched ?k3) = Inr n" for n
  proof -
    have "sched_ok s" "k_sched k = s" using spec init(1) by (auto simp: kernel_ok_def)
    then have "kernel_ok k" "current_task_name (k_sched k) = Inr n" "names_ok (k_sched k)"
      using that k3(2) spec(1) names [OF init(1)] by simp_all
    then show ?thesis by (intro current_name_valid)
  qed
  then have "text_ok k" using init(3) k3(1) by (auto simp: init_report_def elim!: rbind_eq_InrE)
  with spec names show ?thesis by blast
qed

text \<open>The text that initialisation prints, with the values it reports: the drivers, the framebuffer when there is none or
  none that can be drawn on, the shell with its prompt, and the report.\<close>

definition init_console :: "BootInfo \<Rightarrow> rstr" where
  "init_console b = concat (map (\<lambda>l. l @ [newline])
     ([lit ''AetherOS: PIT timer initialized at 100 Hz'', lit ''AetherOS: keyboard driver initialized''] @
      (case framebuffer b of
         None \<Rightarrow> [lit ''AetherOS: no framebuffer available, serial output only'']
       | Some f \<Rightarrow> if fb_bpp f = 32 then [] else
           [lit ''AetherOS: framebuffer detected, but unsupported bpp for visual stage: '' @ display_nat (unat (fb_bpp f))]) @
      [lit ''AetherOS shell ready'', lit ''Type '' @ [0x27] @ lit ''help'' @ [0x27] @ lit '' to list commands.''])) @
     lit ''aether> '' @ concat (map (\<lambda>l. l @ [newline])
     [lit ''AetherOS: kernel initialized'',
      lit ''AetherOS: HHDM offset = '' @ display_hex (unat (hhdm_offset b)),
      lit ''AetherOS: memory map entries = '' @ display_nat (memory_map_entries b),
      lit ''AetherOS: framebuffer = '' @ (if framebuffer b = None then lit ''unavailable'' else lit ''available''),
      lit ''AetherOS: usable frames discovered = '' @ display_nat (sum_list (map span_frames (spans_of (boot_regions b)))),
      lit ''AetherOS: usable physical ranges = '' @ display_nat (min 32 (length (spans_of (boot_regions b)))),
      lit ''AetherOS: kernel heap bytes = '' @ display_nat 131072,
      lit ''AetherOS: kernel heap used = '' @ display_nat 0,
      lit ''AetherOS: scheduler tasks = '' @ display_nat 2,
      lit ''AetherOS: current task = '' @ lit ''Some('' @ [0x22] @ lit ''idle'' @ [0x22] @ lit '')'',
      lit ''AetherOS: scheduler model = '' @ lit ''cooperative round-robin demo'',
      lit ''AetherOS: interrupts enabled''])"

lemma framebuffer_initialize_console:
  "framebuffer_initialize fb k = Inr k' \<Longrightarrow>
   k_console k' = k_console k @ concat (map (\<lambda>l. l @ [newline])
      (case fb of
         None \<Rightarrow> [lit ''AetherOS: no framebuffer available, serial output only'']
       | Some f \<Rightarrow> if fb_bpp f = 32 then [] else
           [lit ''AetherOS: framebuffer detected, but unsupported bpp for visual stage: '' @ display_nat (unat (fb_bpp f))])) \<and>
   k_frames k' = k_frames k \<and> k_heap k' = k_heap k \<and> k_sched k' = k_sched k \<and> k_shell k' = k_shell k"
  by (auto simp: framebuffer_initialize_def show_visual_def render_boot_visual_def Let_def newline_def
      elim!: rbind_eq_InrE split: option.splits if_splits)

lemma fresh_heap_unused: "heap_initialize a BumpAllocator_new = Inr hp \<Longrightarrow> heap_used hp = Inr 0"
  by (auto simp: heap_initialize_def BumpAllocator_initialize_def BumpAllocator_new_def heap_used_def sub_chk_def elim!: rbind_eq_InrE)

lemma initialize_console:
  assumes v: "accepts_canonical vnew" and b: "boot_info_wf b" "list_all region_ok (boot_regions b)"
    and run: "initialize vnew heap_space m1 m2 b (kernel_static log) = Inr k"
  shows "k_console k = log @ init_console b"
proof -
  obtain f hp s k2 where init: "frame_allocator_initialize frame_state_init b = Inr f" "heap_initialize heap_space BumpAllocator_new = Inr hp"
    "scheduler_initialize vnew sched_static = Inr s"
    "framebuffer_initialize (framebuffer b) (keyboard_initialize_kernel (timer_initialize
       ((kernel_static log)\<lparr>k_irq := interrupts_init m1 m2 irq_static, k_frames := f, k_heap := hp, k_sched := s\<rparr>))) = Inr k2"
    "init_report b (shell_initialize (fs_initialize k2)) = Inr k"
    using run by (auto simp: initialize_def memory_initialize_def kernel_static_def elim!: rbind_eq_InrE)
  have frames: "unat (usable_frame_count f) = sum_list (map span_frames (spans_of (boot_regions b)))"
    "usable_range_count f = min 32 (length (spans_of (boot_regions b)))"
    using frame_allocator_initialize_spec [OF b] init(1) by (auto simp: MAX_USABLE_RANGES_def)
  have sched: "sched_ok s" "sched_len (SCHEDULER s) = 2" "running_index s = 0" "proc_name (task_at (SCHEDULER s) 0) = lit ''idle''"
    using initialize_spec [OF v] init(3) by (metis sum.inject(2))+
  have task: "current_task_name s = Inr (Some (lit ''idle''))" "unat (task_count s) = 2"
    using sched_ok_current(2) [OF sched(1)] sched by (simp_all add: current_task_name_def sched_ok_def task_count_def)
  let ?k1 = "keyboard_initialize_kernel (timer_initialize
       ((kernel_static log)\<lparr>k_irq := interrupts_init m1 m2 irq_static, k_frames := f, k_heap := hp, k_sched := s\<rparr>))"
  have k2: "k_console k2 = k_console ?k1 @ concat (map (\<lambda>l. l @ [newline])
      (case framebuffer b of
         None \<Rightarrow> [lit ''AetherOS: no framebuffer available, serial output only'']
       | Some f \<Rightarrow> if fb_bpp f = 32 then [] else
           [lit ''AetherOS: framebuffer detected, but unsupported bpp for visual stage: '' @ display_nat (unat (fb_bpp f))]))"
    "k_frames k2 = f" "k_heap k2 = hp" "k_sched k2 = s" "k_shell k2 = Shell_new"
    using framebuffer_initialize_console [OF init(4)]
    by (simp_all add: keyboard_initialize_kernel_def timer_initialize_def kernel_static_def)
  have k1: "k_console ?k1 = log @ concat (map (\<lambda>l. l @ [newline])
      [lit ''AetherOS: PIT timer initialized at 100 Hz'', lit ''AetherOS: keyboard driver initialized''])"
    by (simp add: keyboard_initialize_kernel_def timer_initialize_def kernel_static_def)
  let ?k3 = "shell_initialize (fs_initialize k2)"
  have k3: "k_console ?k3 = k_console k2 @ concat (map (\<lambda>l. l @ [newline])
      [lit ''AetherOS shell ready'', lit ''Type '' @ [0x27] @ lit ''help'' @ [0x27] @ lit '' to list commands.'']) @ lit ''aether> ''"
    "k_frames ?k3 = f" "k_heap ?k3 = hp" "k_sched ?k3 = s"
    using k2 by (simp_all add: shell_initialize_def fs_initialize_def println_all_eq prompt_def Shell_new_def)
  have "debug_option_str (Some (lit ''idle'')) = lit ''Some('' @ [0x22] @ lit ''idle'' @ [0x22] @ lit '')''"
    by (simp add: debug_option_str_def debug_char_def lit_def)
  then show ?thesis
    using init(5) unfolding init_report_def k3(2-4) fresh_heap_unused [OF init(2)] task(1)
    by (auto simp: k3(1) k2(1) k1 init_console_def println_all_eq frames task(2) heap_size_def HEAP_SIZE_def scheduling_model_def)
qed

lemma initialize_ascii:
  assumes "accepts_canonical vnew" and "boot_info_wf b" "list_all region_ok (boot_regions b)"
    and "unat heap_space + 131072 < 2 ^ 64" and "screen_ok (framebuffer b)"
    and "initialize vnew heap_space m1 m2 b (kernel_static log) = Inr k"
  shows "kernel_ascii k"
proof -
  have "k_vfs k = vfs_initialize vfs_static" using kernel_initialize_spec [OF assms(1-5), of m1 m2 log] assms(6) by auto
  then show ?thesis
    by (simp add: kernel_ascii_def files_ascii_def vfs_initialize_def vfs_static_def empty_table_def OverlayFile_EMPTY_def)
qed

text \<open>(C18) The unsafe lifetime extension of \<open>leak_str\<close> never yields a \<open>&str\<close> that is not UTF-8.  From boot, after any
  sequence of interrupts, the kernel has not stopped, in particular no \<open>cat\<close> has met invalid bytes; every reference that a
  read of any path returns shows valid text, and so does every reference to a slot of the overlay, of whatever length, that was taken
  earlier and outlived later writes and removals.  All the kernel has printed is valid text too.\<close>

theorem leaked_text_is_utf8:
  assumes "accepts_canonical vnew" and "boot_info_wf b" and "list_all region_ok (boot_regions b)"
    and "unat heap_space + 131072 < 2 ^ 64" and "screen_ok (framebuffer b)" and "valid_str log" and "timer_count is < 2 ^ 64"
  shows "\<exists>k k'. initialize vnew heap_space m1 m2 b (kernel_static log) = Inr k \<and> run_irqs is k = Inr k' \<and>
    (\<forall>path r. valid_str path \<longrightarrow> vfs_read path (writable_files (k_vfs k')) = Inr (Some r) \<longrightarrow>
       (\<exists>t. from_utf8 (deref (writable_files (k_vfs k')) r) = Some t)) \<and>
    (\<forall>i n. i < MAX_OVERLAY_FILES \<longrightarrow> (\<exists>t. from_utf8 (deref (writable_files (k_vfs k')) (OverlayRef i n)) = Some t)) \<and>
    from_utf8 (as_bytes (k_console k')) = Some (k_console k')"
proof -
  obtain k where k: "initialize vnew heap_space m1 m2 b (kernel_static log) = Inr k" "kernel_ok k" "k_ticks k = 0"
    using kernel_initialize_spec [OF assms(1-5)] by blast
  have n: "unat (k_ticks k) + timer_count is < 2 ^ 64" using k(3) assms(7) by simp
  obtain k' where k': "run_irqs is k = Inr k'" "kernel_ok k'" using run_irqs_spec [OF k(2) n] by blast
  have "text_ok k" "names_ok (k_sched k)" using initialize_text [OF assms(1-5) k(1) assms(6)] by auto
  then have console: "text_ok k'" using run_irqs_text [OF k(2) _ _ n k'(1)] by simp
  let ?fs = "writable_files (k_vfs k')"
  have ok: "overlay_ok ?fs" using k'(2) by (simp add: kernel_ok_def)
  have asc: "files_ascii ?fs"
    using run_irqs_ascii [OF k(2) initialize_ascii [OF assms(1-5) k(1)] n k'(1)] by (simp add: kernel_ascii_def)
  have "\<exists>t. from_utf8 (deref ?fs r) = Some t" if "valid_str path" "vfs_read path ?fs = Inr (Some r)" for path r
    using read_shows_text [OF ok that] by (auto simp: shown_text_def split: option.splits)
  moreover have "\<exists>t. from_utf8 (deref ?fs (OverlayRef i n)) = Some t" if "i < MAX_OVERLAY_FILES" for i n
    using ascii_shown [OF asc] overlay_okD(1) [OF ok] that by simp
  ultimately show ?thesis using k(1) k'(1) console by (auto simp: text_ok_def)
qed

theorem leaked_text_is_utf8_witness:
  "\<exists>(k :: u64 kernel) k'. initialize identity_virt_addr 0x200000 0xFF 0xFF example_boot_info (kernel_static []) = Inr k \<and>
     run_irqs (TimerIrq # type_line (lit ''write a xyz'') @ type_line (lit ''rm a'')) k = Inr k' \<and>
     (\<exists>t. from_utf8 (deref (writable_files (k_vfs k')) (OverlayRef 0 3)) = Some t) \<and>
     from_utf8 (as_bytes (k_console k')) = Some (k_console k')"
proof -
  let ?is = "TimerIrq # type_line (lit ''write a xyz'') @ type_line (lit ''rm a'')"
  have h: "unat (0x200000 :: usize) + 131072 < 2 ^ 64" by simp
  have "timer_count (type_line s) = 0" for s by (simp add: timer_count_def type_line_def)
  then have n: "timer_count ?is < 2 ^ 64" by (simp add: timer_count_def)
  have v: "valid_str []" by simp
  from leaked_text_is_utf8 [OF accepts_canonical_identity example_boot_info_wf example_regions_ok h example_screen v n, of "0xFF" "0xFF"]
  obtain k k' :: "u64 kernel" where "initialize identity_virt_addr 0x200000 0xFF 0xFF example_boot_info (kernel_static []) = Inr k"
    "run_irqs ?is k = Inr k'" "\<forall>i n. i < MAX_OVERLAY_FILES \<longrightarrow> (\<exists>t. from_utf8 (deref (writable_files (k_vfs k')) (OverlayRef i n)) = Some t)"
    "from_utf8 (as_bytes (k_console k')) = Some (k_console k')" by blast
  then show ?thesis by (intro exI [of _ k] exI [of _ k']) (simp add: MAX_OVERLAY_FILES_def)
qed

end
