(* ===== verification/Interrupted_Init.thy ===== *)
theory Interrupted_Init
  imports Console_Text "HOL-Library.Sublist"
begin

text \<open>
  Interrupts that arrive while \<open>core::init::initialize\<close> is still running.  From the moment
  \<open>interrupts::init\<close> enables them, the two handlers can run between any two statements.  The rest of
  the initialisation is split at its interrupt points: the calls, and inside the calls the
  statements that touch what a handler touches.  A statement that holds a lock a handler needs is one
  step (an interrupt inside it is the deadlock of \<open>Locking\<close>).
\<close>

section \<open>Interrupt points\<close>

text \<open>While \<open>Shell::initialize\<close> runs, the shell is locked: a keyboard interrupt there would wait for the lock
  forever, a timer interrupt is served.\<close>

datatype point = Open | ShellLocked

text \<open>The state when interrupts have just been enabled (line 42 of \<^verbatim>\<open>interrupts.rs\<close>).\<close>

definition interrupts_enabled :: "u8 \<Rightarrow> u8 \<Rightarrow> 'va kernel \<Rightarrow> 'va kernel" where
  "interrupts_enabled m1 m2 k = k\<lparr>k_irq := fold (\<lambda>f. f) (take 3 (init_steps m1 m2)) (k_irq k)\<rparr>"

definition say :: "('va kernel \<Rightarrow> rstr) \<Rightarrow> 'va kernel \<Rightarrow> 'va kernel res" where
  "say t k = Inr (println (t k) k)"

definition framebuffer_points :: "FramebufferInfo option \<Rightarrow> (point \<times> ('va kernel \<Rightarrow> 'va kernel res)) list" where
  "framebuffer_points fb =
     (case fb of
        Some f \<Rightarrow> [(Open, \<lambda>k. Inr (k\<lparr>k_fb := Some f\<rparr>)), (Open, show_visual f)]
      | None \<Rightarrow> [(Open, say (\<lambda>_. lit ''AetherOS: no framebuffer available, serial output only''))])"

definition shell_points :: "(point \<times> ('va kernel \<Rightarrow> 'va kernel res)) list" where
  "shell_points =
     [(Open, \<lambda>k. Inr (k\<lparr>k_shell := (k_shell k)\<lparr>shell_initialized := True\<rparr>\<rparr>)),
      (ShellLocked, say (\<lambda>_. lit ''AetherOS shell ready'')),
      (ShellLocked, say (\<lambda>_. lit ''Type '' @ [0x27] @ lit ''help'' @ [0x27] @ lit '' to list commands.'')),
      (ShellLocked, \<lambda>k. Inr (prompt k))]"

definition report_points :: "BootInfo \<Rightarrow> (point \<times> ('va kernel \<Rightarrow> 'va kernel res)) list" where
  "report_points b = map (Pair Open)
     [say (\<lambda>_. lit ''AetherOS: kernel initialized''),
      say (\<lambda>_. lit ''AetherOS: HHDM offset = '' @ display_hex (unat (hhdm_offset b))),
      say (\<lambda>_. lit ''AetherOS: memory map entries = '' @ display_nat (memory_map_entries b)),
      say (\<lambda>_. lit ''AetherOS: framebuffer = '' @
            (if framebuffer b \<noteq> None then lit ''available'' else lit ''unavailable'')),
      say (\<lambda>k. lit ''AetherOS: usable frames discovered = '' @ display_nat (unat (usable_frame_count (k_frames k)))),
      say (\<lambda>k. lit ''AetherOS: usable physical ranges = '' @ display_nat (usable_range_count (k_frames k))),
      say (\<lambda>_. lit ''AetherOS: kernel heap bytes = '' @ display_nat (unat heap_size)),
      (\<lambda>k. rbind (heap_used (k_heap k)) (\<lambda>hu. say (\<lambda>_. lit ''AetherOS: kernel heap used = '' @ display_nat (unat hu)) k)),
      say (\<lambda>k. lit ''AetherOS: scheduler tasks = '' @ display_nat (unat (task_count (k_sched k)))),
      (\<lambda>k. rbind (current_task_name (k_sched k)) (\<lambda>name. say (\<lambda>_. lit ''AetherOS: current task = '' @ debug_option_str name) k)),
      say (\<lambda>_. lit ''AetherOS: scheduler model = '' @ scheduling_model),
      say (\<lambda>_. lit ''AetherOS: interrupts enabled'')]"

text \<open>The steps before the scheduler exists, and those after.\<close>

definition early_points :: "usize \<Rightarrow> BootInfo \<Rightarrow> (point \<times> ('va kernel \<Rightarrow> 'va kernel res)) list" where
  "early_points heap_space b = map (Pair Open)
     [(\<lambda>k. Inr (k\<lparr>k_irq := (k_irq k)\<lparr>irq_initialized := True\<rparr>\<rparr>)),
      (\<lambda>k. rbind (frame_allocator_initialize (k_frames k) b) (\<lambda>f. Inr (k\<lparr>k_frames := f\<rparr>))),
      (\<lambda>k. rbind (heap_initialize heap_space (k_heap k)) (\<lambda>h. Inr (k\<lparr>k_heap := h\<rparr>)))]"

definition driver_points :: "(point \<times> ('va kernel \<Rightarrow> 'va kernel res)) list" where
  "driver_points = map (Pair Open)
     [(\<lambda>k. Inr (k\<lparr>k_ticks := 0\<rparr>)),
      say (\<lambda>_. lit ''AetherOS: PIT timer initialized at 100 Hz''),
      (\<lambda>k. Inr (k\<lparr>k_kbd := keyboard_initialize (k_kbd k)\<rparr>)),
      say (\<lambda>_. lit ''AetherOS: keyboard driver initialized'')]"

definition init_points :: "(u64 \<Rightarrow> 'va res) \<Rightarrow> usize \<Rightarrow> BootInfo \<Rightarrow> (point \<times> ('va kernel \<Rightarrow> 'va kernel res)) list" where
  "init_points vnew heap_space b =
     early_points heap_space b @
     [(Open, \<lambda>k. rbind (scheduler_initialize vnew (k_sched k)) (\<lambda>s. Inr (k\<lparr>k_sched := s\<rparr>)))] @
     driver_points @ framebuffer_points (framebuffer b) @ [(Open, \<lambda>k. Inr (fs_initialize k))] @
     shell_points @ report_points b"

text \<open>A run: before each step the interrupts that arrive there.\<close>

fun run_points :: "(point \<times> ('va kernel \<Rightarrow> 'va kernel res)) list \<Rightarrow> irq list list \<Rightarrow> 'va kernel \<Rightarrow> 'va kernel res" where
  "run_points ((_, f) # ps) (is # iss) k = rbind (run_irqs is k) (\<lambda>k1. rbind (f k1) (run_points ps iss))"
| "run_points _ _ k = Inr k"

fun serves :: "point \<Rightarrow> irq list \<Rightarrow> bool" where
  "serves Open is = True"
| "serves ShellLocked is = list_all (\<lambda>i. i = TimerIrq) is"

definition schedule_ok :: "(point \<times> ('va kernel \<Rightarrow> 'va kernel res)) list \<Rightarrow> irq list list \<Rightarrow> bool" where
  "schedule_ok ps iss \<longleftrightarrow> list_all2 serves (map fst ps) iss"

section \<open>Without interrupts this is \<open>initialize\<close>\<close>

lemma rbind_assoc: "rbind (rbind m f) g = rbind m (\<lambda>x. rbind (f x) g)"
  by (cases m) simp_all

lemma run_points_append:
  "length ps = length iss \<Longrightarrow> run_points (ps @ qs) (iss @ jss) k = rbind (run_points ps iss k) (run_points qs jss)"
  by (induction ps iss arbitrary: k rule: list_induct2) (auto simp: rbind_def split: sum.splits)

definition quiet :: "(point \<times> ('va kernel \<Rightarrow> 'va kernel res)) list \<Rightarrow> 'va kernel \<Rightarrow> 'va kernel res" where
  "quiet ps = run_points ps (replicate (length ps) [])"

lemma quiet_simps [simp]: "quiet [] = Inr" "quiet ((p, f) # ps) = (\<lambda>k. rbind (f k) (quiet ps))"
  by (simp_all add: quiet_def fun_eq_iff)

lemma quiet_append: "quiet (ps @ qs) = (\<lambda>k. rbind (quiet ps k) (quiet qs))"
  by (induction ps) (auto simp: rbind_assoc)

lemma quiet_early: "quiet (early_points heap_space b) (interrupts_enabled m1 m2 k) =
    memory_initialize heap_space b (k\<lparr>k_irq := interrupts_init m1 m2 (k_irq k)\<rparr>)"
  by (simp add: early_points_def memory_initialize_def interrupts_enabled_def interrupts_init_def init_steps_def rbind_def
      split: sum.split)

lemma quiet_drivers: "quiet driver_points k = Inr (keyboard_initialize_kernel (timer_initialize k))"
  by (simp add: driver_points_def say_def keyboard_initialize_kernel_def timer_initialize_def)

lemma quiet_framebuffer: "quiet (framebuffer_points fb) k = framebuffer_initialize fb k"
  by (cases fb) (simp_all add: framebuffer_points_def framebuffer_initialize_def say_def rbind_def split: sum.split)

lemma quiet_shell: "\<not> shell_initialized (k_shell k) \<Longrightarrow> quiet shell_points k = Inr (shell_initialize k)"
  by (simp add: shell_points_def shell_initialize_def say_def println_all_def)

lemma quiet_report: "quiet (report_points b) k = init_report b k"
  by (simp add: report_points_def init_report_def say_def println_all_def rbind_def split: sum.split)

text \<open>The split is faithful: when no interrupt arrives, the steps are \<open>initialize\<close>.\<close>

lemma quiet_initialize:
  assumes "\<not> shell_initialized (k_shell k)"
  shows "quiet (init_points vnew heap_space b) (interrupts_enabled m1 m2 k) = initialize vnew heap_space m1 m2 b k"
proof -
  let ?sched = "\<lambda>k. rbind (scheduler_initialize vnew (k_sched k)) (\<lambda>s. Inr (k\<lparr>k_sched := s\<rparr>))"
  let ?drivers = "\<lambda>k. framebuffer_initialize (framebuffer b) (keyboard_initialize_kernel (timer_initialize k))"
  have fb: "k_shell k2 = k_shell k1" if "?drivers k1 = Inr k2" for k1 k2
    using that by (auto simp: framebuffer_initialize_def show_visual_def keyboard_initialize_kernel_def timer_initialize_def
        elim!: rbind_eq_InrE split: option.splits)
  have rest: "quiet ([(Open, \<lambda>k. Inr (fs_initialize k))] @ shell_points @ report_points b) k2 =
      init_report b (shell_initialize (fs_initialize k2))" if "k_shell k2 = k_shell k" for k2
    unfolding quiet_append using that assms quiet_shell [of "fs_initialize k2"] by (simp add: fs_initialize_def quiet_report)
  have "quiet (init_points vnew heap_space b) (interrupts_enabled m1 m2 k) =
      rbind (memory_initialize heap_space b (k\<lparr>k_irq := interrupts_init m1 m2 (k_irq k)\<rparr>)) (\<lambda>k1. rbind (?sched k1) (\<lambda>k2. rbind (?drivers k2)
        (quiet ([(Open, \<lambda>k. Inr (fs_initialize k))] @ shell_points @ report_points b))))"
    unfolding init_points_def
    by (simp add: quiet_append quiet_early quiet_drivers quiet_framebuffer rbind_assoc)
  also have "\<dots> = initialize vnew heap_space m1 m2 b k"
    unfolding initialize_def rbind_assoc rbind_Inr
  proof (intro rbind_cong refl)
    fix k1 s k2
    assume "memory_initialize heap_space b (k\<lparr>k_irq := interrupts_init m1 m2 (k_irq k)\<rparr>) = Inr k1" "?drivers (k1\<lparr>k_sched := s\<rparr>) = Inr k2"
    then have "k_shell k1 = k_shell k" "k_shell k2 = k_shell k1"
      using fb [of "k1\<lparr>k_sched := s\<rparr>" k2] by (auto simp: memory_initialize_def elim!: rbind_eq_InrE)
    then have "k_shell k2 = k_shell k" by simp
    then show "quiet ([(Open, \<lambda>k. Inr (fs_initialize k))] @ shell_points @ report_points b) k2 =
      init_report b (shell_initialize (fs_initialize k2))" by (rule rest)
  qed
  finally show ?thesis .
qed

section \<open>Steps between interrupts\<close>

text \<open>What neither a handler nor a later step takes back: the frames once they are set up, the initialised flags, and
  the text on the console.\<close>

definition grows :: "'va kernel \<Rightarrow> 'va kernel \<Rightarrow> bool" where
  "grows k k' \<longleftrightarrow> k_frames k' = k_frames k \<and> (kbd_initialized (k_kbd k) \<longrightarrow> kbd_initialized (k_kbd k')) \<and>
     (shell_initialized (k_shell k) \<longrightarrow> shell_initialized (k_shell k')) \<and> prefix (k_console k) (k_console k')"

lemma grows_refl [simp]: "grows k k"
  by (simp add: grows_def)

lemma grows_trans: "grows k k' \<Longrightarrow> grows k' k'' \<Longrightarrow> grows k k''"
  by (auto simp: grows_def intro: prefix_order.order_trans)

lemma grows_say [simp]: "grows k (println t k)" "grows k (print t k)"
  by (simp_all add: grows_def)

text \<open>A step that cannot fail under an invariant.\<close>

definition undisturbed :: "('va kernel \<Rightarrow> bool) \<Rightarrow> ('va kernel \<Rightarrow> 'va kernel res) \<Rightarrow> bool" where
  "undisturbed good f \<longleftrightarrow> (\<forall>k. good k \<longrightarrow> (\<exists>k'. f k = Inr k' \<and> good k' \<and> grows k k' \<and> k_ticks k' \<le> k_ticks k))"

text \<open>The contract between the interrupted code and the handlers: the handlers keep the invariant under which the
  code's steps are undisturbed.\<close>

locale interrupt_points =
  fixes good :: "'va kernel \<Rightarrow> bool"
  assumes irqs_keep: "good k \<Longrightarrow> unat (k_ticks k) + timer_count is < 2 ^ 64 \<Longrightarrow>
    \<exists>k'. run_irqs is k = Inr k' \<and> good k' \<and> grows k k' \<and> unat (k_ticks k') = unat (k_ticks k) + timer_count is"
begin

lemma run_points_undisturbed:
  "length ps = length iss \<Longrightarrow> list_all (\<lambda>p. undisturbed good (snd p)) ps \<Longrightarrow> good k \<Longrightarrow>
   unat (k_ticks k) + sum_list (map timer_count iss) < 2 ^ 64 \<Longrightarrow>
   \<exists>k'. run_points ps iss k = Inr k' \<and> good k' \<and> grows k k' \<and> unat (k_ticks k') \<le> unat (k_ticks k) + sum_list (map timer_count iss)"
proof (induction ps iss arbitrary: k rule: list_induct2)
  case (Cons p ps "is" iss)
  obtain q f where p: "p = (q, f)" by (cases p)
  obtain k1 where k1: "run_irqs is k = Inr k1" "good k1" "grows k k1" "unat (k_ticks k1) = unat (k_ticks k) + timer_count is"
    using irqs_keep [of k "is"] Cons.prems by auto
  then obtain k2 where k2: "f k1 = Inr k2" "good k2" "grows k1 k2" "unat (k_ticks k2) \<le> unat (k_ticks k1)"
    using Cons.prems(1) p by (auto simp: undisturbed_def word_le_nat_alt)
  then obtain k3 where "run_points ps iss k2 = Inr k3" "good k3" "grows k2 k3"
    "unat (k_ticks k3) \<le> unat (k_ticks k2) + sum_list (map timer_count iss)"
    using Cons.IH [of k2] Cons.prems k1(4) by auto
  with k1 k2 p show ?case by (auto intro: grows_trans)
qed simp

text \<open>An effect of one step that is never taken back is there at the end.\<close>

lemma run_points_effect:
  assumes "length (ps @ (q, f) # qs) = length iss" and "list_all (\<lambda>p. undisturbed good (snd p)) (ps @ (q, f) # qs)" and "good k"
    and "unat (k_ticks k) + sum_list (map timer_count iss) < 2 ^ 64" and "run_points (ps @ (q, f) # qs) iss k = Inr k'"
    and eff: "\<And>k k'. good k \<Longrightarrow> f k = Inr k' \<Longrightarrow> Q k'" and keep: "\<And>k k'. grows k k' \<Longrightarrow> Q k \<Longrightarrow> Q k'"
  shows "Q k'"
proof -
  obtain iss1 "is" iss2 where iss: "iss = iss1 @ is # iss2" "length iss1 = length ps" "length iss2 = length qs"
    using assms(1) id_take_nth_drop [of "length ps" iss] by (intro that [of "take (length ps) iss"]) auto
  obtain k1 where k1: "run_points ps iss1 k = Inr k1" "good k1" "unat (k_ticks k1) \<le> unat (k_ticks k) + sum_list (map timer_count iss1)"
    using run_points_undisturbed [of ps iss1 k] assms(2-4) iss by auto
  obtain k2 where k2: "run_irqs is k1 = Inr k2" "good k2" "unat (k_ticks k2) = unat (k_ticks k1) + timer_count is"
    using irqs_keep [of k1 "is"] k1 assms(4) iss by auto
  obtain k3 where k3: "f k2 = Inr k3" "good k3" "unat (k_ticks k3) \<le> unat (k_ticks k2)"
    using assms(2) k2(2) by (auto simp: undisturbed_def word_le_nat_alt)
  obtain k4 where k4: "run_points qs iss2 k3 = Inr k4" "grows k3 k4"
    using run_points_undisturbed [of qs iss2 k3] assms(2,4) iss k1(3) k2(3) k3(2,3) by auto
  have "run_points (ps @ (q, f) # qs) iss k = Inr k4"
    using run_points_append [of ps iss1 "(q, f) # qs" "is # iss2" k] iss k1(1) k2(1) k3(1) k4(1) by simp
  then show ?thesis using assms(5) eff [OF k2(2) k3(1)] keep [OF k4(2)] by simp
qed

end

section \<open>The handlers\<close>

abbreviation extends :: "'va kernel \<Rightarrow> 'va kernel \<Rightarrow> bool" where
  "extends k k' \<equiv> prefix (k_console k) (k_console k')"

lemma print_scheduler_extends: "print_scheduler k = Inr k' \<Longrightarrow> extends k k'"
  by (auto simp: print_scheduler_def println_all_eq elim!: rbind_eq_InrE)

lemma clear_extends: "cmd_clear k = Inr k' \<Longrightarrow> extends k k'"
  by (auto simp: cmd_clear_def redraw_boot_shell_surface_def show_visual_def elim!: rbind_eq_InrE split: option.splits)

lemma info_extends: "cmd_info k = Inr k' \<Longrightarrow> extends k k'"
  unfolding cmd_info_def println_all_eq by (drule print_scheduler_extends) (simp add: append_prefixD)

lemma file_commands_extend: "cmd_ls k = Inr k' \<Longrightarrow> extends k k'" "cmd_cat args k = Inr k' \<Longrightarrow> extends k k'"
  "cmd_write c k = Inr k' \<Longrightarrow> extends k k'" "cmd_rm args k = Inr k' \<Longrightarrow> extends k k'" "cmd_mem k = Inr k' \<Longrightarrow> extends k k'"
  by (auto simp: cmd_ls_def cmd_cat_def cmd_write_def cmd_rm_def cmd_mem_def println_all_eq set_files_def
      elim!: rbind_eq_InrE split: list.splits option.splits sum.splits)

lemma command_extends: "execute_command c k = Inr k' \<Longrightarrow> extends k k'"
  using print_scheduler_extends clear_extends info_extends file_commands_extend
  by (auto simp: execute_command_def cmd_help_def cmd_ticks_def cmd_tasks_def cmd_storage_def println_all_eq
      split: list.splits if_splits)

lemma on_key_extends: "on_key e k = Inr k' \<Longrightarrow> extends k k'"
proof -
  assume run: "on_key e k = Inr k'"
  have "extends k k2" if "execute_current_line (print [newline] k) = Inr k2" for k2
  proof -
    have "extends (print [newline] k) k2"
      using that command_extends [of _ "print [newline] k"] unfolding execute_current_line_def Let_def
      by (auto simp: set_len_def elim!: rbind_eq_InrE split: option.splits if_splits)
    then show ?thesis by (simp add: append_prefixD)
  qed
  with run show ?thesis
    by (auto simp: on_key_def prompt_def set_len_def elim!: rbind_eq_InrE split: KeyEvent.splits if_splits
        intro: prefix_order.order_trans)
qed

lemma keyboard_irq_grows:
  assumes "kernel_ok k" and "handle_irq (KeyboardIrq b) k = Inr k'"
  shows "grows k k'"
proof -
  obtain ev q where ev: "on_interrupt b (k_kbd k) = (ev, q)" by (cases "on_interrupt b (k_kbd k)")
  let ?k = "k\<lparr>k_kbd := q\<rparr>"
  have q: "kbd_initialized q = kbd_initialized (k_kbd k)"
    using ev by (auto simp: on_interrupt_def decode_scancode_def split: if_splits)
  have "grows k k2" if run: "keyboard_on_interrupt b k = Inr k2" for k2
  proof (cases ev)
    case None
    then show ?thesis using run ev q by (auto simp: keyboard_on_interrupt_def grows_def)
  next
    case (Some e)
    have r: "on_key e ?k = Inr k2" using run ev Some by (simp add: keyboard_on_interrupt_def)
    have "\<forall>c. e = Char_event c \<longrightarrow> printable c" using event_printable [of b "k_kbd k" e] ev Some by simp
    then have "same_devices ?k k2" using on_key_safe [of ?k e] r assms(1) by auto
    then show ?thesis using on_key_extends [OF r] q by (auto simp: same_devices_def same_core_def grows_def)
  qed
  then show ?thesis
    using assms(2) by (auto simp: keyboard_interrupt_handler_def end_of_interrupt_def grows_def elim!: rbind_eq_InrE)
qed

lemma timer_irq_grows: "handle_irq TimerIrq k = Inr k' \<Longrightarrow> grows k k'"
  by (auto simp: timer_interrupt_handler_def on_tick_def Let_def end_of_interrupt_def grows_def elim!: rbind_eq_InrE split: if_splits)

lemma run_irqs_grows:
  "kernel_ok k \<Longrightarrow> unat (k_ticks k) + timer_count is < 2 ^ 64 \<Longrightarrow> run_irqs is k = Inr k' \<Longrightarrow> grows k k'"
proof (induction "is" arbitrary: k)
  case (Cons i "is")
  then obtain k1 where k1: "handle_irq i k = Inr k1" "run_irqs is k1 = Inr k'" by (auto elim!: rbind_eq_InrE)
  have n: "timer_count (i # is) = timer_count [i] + timer_count is" by (simp add: timer_count_def)
  obtain "kernel_ok k1" "unat (k_ticks k1) = unat (k_ticks k) + timer_count [i]"
    using run_irqs_spec [OF Cons.prems(1), of "[i]"] k1(1) Cons.prems(2) n by auto
  moreover have "grows k k1" using k1(1) keyboard_irq_grows [OF Cons.prems(1)] timer_irq_grows by (cases i) blast+
  ultimately show ?case using Cons.IH [of k1] k1(2) Cons.prems(2) n grows_trans by auto
qed simp

interpretation running: interrupt_points "kernel_ok :: 'va kernel \<Rightarrow> bool"
proof
  fix k :: "'va kernel" and "is"
  assume k: "kernel_ok k" "unat (k_ticks k) + timer_count is < 2 ^ 64"
  with run_irqs_spec [OF k] run_irqs_grows [OF k]
  show "\<exists>k'. run_irqs is k = Inr k' \<and> kernel_ok k' \<and> grows k k' \<and> unat (k_ticks k') = unat (k_ticks k) + timer_count is"
    by blast
qed

text \<open>Before the scheduler is initialised the table is empty and a tick leaves it alone; the keyboard handler
  returns at once.\<close>

definition starting :: "frame_state \<Rightarrow> 'va kernel \<Rightarrow> bool" where
  "starting f k \<longleftrightarrow> k_frames k = f \<and> k_sched k = sched_static \<and> \<not> kbd_initialized (k_kbd k) \<and> \<not> shell_initialized (k_shell k) \<and>
     overlay_ok (writable_files (k_vfs k)) \<and> shell_ok (k_shell k) \<and> screen_ok (k_fb k)"

lemma tick_static: "scheduler_tick sched_static = Inr sched_static"
  by (simp add: scheduler_tick_def sched_static_def Scheduler_run_next_def Scheduler_new_def Scheduler_current_task_id_def
      Scheduler_current_task_def)

lemma starting_irq:
  assumes "starting f k" and "unat (k_ticks k) + timer_count [i] < 2 ^ 64"
  shows "\<exists>k'. handle_irq i k = Inr k' \<and> starting f k' \<and> grows k k' \<and> unat (k_ticks k') = unat (k_ticks k) + timer_count [i]"
proof (cases i)
  case TimerIrq
  then have t: "unat (k_ticks k + 1) = unat (k_ticks k) + 1" using assms(2) by (simp add: unat_plus_exact)
  show ?thesis
    using assms t TimerIrq unfolding starting_def
    by (auto simp: timer_interrupt_handler_def on_tick_def panic_free tick_static Let_def end_of_interrupt_def grows_def)
next
  case (KeyboardIrq b)
  then show ?thesis
    using assms unfolding starting_def
    by (auto simp: keyboard_interrupt_handler_def keyboard_on_interrupt_def on_interrupt_def end_of_interrupt_def grows_def)
qed

interpretation starting: interrupt_points "starting f :: 'va kernel \<Rightarrow> bool" for f
proof
  fix k :: "'va kernel" and "is"
  assume "starting f k" "unat (k_ticks k) + timer_count is < 2 ^ 64"
  then show "\<exists>k'. run_irqs is k = Inr k' \<and> starting f k' \<and> grows k k' \<and> unat (k_ticks k') = unat (k_ticks k) + timer_count is"
  proof (induction "is" arbitrary: k)
    case (Cons i "is")
    have n: "timer_count (i # is) = timer_count [i] + timer_count is" by (simp add: timer_count_def)
    obtain k1 where k1: "handle_irq i k = Inr k1" "starting f k1" "grows k k1" "unat (k_ticks k1) = unat (k_ticks k) + timer_count [i]"
      using starting_irq [OF Cons.prems(1), of i] Cons.prems(2) n by auto
    then obtain k2 where "run_irqs is k1 = Inr k2" "starting f k2" "grows k1 k2" "unat (k_ticks k2) = unat (k_ticks k1) + timer_count is"
      using Cons.IH [of k1] Cons.prems(2) n by auto
    with k1 n show ?case by (auto intro: grows_trans)
  qed simp
qed

section \<open>The steps are undisturbed\<close>

lemma undisturbedI: "(\<And>k. good k \<Longrightarrow> \<exists>k'. f k = Inr k' \<and> good k' \<and> grows k k' \<and> k_ticks k' \<le> k_ticks k) \<Longrightarrow> undisturbed good f"
  by (simp add: undisturbed_def)

lemma undisturbed_say: "undisturbed kernel_ok (say t)"
  by (rule undisturbedI) (simp add: say_def)

lemma undisturbed_visual:
  assumes "screen_ok (Some f)"
  shows "undisturbed kernel_ok (\<lambda>k. Inr (k\<lparr>k_fb := Some f\<rparr>))" and "undisturbed kernel_ok (show_visual f)"
proof -
  show "undisturbed kernel_ok (\<lambda>k. Inr (k\<lparr>k_fb := Some f\<rparr>))"
    by (rule undisturbedI) (use assms in \<open>simp add: kernel_ok_def grows_def\<close>)
  obtain msg px where "render_boot_visual f = Inr (msg, px)"
    using assms render_spec [of f] by (cases "fb_bpp f = 32") (auto simp: screen_ok_def render_boot_visual_def)
  then show "undisturbed kernel_ok (show_visual f)"
    by (intro undisturbedI) (simp add: show_visual_def kernel_ok_def grows_def)
qed

lemma undisturbed_fs: "undisturbed kernel_ok (\<lambda>k. Inr (fs_initialize k))"
  by (rule undisturbedI) (simp add: fs_initialize_def vfs_initialize_def kernel_ok_def grows_def overlay_ok_empty)

lemma undisturbed_report:
  "undisturbed kernel_ok (\<lambda>k. rbind (heap_used (k_heap k)) (\<lambda>hu. say (t hu) k))"
  "undisturbed kernel_ok (\<lambda>k. rbind (current_task_name (k_sched k)) (\<lambda>name. say (u name) k))"
proof -
  show "undisturbed kernel_ok (\<lambda>k. rbind (heap_used (k_heap k)) (\<lambda>hu. say (t hu) k))"
  proof (rule undisturbedI)
    fix k :: "'a kernel" assume "kernel_ok k"
    then show "\<exists>k'. rbind (heap_used (k_heap k)) (\<lambda>hu. say (t hu) k) = Inr k' \<and> kernel_ok k' \<and> grows k k' \<and> k_ticks k' \<le> k_ticks k"
      using heap_used_total [of "k_heap k"] by (auto simp: say_def)
  qed
  show "undisturbed kernel_ok (\<lambda>k. rbind (current_task_name (k_sched k)) (\<lambda>name. say (u name) k))"
  proof (rule undisturbedI)
    fix k :: "'b kernel" assume "kernel_ok k"
    then show "\<exists>k'. rbind (current_task_name (k_sched k)) (\<lambda>name. say (u name) k) = Inr k' \<and> kernel_ok k' \<and> grows k k' \<and> k_ticks k' \<le> k_ticks k"
      using sched_ok_current(2) [of "k_sched k"] by (auto simp: say_def current_task_name_def kernel_ok_def)
  qed
qed

definition late_points :: "BootInfo \<Rightarrow> (point \<times> ('va kernel \<Rightarrow> 'va kernel res)) list" where
  "late_points b = driver_points @ framebuffer_points (framebuffer b) @ [(Open, \<lambda>k. Inr (fs_initialize k))] @ shell_points @ report_points b"

lemma late_points_undisturbed:
  assumes "screen_ok (framebuffer b)"
  shows "list_all (\<lambda>p. undisturbed kernel_ok (snd p)) (late_points b :: (point \<times> ('va kernel \<Rightarrow> 'va kernel res)) list)"
proof -
  have drivers: "list_all (\<lambda>p. undisturbed kernel_ok (snd p)) (driver_points :: (point \<times> ('va kernel \<Rightarrow> 'va kernel res)) list)"
    unfolding driver_points_def by (auto simp: undisturbed_say intro!: undisturbedI) (auto simp: grows_def keyboard_initialize_def)
  have fb: "list_all (\<lambda>p. undisturbed kernel_ok (snd p)) (framebuffer_points (framebuffer b) :: (point \<times> ('va kernel \<Rightarrow> 'va kernel res)) list)"
    using assms by (cases "framebuffer b") (auto simp: framebuffer_points_def undisturbed_say undisturbed_visual)
  have shell: "list_all (\<lambda>p. undisturbed kernel_ok (snd p)) (shell_points :: (point \<times> ('va kernel \<Rightarrow> 'va kernel res)) list)"
    unfolding shell_points_def by (auto simp: undisturbed_say intro!: undisturbedI) (auto simp: grows_def kernel_ok_def shell_ok_def prompt_def)
  have report: "list_all (\<lambda>p. undisturbed kernel_ok (snd p)) (report_points b :: (point \<times> ('va kernel \<Rightarrow> 'va kernel res)) list)"
    unfolding report_points_def by (simp add: undisturbed_say undisturbed_report)
  show ?thesis unfolding late_points_def using drivers fb shell report undisturbed_fs by simp
qed

lemma early_run:
  fixes k :: "'va kernel"
  assumes k: "starting frame_state_init k" and n: "unat (k_ticks k) + sum_list (map timer_count [is0, is1, is2, is3]) < 2 ^ 64"
    and f: "frame_allocator_initialize frame_state_init b = Inr f" and h: "unat heap_space + 131072 < 2 ^ 64"
    and s: "scheduler_initialize vnew sched_static = Inr s" "sched_ok s"
  shows "\<exists>k'. run_points (early_points heap_space b @
      [(Open, \<lambda>k. rbind (scheduler_initialize vnew (k_sched k)) (\<lambda>s. Inr (k\<lparr>k_sched := s\<rparr>)))]) [is0, is1, is2, is3] k = Inr k' \<and>
    kernel_ok k' \<and> k_frames k' = f \<and> unat (k_ticks k') = unat (k_ticks k) + sum_list (map timer_count [is0, is1, is2, is3])"
proof -
  obtain k0 where k0: "run_irqs is0 k = Inr k0" "starting frame_state_init k0" "unat (k_ticks k0) = unat (k_ticks k) + timer_count is0"
    using starting.irqs_keep [OF k, of is0] n by auto
  let ?k0 = "k0\<lparr>k_irq := (k_irq k0)\<lparr>irq_initialized := True\<rparr>\<rparr>"
  have "starting frame_state_init ?k0" using k0(2) by (simp add: starting_def)
  then obtain k1 where k1: "run_irqs is1 ?k0 = Inr k1" "starting frame_state_init k1" "unat (k_ticks k1) = unat (k_ticks k0) + timer_count is1"
    using starting.irqs_keep [of frame_state_init ?k0 is1] n k0(3) by auto
  let ?k1 = "k1\<lparr>k_frames := f\<rparr>"
  have fr: "k_frames k1 = frame_state_init" "starting f ?k1" using k1(2) by (simp_all add: starting_def)
  then obtain k2 where k2: "run_irqs is2 ?k1 = Inr k2" "starting f k2" "unat (k_ticks k2) = unat (k_ticks k1) + timer_count is2"
    using starting.irqs_keep [of f ?k1 is2] n k0(3) k1(3) by auto
  obtain h' where h': "heap_initialize heap_space (k_heap k2) = Inr h'" using heap_initialize_total [OF h] by blast
  let ?k2 = "k2\<lparr>k_heap := h'\<rparr>"
  have "starting f ?k2" using k2(2) by (simp add: starting_def)
  then obtain k3 where k3: "run_irqs is3 ?k2 = Inr k3" "starting f k3" "unat (k_ticks k3) = unat (k_ticks k2) + timer_count is3"
    using starting.irqs_keep [of f ?k2 is3] n k0(3) k1(3) k2(3) by auto
  have "kernel_ok (k3\<lparr>k_sched := s\<rparr>)" "k_sched k3 = sched_static" "k_frames k3 = f" using k3(2) s(2) by (simp_all add: starting_def kernel_ok_def)
  with k0 k1 k2 k3 fr h' f s(1) show ?thesis by (simp add: early_points_def)
qed

lemma late_run:
  fixes k :: "'va kernel"
  assumes fb: "screen_ok (framebuffer b)" and len: "length rest = length (late_points b :: (point \<times> ('va kernel \<Rightarrow> 'va kernel res)) list)"
    and k: "kernel_ok k" "unat (k_ticks k) + sum_list (map timer_count rest) < 2 ^ 64"
  shows "\<exists>k'. run_points (late_points b) rest k = Inr k' \<and> kernel_ok k' \<and> grows k k' \<and> kbd_initialized (k_kbd k') \<and>
    shell_initialized (k_shell k') \<and> sublist (lit ''AetherOS: kernel initialized'' @ [newline]) (k_console k')"
proof -
  note undisturbed = late_points_undisturbed [OF fb, where ?'va = 'va]
  obtain k' where k': "run_points (late_points b) rest k = Inr k'" "kernel_ok k'" "grows k k'"
    using running.run_points_undisturbed [OF len [symmetric] undisturbed k] by blast
  have effect: "Q k'" if m: "(q, g) \<in> set (late_points b)" and eff: "\<And>k k'. kernel_ok k \<Longrightarrow> g k = Inr k' \<Longrightarrow> Q k'"
    and keep: "\<And>k k'. grows k k' \<Longrightarrow> Q k \<Longrightarrow> Q k'" for Q q g
  proof -
    obtain ps qs where ps: "late_points b = ps @ (q, g) # qs" using split_list [OF m] by blast
    show ?thesis by (rule running.run_points_effect [OF _ _ k k'(1) [unfolded ps], of Q]) (use undisturbed len eff keep ps in auto)
  qed
  have "kbd_initialized (k_kbd k')"
    by (rule effect [of Open "\<lambda>k. Inr (k\<lparr>k_kbd := keyboard_initialize (k_kbd k)\<rparr>)"])
      (auto simp: late_points_def driver_points_def keyboard_initialize_def grows_def)
  moreover have "shell_initialized (k_shell k')"
    by (rule effect [of Open "\<lambda>k. Inr (k\<lparr>k_shell := (k_shell k)\<lparr>shell_initialized := True\<rparr>\<rparr>)"])
      (auto simp: late_points_def shell_points_def grows_def)
  moreover have "sublist (lit ''AetherOS: kernel initialized'' @ [newline]) (k_console k')"
    by (rule effect [of Open "say (\<lambda>_. lit ''AetherOS: kernel initialized'')"])
      (auto simp: late_points_def report_points_def say_def grows_def intro: sublist_order.order_trans prefix_imp_sublist)
  ultimately show ?thesis using k' by blast
qed

section \<open>Properties\<close>

lemma split_schedule:
  assumes "length (iss :: irq list list) = 4 + n"
  obtains is0 is1 is2 is3 rest where "iss = [is0, is1, is2, is3] @ rest" "length rest = n"
  using assms by (auto simp: numeral_eq_Suc length_Suc_conv)

lemma init_points_run:
  assumes v: "accepts_canonical (vnew :: u64 \<Rightarrow> 'va res)" and b: "boot_info_wf b" "list_all region_ok (boot_regions b)"
    and h: "unat heap_space + 131072 < 2 ^ 64" and fb: "screen_ok (framebuffer b)" and ps: "ps = init_points vnew heap_space b"
    and len: "length iss = length ps" and start: "starting frame_state_init k0"
    and n: "unat (k_ticks k0) + sum_list (map timer_count iss) < 2 ^ 64"
  shows "\<exists>k. run_points ps iss k0 = Inr k \<and> kernel_ok k \<and> kbd_initialized (k_kbd k) \<and> shell_initialized (k_shell k) \<and>
      frame_contents (k_frames k) = boot_frames b \<and> sublist (lit ''AetherOS: kernel initialized'' @ [newline]) (k_console k)"
proof -
  obtain f where f: "frame_allocator_initialize frame_state_init b = Inr f" "frame_contents f = boot_frames b"
    using frame_allocator_initialize_spec [OF b] by blast
  obtain s where s: "scheduler_initialize vnew sched_static = Inr s" "sched_ok s" using initialize_spec [OF v] by metis
  let ?early = "early_points heap_space b @ [(Open, \<lambda>k. rbind (scheduler_initialize vnew (k_sched k)) (\<lambda>s. Inr (k\<lparr>k_sched := s\<rparr>)))]"
  have init: "ps = ?early @ late_points b" by (simp add: ps init_points_def late_points_def)
  have "length iss = 4 + length (late_points b :: (point \<times> ('va kernel \<Rightarrow> 'va kernel res)) list)"
    using len unfolding init by (simp add: early_points_def)
  then obtain is0 is1 is2 is3 rest where iss: "iss = [is0, is1, is2, is3] @ rest"
    "length rest = length (late_points b :: (point \<times> ('va kernel \<Rightarrow> 'va kernel res)) list)" by (rule split_schedule)
  obtain k1 where k1: "run_points ?early [is0, is1, is2, is3] k0 = Inr k1" "kernel_ok k1" "k_frames k1 = f"
    "unat (k_ticks k1) + sum_list (map timer_count rest) < 2 ^ 64"
    using early_run [OF start _ f(1) h s, of is0 is1 is2 is3] n iss(1) by auto
  obtain k where k: "run_points (late_points b) rest k1 = Inr k" "kernel_ok k" "grows k1 k" "kbd_initialized (k_kbd k)"
    "shell_initialized (k_shell k)" "sublist (lit ''AetherOS: kernel initialized'' @ [newline]) (k_console k)"
    using late_run [OF fb iss(2) k1(2,4)] by blast
  have "run_points ps iss k0 = Inr k"
    unfolding init iss(1) using run_points_append [of ?early "[is0, is1, is2, is3]" "late_points b" rest k0] k1(1) k(1)
    by (simp add: early_points_def)
  then show ?thesis using k k1(3) f(2) by (auto simp: grows_def)
qed

lemma starting_enabled:
  "starting frame_state_init (interrupts_enabled m1 m2 (kernel_static log))" "k_ticks (interrupts_enabled m1 m2 (kernel_static log)) = 0"
  by (simp_all add: starting_def interrupts_enabled_def kernel_static_def keyboard_static_def Shell_new_def vfs_static_def
      overlay_ok_empty shell_ok_def screen_ok_def)

text \<open>(C4) Initialisation survives interrupts: whatever timer and keyboard interrupts arrive at the interrupt points
  of \<open>initialize\<close> (only timer interrupts while the shell is locked), no statement and no handler panics, and
  at the end the kernel invariant holds, the keyboard and the shell are initialised, the allocator holds the frames
  of the memory map, and the boot marker is on the console in one piece.  With no interrupts the steps are exactly \<open>initialize\<close>.\<close>

theorem interrupted_initialization:
  assumes v: "accepts_canonical (vnew :: u64 \<Rightarrow> 'va res)" and b: "boot_info_wf b" "list_all region_ok (boot_regions b)"
    and h: "unat heap_space + 131072 < 2 ^ 64" and fb: "screen_ok (framebuffer b)" and ps: "ps = init_points vnew heap_space b"
    and sched: "schedule_ok ps iss" and n: "sum_list (map timer_count iss) < 2 ^ 64"
    and k0: "k0 = interrupts_enabled m1 m2 (kernel_static log)"
  shows "(\<exists>k. run_points ps iss k0 = Inr k \<and> kernel_ok k \<and> kbd_initialized (k_kbd k) \<and> shell_initialized (k_shell k) \<and>
      frame_contents (k_frames k) = boot_frames b \<and> sublist (lit ''AetherOS: kernel initialized'' @ [newline]) (k_console k)) \<and>
    run_points ps (replicate (length ps) []) k0 = initialize vnew heap_space m1 m2 b (kernel_static log)"
proof -
  have quiet: "run_points ps (replicate (length ps) []) k0 = initialize vnew heap_space m1 m2 b (kernel_static log)"
    using quiet_initialize [of "kernel_static log" vnew heap_space b m1 m2] by (simp add: quiet_def ps k0 kernel_static_def Shell_new_def)
  have len: "length iss = length ps" using sched by (auto simp: schedule_ok_def dest: list_all2_lengthD)
  have start: "starting frame_state_init k0" "k_ticks k0 = 0" unfolding k0 by (rule starting_enabled)+
  from init_points_run [OF v b h fb ps len start(1)] n start(2) quiet show ?thesis by simp
qed

lemma point_kinds:
  "map fst (report_points b) = replicate 12 Open" "map fst shell_points = Open # replicate 3 ShellLocked"
  "map fst driver_points = replicate 4 Open" "map fst (early_points heap_space b) = replicate 3 Open"
  by ((simp only: report_points_def shell_points_def driver_points_def early_points_def list.map fst_conv), simp add: numeral_eq_Suc)+

lemma init_points_kinds:
  "map fst (init_points vnew heap_space b) =
     replicate (if framebuffer b = None then 11 else 12) Open @ replicate 3 ShellLocked @ replicate 12 Open"
  unfolding init_points_def map_append point_kinds
  by (cases "framebuffer b") (simp_all add: framebuffer_points_def numeral_eq_Suc)

theorem interrupted_initialization_witness:
  "\<exists>k :: u64 kernel. run_points (init_points identity_virt_addr 0x200000 example_boot_info)
       ([TimerIrq] # [] # [KeyboardIrq 0x23] # replicate 8 [TimerIrq] @ replicate 3 [TimerIrq] @ replicate 12 [KeyboardIrq 0x23])
       (interrupts_enabled 0xFF 0xFF (kernel_static [])) = Inr k \<and>
     kernel_ok k \<and> sublist (lit ''AetherOS: kernel initialized'' @ [newline]) (k_console k)"
proof -
  let ?iss = "[TimerIrq] # [] # [KeyboardIrq 0x23] # replicate 8 [TimerIrq] @ replicate 3 [TimerIrq] @ replicate 12 [KeyboardIrq 0x23]"
  have h: "unat (0x200000 :: usize) + 131072 < 2 ^ 64" by simp
  have fb: "framebuffer example_boot_info = None" by (simp add: example_boot_info_def BootInfo_new_def)
  have s: "schedule_ok (init_points identity_virt_addr 0x200000 example_boot_info) ?iss"
    unfolding schedule_ok_def init_points_kinds fb by (simp add: numeral_eq_Suc)
  have n: "sum_list (map timer_count ?iss) < 2 ^ 64" by (simp add: sum_list_replicate)
  from interrupted_initialization [OF accepts_canonical_identity example_boot_info_wf example_regions_ok h example_screen refl s n refl]
  show ?thesis by blast
qed

end
