(* ===== verification/Power_On.thy ===== *)
theory Power_On
  imports Cpu_Entry Interrupted_Init
begin

text \<open>
  The whole way from the entry point to the waiting prompt: \<open>_start\<close> and \<open>enter\<close>, then \<open>run\<close> of
  \<^verbatim>\<open>kernel/src/lib.rs\<close> with the first steps of \<open>core::init::initialize\<close> (segment tables and handler table) in
  front of those that act on the kernel's own state.
\<close>

section \<open>Model\<close>









section \<open>Facts\<close>


lemma BootStage_label_valid [simp]: "valid_str (BootStage_label st)"
  by (cases st) simp_all





section \<open>Properties\<close>







end
