(* ===== verification/Pic_Service.thy ===== *)
theory Pic_Service
  imports Interrupted_Init
begin

text \<open>
  The kernel and the interrupt controller together.  The 8259 keeps a line in service until it gets an
  end-of-interrupt command, and meanwhile delivers only lines of higher priority.  The handlers of
  \<^verbatim>\<open>interrupts.rs\<close> send that command through \<open>notify_end_of_interrupt\<close>, which does nothing before the
  flag \<open>INITIALIZED\<close> is set.
\<close>

section \<open>The controller\<close>

text \<open>The mask is what the kernel's port writes have made of the one it found; \<open>m\<close> is the mask before
  \<open>interrupts::init\<close>.  The lines in service are a set; the command 0x20 takes the one of highest priority, the
  lowest number, out of service.\<close>

definition first_pic :: "u8 \<Rightarrow> 'va kernel \<Rightarrow> pic_state" where
  "first_pic m k = pic_run 0x20 0x21 (hw (k_irq k)) (pic_reset m)"

fun irq_line :: "irq \<Rightarrow> nat" where
  "irq_line TimerIrq = 0"
| "irq_line (KeyboardIrq _) = 1"

definition accepts :: "pic_state \<Rightarrow> nat set \<Rightarrow> nat \<Rightarrow> bool" where
  "accepts p isr line \<longleftrightarrow> unmasked p line \<and> (\<forall>l \<in> isr. line < l)"

fun service_out :: "hw_action \<Rightarrow> nat set \<Rightarrow> nat set" where
  "service_out (Out port v) isr = (if port = 0x20 \<and> v = 0x20 \<and> isr \<noteq> {} then isr - {Min isr} else isr)"
| "service_out EnableInterrupts isr = isr"

text \<open>What the port writes between two kernel states do to the lines in service.\<close>

definition after_writes :: "'va kernel \<Rightarrow> 'va kernel \<Rightarrow> nat set \<Rightarrow> nat set" where
  "after_writes k k' isr = fold service_out (drop (length (hw (k_irq k))) (hw (k_irq k'))) isr"

text \<open>Interrupts are raised one after the other.  One that is accepted runs its handler, whose port writes reach the
  controller; one that is not accepted stays pending and the handler does not run.\<close>

fun serve_all :: "u8 \<Rightarrow> irq list \<Rightarrow> 'va kernel \<times> nat set \<Rightarrow> ('va kernel \<times> nat set) res" where
  "serve_all m [] s = Inr s"
| "serve_all m (i # is) (k, isr) =
     (if accepts (first_pic m k) isr (irq_line i)
      then rbind (handle_irq i k) (\<lambda>k'.
        serve_all m is (k', after_writes k k' (insert (irq_line i) isr)))
      else serve_all m is (k, isr))"

text \<open>The initialisation under the controller: before each of its steps the interrupts that are raised there, served only
  when the controller accepts them, and after each step its own port writes.\<close>

fun serve_points :: "u8 \<Rightarrow> (point \<times> ('va kernel \<Rightarrow> 'va kernel res)) list \<Rightarrow> irq list list \<Rightarrow>
    'va kernel \<times> nat set \<Rightarrow> ('va kernel \<times> nat set) res" where
  "serve_points m ((_, f) # ps) (is # iss) s =
     rbind (serve_all m is s) (\<lambda>(k, isr). rbind (f k) (\<lambda>k'. serve_points m ps iss (k', after_writes k k' isr)))"
| "serve_points m _ _ s = Inr s"

section \<open>Served interrupts\<close>

lemma first_pic_eoi:
  "hw (k_irq k') = hw (k_irq k) @ [Out 0x20 0x20] \<Longrightarrow> pic_mask (first_pic m k') = pic_mask (first_pic m k)"
  by (simp add: first_pic_def pic_run_def)

lemma lines_unmasked:
  assumes "k_irq k = interrupts_init m m2 irq_static"
  shows "unmasked (first_pic m k) (irq_line i)"
proof -
  have "pic_mask (first_pic m k) = m AND NOT 0b11"
    unfolding first_pic_def assms interrupts_init_hw by (simp add: irq_static_def pic_run_initialize pit_init_not_pic) (simp add: pic_run_def)
  then show ?thesis by (cases i) (simp_all add: unmasked_def bit_and_iff)
qed

lemma irq_acknowledged:
  assumes "kernel_ok k" and "irq_initialized (k_irq k)" and "unat (k_ticks k) + timer_count [i] < 2 ^ 64"
  shows "\<exists>k'. handle_irq i k = Inr k' \<and> kernel_ok k' \<and> hw (k_irq k') = hw (k_irq k) @ [Out 0x20 0x20] \<and>
    irq_initialized (k_irq k') \<and> unat (k_ticks k') = unat (k_ticks k) + timer_count [i]"
proof (cases i)
  case TimerIrq
  then show ?thesis using timer_handler_spec [OF assms(1)] assms(2,3) by (auto simp: eoi_def)
next
  case (KeyboardIrq b)
  then show ?thesis using keyboard_handler_spec [OF assms(1), of b] assms(2) by (auto simp: eoi_def)
qed

lemma serve_all_runs:
  "kernel_ok k \<Longrightarrow> irq_initialized (k_irq k) \<Longrightarrow> \<forall>i. unmasked (first_pic m k) (irq_line i) \<Longrightarrow>
   unat (k_ticks k) + timer_count is < 2 ^ 64 \<Longrightarrow>
   \<exists>k'. serve_all m is (k, {}) = Inr (k', {}) \<and> run_irqs is k = Inr k' \<and> unat (k_ticks k') = unat (k_ticks k) + timer_count is \<and>
     (\<forall>i. accepts (first_pic m k') {} (irq_line i))"
proof (induction "is" arbitrary: k)
  case Nil
  then show ?case by (simp add: accepts_def)
next
  case (Cons i "is")
  have n: "timer_count (i # is) = timer_count [i] + timer_count is" by (simp add: timer_count_def)
  obtain k1 where k1: "handle_irq i k = Inr k1" "kernel_ok k1" "hw (k_irq k1) = hw (k_irq k) @ [Out 0x20 0x20]"
    "irq_initialized (k_irq k1)" "unat (k_ticks k1) = unat (k_ticks k) + timer_count [i]"
    using irq_acknowledged [OF Cons.prems(1,2), of i] Cons.prems(4) n by auto
  have "\<forall>i. unmasked (first_pic m k1) (irq_line i)"
    using Cons.prems(3) first_pic_eoi [OF k1(3), of m] by (simp add: unmasked_def)
  with Cons.IH [of k1] k1 Cons.prems(4) n obtain k' where k': "serve_all m is (k1, {}) = Inr (k', {})" "run_irqs is k1 = Inr k'"
    "unat (k_ticks k') = unat (k_ticks k1) + timer_count is" "\<forall>i. accepts (first_pic m k') {} (irq_line i)" by auto
  moreover have "accepts (first_pic m k) {} (irq_line i)" using Cons.prems(3) by (simp add: accepts_def)
  ultimately show ?case using k1 n by (simp add: after_writes_def del: handle_irq.simps)
qed

section \<open>Properties\<close>

text \<open>(C17) Interrupts keep flowing: after a boot without an early interrupt, the controller accepts every timer
  and keyboard interrupt that is raised, in any order and number below \<open>2 ^ 64\<close> ticks, each handler runs, and afterwards no line
  is in service and both lines are accepted again.\<close>

theorem interrupts_keep_flowing:
  assumes "accepts_canonical vnew" and "boot_info_wf b" and "list_all region_ok (boot_regions b)"
    and "unat heap_space + 131072 < 2 ^ 64" and "screen_ok (framebuffer b)"
    and "initialize vnew heap_space m1 m2 b (kernel_static log) = Inr k" and "timer_count is < 2 ^ 64"
  shows "\<exists>k'. serve_all m1 is (k, {}) = Inr (k', {}) \<and> run_irqs is k = Inr k' \<and> unat (k_ticks k') = timer_count is \<and>
    (\<forall>i. accepts (first_pic m1 k') {} (irq_line i))"
proof -
  have k: "kernel_ok k" "k_ticks k = 0" "k_irq k = interrupts_init m1 m2 irq_static"
    using kernel_initialize_spec [OF assms(1-5), of m1 m2 log] assms(6) by auto
  then have "irq_initialized (k_irq k)" by (simp add: interrupts_init_hw)
  with serve_all_runs [OF k(1) this, of m1 "is"] k(2) lines_unmasked [OF k(3)] assms(7) show ?thesis by auto
qed

theorem interrupts_keep_flowing_witness:
  "\<exists>(k :: u64 kernel) k'. initialize identity_virt_addr 0x200000 0xFF 0xFF example_boot_info (kernel_static []) = Inr k \<and>
     serve_all 0xFF [TimerIrq, KeyboardIrq 0x23, TimerIrq] (k, {}) = Inr (k', {}) \<and> unat (k_ticks k') = 2"
proof -
  have h: "unat (0x200000 :: usize) + 131072 < 2 ^ 64" and n: "timer_count [TimerIrq, KeyboardIrq 0x23, TimerIrq] < 2 ^ 64" by simp_all
  obtain k :: "u64 kernel" where k: "initialize identity_virt_addr 0x200000 0xFF 0xFF example_boot_info (kernel_static []) = Inr k"
    using kernel_initialize_spec [OF accepts_canonical_identity example_boot_info_wf example_regions_ok h example_screen] by blast
  from interrupts_keep_flowing [OF accepts_canonical_identity example_boot_info_wf example_regions_ok h example_screen k n] k
  show ?thesis by auto
qed

lemma timer_in_service_blocks: "serve_all m is (k, {0}) = Inr (k, {0})"
proof (induction "is")
  case (Cons i "is")
  have "\<not> accepts (first_pic m k) {0} (irq_line i)" by (cases i) (simp_all add: accepts_def)
  with Cons show ?case by simp
qed simp

text \<open>No step of the initialisation after interrupts are enabled writes to a port.\<close>

definition writes_nothing :: "('va kernel \<Rightarrow> 'va kernel res) \<Rightarrow> bool" where
  "writes_nothing f \<longleftrightarrow> (\<forall>k k'. f k = Inr k' \<longrightarrow> hw (k_irq k') = hw (k_irq k))"

lemma say_writes_nothing [simp]: "writes_nothing (say t)" "writes_nothing (\<lambda>k. say (u k) k)"
  by (auto simp: writes_nothing_def say_def)

lemma init_points_write_nothing: "list_all (\<lambda>(_, f). writes_nothing f) (init_points vnew heap_space b)"
proof -
  have "writes_nothing (show_visual f)" for f
    by (auto simp: writes_nothing_def show_visual_def elim!: rbind_eq_InrE)
  then have "list_all (\<lambda>(_, f). writes_nothing f) (framebuffer_points (framebuffer b))"
    by (auto simp: framebuffer_points_def writes_nothing_def split: option.split intro: say_writes_nothing(1) [unfolded writes_nothing_def, rule_format])
  then show ?thesis
    by (auto simp: init_points_def early_points_def driver_points_def shell_points_def report_points_def fs_initialize_def prompt_def
        writes_nothing_def say_def elim!: rbind_eq_InrE)
qed

lemma blocked_points:
  "list_all (\<lambda>(_, f). writes_nothing f) ps \<Longrightarrow> length iss = length ps \<Longrightarrow>
   serve_points m ps iss (k, {0}) = rbind (quiet ps k) (\<lambda>k'. Inr (k', {0}))"
proof (induction ps arbitrary: iss k)
  case (Cons p ps)
  obtain q f where p: "p = (q, f)" by (cases p)
  obtain j js where iss: "iss = j # js" using Cons.prems(2) by (cases iss) auto
  show ?case
  proof (cases "f k")
    case (Inr k')
    then have "after_writes k k' {0} = {0}" using Cons.prems(1) p by (simp add: writes_nothing_def after_writes_def)
    then show ?thesis using Cons.IH [of js k'] Cons.prems p iss Inr by (simp add: timer_in_service_blocks)
  qed (simp add: p iss timer_in_service_blocks)
qed simp

text \<open>(C39) One early tick silences the machine.  Interrupts have just been enabled and \<open>INITIALIZED\<close> is not yet set; a
  timer interrupt arrives there, and any interrupts are raised later in the initialisation.  The tick is accepted and handled but
  never acknowledged, also by no port write of the initialisation, which completes as if no other interrupt had been raised; at its end the
  timer's line is still in service, and from there no interrupt is ever accepted again: whatever is raised, no handler runs
  and the kernel's state stays as it is.\<close>

theorem early_tick_silences:
  assumes "accepts_canonical vnew" and "boot_info_wf b" and "list_all region_ok (boot_regions b)"
    and "unat heap_space + 131072 < 2 ^ 64" and "screen_ok (framebuffer b)"
    and k0: "k0 = interrupts_enabled m1 m2 (kernel_static log)" and ps: "ps = init_points vnew heap_space b"
    and "length iss = length ps" and "hd iss = TimerIrq # is0"
  shows "\<exists>k1 k2. handle_irq TimerIrq k0 = Inr k1 \<and> serve_points m1 ps iss (k0, {}) = Inr (k2, {0}) \<and> quiet ps k1 = Inr k2 \<and>
    kernel_ok k2 \<and> shell_initialized (k_shell k2) \<and> (\<forall>is. serve_all m1 is (k2, {0}) = Inr (k2, {0}))"
proof -
  have start: "starting frame_state_init k0" "k_ticks k0 = 0" unfolding k0 by (rule starting_enabled)+
  have hw0: "hw (k_irq k0) = ChainedPics_initialize m1 m2 PICS @ pit_init 100 @ [EnableInterrupts]" "\<not> irq_initialized (k_irq k0)"
    by (simp_all add: k0 interrupts_enabled_def init_steps_def perform_def kernel_static_def irq_static_def)
  obtain k1 where k1: "handle_irq TimerIrq k0 = Inr k1" "starting frame_state_init k1" "unat (k_ticks k1) = 1"
    using starting_irq [OF start(1), of TimerIrq] start(2) by auto
  have hw1: "hw (k_irq k1) = hw (k_irq k0)"
    using k1(1) hw0(2) by (auto simp: timer_interrupt_handler_def on_tick_def Let_def end_of_interrupt_def notify_end_of_interrupt_def
        elim!: rbind_eq_InrE split: if_splits)
  have "pic_mask (first_pic m1 k0) = m1 AND NOT 0b11"
    unfolding first_pic_def hw0 by (simp add: pic_run_initialize pit_init_not_pic) (simp add: pic_run_def)
  then have "accepts (first_pic m1 k0) {} 0" by (simp add: accepts_def unmasked_def bit_and_iff)
  then have tick: "serve_all m1 (TimerIrq # is0) (k0, {}) = Inr (k1, {0})"
    using k1(1) hw1 by (simp add: after_writes_def timer_in_service_blocks del: handle_irq.simps)
  obtain k2 where k2: "quiet ps k1 = Inr k2" "kernel_ok k2" "shell_initialized (k_shell k2)"
    using init_points_run [OF assms(1-5) ps _ k1(2), of "replicate (length ps) []"] k1(3) by (auto simp: sum_list_replicate quiet_def)
  obtain q f qs where ps': "ps = (q, f) # qs" by (auto simp: ps init_points_def early_points_def)
  obtain js where iss: "iss = (TimerIrq # is0) # js" using assms(8,9) ps' by (cases iss) auto
  have "serve_points m1 ps iss (k0, {}) = serve_points m1 ps ([] # js) (k1, {0})" 
    unfolding ps' iss serve_points.simps(1) tick by simp
  also have "\<dots> = Inr (k2, {0})"
    using blocked_points [OF init_points_write_nothing [of vnew heap_space b, folded ps], of "[] # js"] assms(8) iss k2(1) by simp
  finally show ?thesis using k1(1) k2 timer_in_service_blocks by blast
qed

theorem early_tick_silences_witness:
  "\<exists>k2 :: u64 kernel. serve_points 0xFF (init_points identity_virt_addr 0x200000 example_boot_info)
       ([TimerIrq, KeyboardIrq 0x23] # replicate (length (init_points identity_virt_addr 0x200000 example_boot_info) - 1) [TimerIrq])
       (interrupts_enabled 0xFF 0xFF (kernel_static []), {}) = Inr (k2, {0}) \<and>
     serve_all 0xFF [KeyboardIrq 0x23, TimerIrq] (k2, {0}) = Inr (k2, {0}) \<and> shell_initialized (k_shell k2)"
proof -
  let ?ps = "init_points identity_virt_addr 0x200000 example_boot_info :: (point \<times> (u64 kernel \<Rightarrow> u64 kernel res)) list"
  let ?iss = "[TimerIrq, KeyboardIrq 0x23] # replicate (length ?ps - 1) [TimerIrq]"
  have h: "unat (0x200000 :: usize) + 131072 < 2 ^ 64" by simp
  have len: "length ?iss = length ?ps" by (simp add: init_points_def early_points_def)
  have first: "hd ?iss = TimerIrq # [KeyboardIrq 0x23]" by simp
  from early_tick_silences [OF accepts_canonical_identity example_boot_info_wf example_regions_ok h example_screen refl refl len first,
      of "0xFF" "0xFF" "[]"]
  show ?thesis by blast
qed

end
