(* ===== verification/Linker_Layout.thy ===== *)
theory Linker_Layout
  imports Aether_Prelude
begin

text \<open>
  \<^verbatim>\<open>config/linker/linker.ld\<close> and the statics whose place it decides: the requests to the boot loader and
  their markers (\<^verbatim>\<open>arch/x86_64/boot.rs\<close>), the heap array (\<^verbatim>\<open>memory/heap.rs\<close>) and the double fault stack
  (\<^verbatim>\<open>arch/x86_64/gdt.rs\<close>).  The script is data; a small linker runs it on the input sections in link order,
  which are arguments like the page size.  It drops the sections nothing refers to, as the linker does under
  \<^verbatim>\<open>--gc-sections\<close>, the option \<^verbatim>\<open>rustc\<close> passes: what the entry point does not reach survives only under \<^verbatim>\<open>KEEP\<close>.
  Where a linker puts a section that no statement of the script names is its own choice, so the model has no image then.
\<close>

section \<open>The script\<close>

datatype phdr = Requests_hdr | Text_hdr | Rodata_hdr | Data_hdr

fun phdr_flags :: "phdr \<Rightarrow> nat" where
  "phdr_flags Requests_hdr = 0x06"
| "phdr_flags Text_hdr = 0x05"
| "phdr_flags Rodata_hdr = 0x04"
| "phdr_flags Data_hdr = 0x06"

definition writable_hdr :: "phdr \<Rightarrow> bool" where
  "writable_hdr h \<longleftrightarrow> odd (phdr_flags h div 2)"

definition executable_hdr :: "phdr \<Rightarrow> bool" where
  "executable_hdr h \<longleftrightarrow> odd (phdr_flags h)"

text \<open>Input patterns are exact names or prefixes followed by \<open>*\<close>; an input statement has one or more of them.\<close>

datatype pattern = Exact string | Prefix string

fun matches :: "pattern \<Rightarrow> string \<Rightarrow> bool" where
  "matches (Exact n) s \<longleftrightarrow> s = n"
| "matches (Prefix n) s \<longleftrightarrow> take (length n) s = n"

datatype input_stmt = KEEP "pattern list" | Files "pattern list"

primrec stmt_patterns :: "input_stmt \<Rightarrow> pattern list" where
  "stmt_patterns (KEEP ps) = ps"
| "stmt_patterns (Files ps) = ps"

datatype script_item = Counter nat | PageAlign | Output phdr "input_stmt list" | Discard "pattern list list"

definition entry_symbol :: string where "entry_symbol = ''_start''"

definition linker_ld :: "script_item list" where
  "linker_ld =
     [Counter 0xffffffff80000000,
      Output Requests_hdr [KEEP [Exact ''.limine_requests_start''], KEEP [Exact ''.limine_requests''], KEEP [Exact ''.limine_requests_end'']],
      PageAlign,
      Output Text_hdr [Files [Exact ''.text'', Prefix ''.text.'']],
      PageAlign,
      Output Rodata_hdr [Files [Exact ''.rodata'', Prefix ''.rodata.'']],
      Output Rodata_hdr [Files [Exact ''.note.gnu.build-id'']],
      PageAlign,
      Output Data_hdr [Files [Exact ''.data'', Prefix ''.data.'']],
      Output Data_hdr [Files [Exact ''.bss'', Prefix ''.bss.''], Files [Exact ''COMMON'']],
      Discard [[Prefix ''.eh_frame''], [Exact ''.note'', Prefix ''.note.'']]]"

section \<open>Input sections\<close>

text \<open>A section with the symbols it defines and those it refers to.\<close>

record input_section =
  in_name :: string
  in_size :: nat
  in_align :: nat
  in_defs :: "string list"
  in_refs :: "string list"

definition selects :: "pattern list \<Rightarrow> input_section \<Rightarrow> bool" where
  "selects g s \<longleftrightarrow> list_ex (\<lambda>p. matches p (in_name s)) g"

text \<open>Garbage collection: the roots are the section of the entry symbol and what the script keeps; a section that a live one refers
  to is live.  Every round but the last adds a section, so as many rounds as there are sections are enough.\<close>

fun keeps :: "input_section \<Rightarrow> input_stmt \<Rightarrow> bool" where
  "keeps s (KEEP ps) = selects ps s"
| "keeps s (Files ps) = False"

fun item_stmts :: "script_item \<Rightarrow> input_stmt list" where
  "item_stmts (Output h ss) = ss"
| "item_stmts _ = []"

definition gc_root :: "input_section \<Rightarrow> bool" where
  "gc_root s \<longleftrightarrow> entry_symbol \<in> set (in_defs s) \<or> list_ex (keeps s) (concat (map item_stmts linker_ld))"

definition refers :: "input_section \<Rightarrow> input_section \<Rightarrow> bool" where
  "refers t s \<longleftrightarrow> list_ex (\<lambda>x. x \<in> set (in_defs s)) (in_refs t)"

definition gc_round :: "input_section list \<Rightarrow> input_section list \<Rightarrow> input_section list" where
  "gc_round inputs live = filter (\<lambda>s. s \<in> set live \<or> list_ex (\<lambda>t. refers t s) live) inputs"

definition live_sections :: "input_section list \<Rightarrow> input_section list" where
  "live_sections inputs = (gc_round inputs ^^ length inputs) (filter gc_root inputs)"

section \<open>Placing sections\<close>

definition align_to :: "nat \<Rightarrow> nat \<Rightarrow> nat" where
  "align_to a n = (if a = 0 then n else (n + (a - 1)) div a * a)"

fun place :: "nat \<Rightarrow> input_section list \<Rightarrow> (input_section \<times> nat) list \<times> nat" where
  "place c [] = ([], c)"
| "place c (s # ss) =
     (let a = align_to (in_align s) c; (ps, e) = place (a + in_size s) ss in ((s, a) # ps, e))"

text \<open>The input statements of one output section, in order; a section goes to the first statement that selects it.\<close>

fun fill :: "pattern list list \<Rightarrow> nat \<Rightarrow> input_section list \<Rightarrow> (input_section \<times> nat) list \<times> nat \<times> input_section list" where
  "fill [] c rest = ([], c, rest)"
| "fill (g # gs) c rest =
     (let (ps, e) = place c (filter (selects g) rest);
          (qs, e', rest') = fill gs e (filter (\<lambda>s. \<not> selects g s) rest)
      in (ps @ qs, e', rest'))"

text \<open>An output section starts at the strictest alignment of its contents.\<close>

definition section_start :: "pattern list list \<Rightarrow> nat \<Rightarrow> input_section list \<Rightarrow> nat" where
  "section_start gs c rest =
     align_to (fold (\<lambda>s m. max (in_align s) m) (filter (\<lambda>s. list_ex (\<lambda>g. selects g s) gs) rest) 1) c"

fun layout :: "nat \<Rightarrow> script_item list \<Rightarrow> nat \<Rightarrow> input_section list \<Rightarrow> (phdr \<times> input_section \<times> nat) list" where
  "layout pg [] c rest = []"
| "layout pg (Counter a # its) c rest = layout pg its a rest"
| "layout pg (PageAlign # its) c rest = layout pg its (align_to pg c) rest"
| "layout pg (Output h ss # its) c rest =
     (let (ps, e, rest') = fill (map stmt_patterns ss) (section_start (map stmt_patterns ss) c rest) rest
      in map (\<lambda>(s, a). (h, s, a)) ps @ layout pg its e rest')"
| "layout pg (Discard gs # its) c rest = layout pg its c (filter (\<lambda>s. \<not> list_ex (\<lambda>g. selects g s) gs) rest)"

text \<open>The image, when the script names every section that has a place in it.\<close>

fun item_names :: "input_section \<Rightarrow> script_item \<Rightarrow> bool" where
  "item_names s (Output h ss) = list_ex (\<lambda>i. selects (stmt_patterns i) s) ss"
| "item_names s (Discard gs) = list_ex (\<lambda>g. selects g s) gs"
| "item_names s _ = False"

definition link_image :: "nat \<Rightarrow> input_section list \<Rightarrow> (phdr \<times> input_section \<times> nat) list option" where
  "link_image pg inputs =
     (let live = live_sections inputs in
      if list_all (\<lambda>s. list_ex (item_names s) linker_ld) live then Some (layout pg linker_ld 0 live) else None)"

section \<open>The statics\<close>

text \<open>A \<open>static\<close> that is neither \<open>mut\<close> nor has interior mutability is constant data, also when it is zero; the other
  zero-initialised ones go to \<^verbatim>\<open>.bss\<close>; \<open>link_section\<close> overrides both.  The compiler appends the mangled symbol, of which
  the patterns of the script see nothing; here the name in the source stands for it.\<close>

record rust_static =
  static_name :: string
  link_section :: "string option"
  static_mut :: bool
  interior_mutability :: bool
  zero_init :: bool

definition static_section :: "rust_static \<Rightarrow> string" where
  "static_section s =
     (case link_section s of
        Some n \<Rightarrow> n
      | None \<Rightarrow>
          (if \<not> static_mut s \<and> \<not> interior_mutability s then ''.rodata.''
           else if zero_init s then ''.bss.'' else ''.data.'') @ static_name s)"

text \<open>The types of the requests and markers belong to the \<^verbatim>\<open>limine\<close> crate; whether they have interior mutability is the
  argument \<open>m\<close>.\<close>

definition request_static :: "bool \<Rightarrow> string \<Rightarrow> string \<Rightarrow> rust_static" where
  "request_static m n sec =
     \<lparr>static_name = n, link_section = Some sec, static_mut = False, interior_mutability = m, zero_init = False\<rparr>"

definition limine_requests :: "bool \<Rightarrow> rust_static list" where
  "limine_requests m = map (\<lambda>n. request_static m n ''.limine_requests'')
     [''BASE_REVISION'', ''HHDM_REQUEST'', ''MEMORY_MAP_REQUEST'', ''FRAMEBUFFER_REQUEST'', ''STACK_SIZE_REQUEST'']"

definition REQUESTS_START :: "bool \<Rightarrow> rust_static" where
  "REQUESTS_START m = request_static m ''REQUESTS_START'' ''.limine_requests_start''"

definition REQUESTS_END :: "bool \<Rightarrow> rust_static" where
  "REQUESTS_END m = request_static m ''REQUESTS_END'' ''.limine_requests_end''"

definition plain_static :: "string \<Rightarrow> rust_static" where
  "plain_static n = \<lparr>static_name = n, link_section = None, static_mut = False, interior_mutability = False, zero_init = True\<rparr>"

definition double_fault_STACK :: rust_static where "double_fault_STACK = plain_static ''STACK''"
definition HEAP_SPACE :: rust_static where "HEAP_SPACE = plain_static ''HEAP_SPACE''"

section \<open>What garbage collection keeps\<close>

inductive needed :: "input_section list \<Rightarrow> input_section \<Rightarrow> bool" for inputs where
  root: "s \<in> set inputs \<Longrightarrow> gc_root s \<Longrightarrow> needed inputs s"
| referred: "needed inputs t \<Longrightarrow> s \<in> set inputs \<Longrightarrow> refers t s \<Longrightarrow> needed inputs s"

lemma gc_round_grows: "set live \<subseteq> set inputs \<Longrightarrow> set live \<subseteq> set (gc_round inputs live) \<and> set (gc_round inputs live) \<subseteq> set inputs"
  by (auto simp: gc_round_def)

lemma gc_rounds_within: "set ((gc_round inputs ^^ n) (filter gc_root inputs)) \<subseteq> set inputs"
  by (induction n) (auto simp: gc_round_def)

lemma gc_rounds_needed: "s \<in> set ((gc_round inputs ^^ n) (filter gc_root inputs)) \<Longrightarrow> needed inputs s"
  by (induction n arbitrary: s) (auto simp: gc_round_def list_ex_iff intro: needed.intros)

text \<open>Before it is closed under references, a round adds a section.\<close>

lemma gc_round_cong: "set live = set live' \<Longrightarrow> gc_round inputs live = gc_round inputs live'"
  by (simp add: gc_round_def list_ex_iff)

lemma gc_rounds_progress:
  fixes inputs
  defines "L n \<equiv> (gc_round inputs ^^ n) (filter gc_root inputs)"
  shows "set (gc_round inputs (L n)) = set (L n) \<or> n \<le> card (set (L n))"
proof (induction n)
  case (Suc n)
  have step: "L (Suc n) = gc_round inputs (L n)" by (simp add: L_def)
  show ?case
  proof (cases "set (gc_round inputs (L n)) = set (L n)")
    case True
    then show ?thesis using gc_round_cong [OF True] step by simp
  next
    case False
    have "set (L n) \<subset> set (L (Suc n))"
      using gc_round_grows [of "L n" inputs] gc_rounds_within [of n inputs] False step unfolding L_def by auto
    then have "card (set (L n)) < card (set (L (Suc n)))" by (simp add: psubset_card_mono)
    with Suc.IH False show ?thesis by simp
  qed
qed simp

lemma live_sections_closed: "set (gc_round inputs (live_sections inputs)) = set (live_sections inputs)"
proof -
  have "set (gc_round inputs (live_sections inputs)) = set (live_sections inputs) \<or> length inputs \<le> card (set (live_sections inputs))"
    unfolding live_sections_def by (rule gc_rounds_progress)
  then show ?thesis
  proof
    assume n: "length inputs \<le> card (set (live_sections inputs))"
    have sub: "set (live_sections inputs) \<subseteq> set inputs" unfolding live_sections_def by (rule gc_rounds_within)
    have "card (set inputs) \<le> card (set (live_sections inputs))" using n card_length [of inputs] by simp
    then have "set (live_sections inputs) = set inputs" using card_seteq [OF finite_set sub] by blast
    then show ?thesis using gc_round_grows [OF sub] by auto
  qed
qed

lemma roots_live: "s \<in> set inputs \<Longrightarrow> gc_root s \<Longrightarrow> s \<in> set ((gc_round inputs ^^ n) (filter gc_root inputs))"
  by (induction n) (auto simp: gc_round_def)

text \<open>The marking is right: exactly the sections that the roots reach are live.\<close>

lemma live_iff_needed: "s \<in> set (live_sections inputs) \<longleftrightarrow> needed inputs s"
proof
  assume "needed inputs s"
  then show "s \<in> set (live_sections inputs)"
  proof induction
    case (root s)
    then show ?case using roots_live by (simp add: live_sections_def)
  next
    case (referred t s)
    then have "s \<in> set (gc_round inputs (live_sections inputs))" by (auto simp: gc_round_def list_ex_iff)
    then show ?case by (simp add: live_sections_closed)
  qed
qed (unfold live_sections_def, rule gc_rounds_needed)

lemma kept_live: "s \<in> set inputs \<Longrightarrow> list_ex (keeps s) (concat (map item_stmts linker_ld)) \<Longrightarrow> s \<in> set (live_sections inputs)"
  unfolding live_iff_needed by (rule needed.root) (simp_all add: gc_root_def)

lemma live_sections_subset: "set (live_sections inputs) \<subseteq> set inputs"
  unfolding live_sections_def by (rule gc_rounds_within)

section \<open>Where things end up\<close>

lemma align_to_ge: "c \<le> align_to a c"
proof (cases "a = 0")
  case False
  let ?n = "c + (a - 1)"
  have "?n = ?n div a * a + ?n mod a" by (rule div_mult_mod_eq [symmetric])
  moreover have "?n mod a < a" using False by simp
  ultimately have "c \<le> ?n div a * a" by linarith
  then show ?thesis using False by (simp only: align_to_def if_False)
qed (simp add: align_to_def)

lemma align_to_dvd: "0 < a \<Longrightarrow> a dvd align_to a c"
  by (simp add: align_to_def)

text \<open>Sections placed between \<open>c\<close> and \<open>e\<close>.\<close>

definition within :: "nat \<Rightarrow> nat \<Rightarrow> (input_section \<times> nat) list \<Rightarrow> bool" where
  "within c e ps \<longleftrightarrow> (\<forall>(s, a) \<in> set ps. c \<le> a \<and> a + in_size s \<le> e)"

lemma within_mono: "within c e ps \<Longrightarrow> c' \<le> c \<Longrightarrow> e \<le> e' \<Longrightarrow> within c' e' ps"
  by (fastforce simp: within_def)

lemma place_within: "place c ss = (ps, e) \<Longrightarrow> c \<le> e \<and> within c e ps \<and> map fst ps = ss"
proof (induction ss arbitrary: c ps e)
  case (Cons s ss)
  let ?a = "align_to (in_align s) c"
  obtain qs where qs: "place (?a + in_size s) ss = (qs, e)" "ps = (s, ?a) # qs"
    using Cons.prems by (auto simp: Let_def split: prod.splits)
  have "c \<le> ?a" by (rule align_to_ge)
  with Cons.IH [OF qs(1)] qs(2) show ?case by (auto simp: within_def)
qed (simp add: within_def)

text \<open>What one output section takes and what it leaves.\<close>

lemma fill_within:
  "fill gs c rest = (ps, e, rest') \<Longrightarrow> c \<le> e \<and> within c e ps \<and>
   set (map fst ps) = {s \<in> set rest. list_ex (\<lambda>g. selects g s) gs} \<and> rest' = filter (\<lambda>s. \<not> list_ex (\<lambda>g. selects g s) gs) rest"
proof (induction gs arbitrary: c rest ps e rest')
  case Nil
  then show ?case by (auto simp: within_def)
next
  case (Cons g gs)
  obtain ps1 e1 where 1: "place c (filter (selects g) rest) = (ps1, e1)" by fastforce
  obtain ps2 where 2: "fill gs e1 (filter (\<lambda>s. \<not> selects g s) rest) = (ps2, e, rest')" "ps = ps1 @ ps2"
    using Cons.prems 1 by (auto simp: Let_def split: prod.splits)
  have p1: "c \<le> e1" "within c e1 ps1" "map fst ps1 = filter (selects g) rest" using place_within [OF 1] by simp_all
  from Cons.IH [OF 2(1)] have p2: "e1 \<le> e" "within e1 e ps2"
    "set (map fst ps2) = {s \<in> set rest. \<not> selects g s \<and> list_ex (\<lambda>g. selects g s) gs}"
    "rest' = filter (\<lambda>s. \<not> list_ex (\<lambda>g. selects g s) (g # gs)) rest" by (auto intro: filter_cong)
  have "within c e (ps1 @ ps2)"
    using within_mono [OF p1(2) _ p2(1), of c] within_mono [OF p2(2) p1(1), of e] by (auto simp: within_def)
  moreover have "set (map fst (ps1 @ ps2)) = {s \<in> set rest. list_ex (\<lambda>g. selects g s) (g # gs)}"
    unfolding map_append set_append p1(3) p2(3) by auto
  ultimately show ?case using p1(1) p2(1,4) 2(2) by (auto simp: list_ex_iff)
qed

text \<open>The image of the script: the four segments one after the other, each beginning on a page of its own.\<close>

fun segment :: "phdr \<Rightarrow> nat" where
  "segment Requests_hdr = 0"
| "segment Text_hdr = 1"
| "segment Rodata_hdr = 2"
| "segment Data_hdr = 3"

lemma image_segments:
  obtains e where "mono e" and "\<And>h s a. (h, s, a) \<in> set (layout pg linker_ld 0 inputs) \<Longrightarrow>
    (0 < segment h \<longrightarrow> align_to pg (e (segment h)) \<le> a) \<and> a + in_size s \<le> e (Suc (segment h))"
proof -
  define out where "out gs c rest = fill gs (section_start gs c rest) rest" for gs c rest
  have bounds: "c \<le> e \<and> within c e ps" if "out gs c rest = (ps, e, rest')" for gs c rest ps e rest'
  proof -
    have c: "c \<le> section_start gs c rest" unfolding section_start_def by (rule align_to_ge)
    have f: "section_start gs c rest \<le> e" "within (section_start gs c rest) e ps" using fill_within [OF that [unfolded out_def]] by simp_all
    show ?thesis using c f within_mono [OF f(2) c order_refl] by simp
  qed
  obtain p1 e1 r1 where 1: "out [[Exact ''.limine_requests_start''], [Exact ''.limine_requests''], [Exact ''.limine_requests_end'']]
      0xffffffff80000000 inputs = (p1, e1, r1)" by (metis prod_cases3)
  obtain p2 e2 r2 where 2: "out [[Exact ''.text'', Prefix ''.text.'']] (align_to pg e1) r1 = (p2, e2, r2)" by (metis prod_cases3)
  obtain p3 e3 r3 where 3: "out [[Exact ''.rodata'', Prefix ''.rodata.'']] (align_to pg e2) r2 = (p3, e3, r3)" by (metis prod_cases3)
  obtain p4 e4 r4 where 4: "out [[Exact ''.note.gnu.build-id'']] e3 r3 = (p4, e4, r4)" by (metis prod_cases3)
  obtain p5 e5 r5 where 5: "out [[Exact ''.data'', Prefix ''.data.'']] (align_to pg e4) r4 = (p5, e5, r5)" by (metis prod_cases3)
  obtain p6 e6 r6 where 6: "out [[Exact ''.bss'', Prefix ''.bss.''], [Exact ''COMMON'']] e5 r5 = (p6, e6, r6)" by (metis prod_cases3)
  have img: "layout pg linker_ld 0 inputs = map (\<lambda>(s, a). (Requests_hdr, s, a)) p1 @ map (\<lambda>(s, a). (Text_hdr, s, a)) p2 @
      map (\<lambda>(s, a). (Rodata_hdr, s, a)) (p3 @ p4) @ map (\<lambda>(s, a). (Data_hdr, s, a)) (p5 @ p6)"
    using 1 2 3 4 5 6 unfolding linker_ld_def out_def by simp
  note b = bounds [OF 1] bounds [OF 2] bounds [OF 3] bounds [OF 4] bounds [OF 5] bounds [OF 6]
  have g: "e1 \<le> align_to pg e1" "e2 \<le> align_to pg e2" "e4 \<le> align_to pg e4" by (rule align_to_ge)+
  define e where "e i = (if i \<le> 1 then e1 else if i = 2 then e2 else if i = 3 then e4 else e6)" for i :: nat
  have "mono e" by (rule monoI) (use b g in \<open>auto simp: e_def\<close>)
  then show thesis
  proof (rule that)
    fix h s a assume "(h, s, a) \<in> set (layout pg linker_ld 0 inputs)"
    then consider "h = Requests_hdr" "(s, a) \<in> set p1" | "h = Text_hdr" "(s, a) \<in> set p2" | "h = Rodata_hdr" "(s, a) \<in> set p3 \<union> set p4"
      | "h = Data_hdr" "(s, a) \<in> set p5 \<union> set p6" unfolding img by auto
    then show "(0 < segment h \<longrightarrow> align_to pg (e (segment h)) \<le> a) \<and> a + in_size s \<le> e (Suc (segment h))"
      using b unfolding within_def by cases (fastforce simp: e_def)+
  qed
qed

lemma page_order:
  assumes "0 < pg" and "x < e" and "align_to pg e \<le> y"
  shows "x div pg < y div pg"
proof -
  have "x < align_to pg e div pg * pg" using assms(2) align_to_ge [of e pg] align_to_dvd [OF assms(1), of e] by simp
  then have "x div pg < align_to pg e div pg" by (simp add: less_mult_imp_div_less)
  also have "\<dots> \<le> y div pg" by (rule div_le_mono [OF assms(3)])
  finally show ?thesis .
qed

lemma link_image_SomeD:
  assumes "link_image pg inputs = Some img"
  shows "img = layout pg linker_ld 0 (live_sections inputs)"
  using assms by (simp add: link_image_def Let_def split: if_splits)

section \<open>Properties\<close>

text \<open>(C23) Memory protection by the page: in every image the linker script produces, two bytes in one page, of the same or of different
  sections, have the same program header, so the flags of a page are well defined, and no page is both writable and executable.  Images with
  sections that the script does not name are not covered.\<close>

theorem pages_keep_flags:
  assumes "0 < pg" and img: "link_image pg inputs = Some img" and "(h, s, a) \<in> set img" and "(h', s', a') \<in> set img"
    and "a \<le> x" "x < a + in_size s" and "a' \<le> x'" "x' < a' + in_size s'" and "x div pg = x' div pg"
  shows "h = h' \<and> \<not> (writable_hdr h \<and> executable_hdr h')"
proof -
  obtain e where e: "mono e" "\<And>h s a. (h, s, a) \<in> set img \<Longrightarrow>
    (0 < segment h \<longrightarrow> align_to pg (e (segment h)) \<le> a) \<and> a + in_size s \<le> e (Suc (segment h))"
    using image_segments [of pg "live_sections inputs"] unfolding link_image_SomeD [OF img] by blast
  have apart: "y div pg < y' div pg" if "segment i < segment i'" "(i, t, b) \<in> set img" "(i', t', b') \<in> set img"
    "y < b + in_size t" "b' \<le> y'" for i i' t t' b b' y y'
  proof (rule page_order [OF assms(1)])
    have "e (Suc (segment i)) \<le> e (segment i')" using e(1) that(1) by (simp add: mono_def Suc_leI)
    then show "y < e (segment i')" using e(2) [OF that(2)] that(4) by linarith
    show "align_to pg (e (segment i')) \<le> y'" using e(2) [OF that(3)] that(1,5) by linarith
  qed
  have "\<not> segment h < segment h'" "\<not> segment h' < segment h"
    using apart [OF _ assms(3,4) assms(6,7)] apart [OF _ assms(4,3) assms(8,5)] assms(9) by auto
  then have "segment h = segment h'" by linarith
  then have "h = h'" by (cases h; cases h') simp_all
  moreover have "\<not> (writable_hdr h \<and> executable_hdr h)" by (cases h) (simp_all add: writable_hdr_def executable_hdr_def)
  ultimately show ?thesis by blast
qed

text \<open>The entry code with two counters it uses, the requests and their markers, which nothing refers to, and a function nothing calls.\<close>

abbreviation sec :: "string \<Rightarrow> nat \<Rightarrow> nat \<Rightarrow> string list \<Rightarrow> string list \<Rightarrow> input_section" where
  "sec n z al ds rs \<equiv> \<lparr>in_name = n, in_size = z, in_align = al, in_defs = ds, in_refs = rs\<rparr>"

definition example_inputs :: "input_section list" where
  "example_inputs =
     [sec ''.text.main'' 5000 16 [''_start''] [''TICKS''], sec ''.limine_requests'' 48 8 [''HHDM_REQUEST''] [], sec ''.text.unused'' 64 16 [''unused''] [''TICKS''],
      sec ''.limine_requests_end'' 16 8 [''REQUESTS_END''] [], sec ''.bss.TICKS'' 8 8 [''TICKS''] [''STAGE''], sec ''.data.STAGE'' 1 1 [''STAGE''] [],
      sec ''.limine_requests_start'' 32 8 [''REQUESTS_START''] []]"

definition example_image :: "(phdr \<times> input_section \<times> nat) list" where
  "example_image =
   [(Requests_hdr, sec ''.limine_requests_start'' 32 8 [''REQUESTS_START''] [], 0xffffffff80000000),
    (Requests_hdr, sec ''.limine_requests'' 48 8 [''HHDM_REQUEST''] [], 0xffffffff80000020),
    (Requests_hdr, sec ''.limine_requests_end'' 16 8 [''REQUESTS_END''] [], 0xffffffff80000050),
    (Text_hdr, sec ''.text.main'' 5000 16 [''_start''] [''TICKS''], 0xffffffff80001000),
    (Data_hdr, sec ''.data.STAGE'' 1 1 [''STAGE''] [], 0xffffffff80003000),
    (Data_hdr, sec ''.bss.TICKS'' 8 8 [''TICKS''] [''STAGE''], 0xffffffff80003008)]"

lemma example_live: "live_sections example_inputs = filter (\<lambda>s. in_name s \<noteq> ''.text.unused'') example_inputs"
proof -
  let ?f = "gc_round example_inputs"
  let ?L0 = "[sec ''.text.main'' 5000 16 [''_start''] [''TICKS''], sec ''.limine_requests'' 48 8 [''HHDM_REQUEST''] [],
    sec ''.limine_requests_end'' 16 8 [''REQUESTS_END''] [], sec ''.limine_requests_start'' 32 8 [''REQUESTS_START''] []]"
  let ?L1 = "[sec ''.text.main'' 5000 16 [''_start''] [''TICKS''], sec ''.limine_requests'' 48 8 [''HHDM_REQUEST''] [],
    sec ''.limine_requests_end'' 16 8 [''REQUESTS_END''] [], sec ''.bss.TICKS'' 8 8 [''TICKS''] [''STAGE''],
    sec ''.limine_requests_start'' 32 8 [''REQUESTS_START''] []]"
  let ?L2 = "filter (\<lambda>s. in_name s \<noteq> ''.text.unused'') example_inputs"
  have 0: "filter gc_root example_inputs = ?L0"
    by (simp add: gc_root_def entry_symbol_def example_inputs_def linker_ld_def selects_def)
  have 1: "?f ?L0 = ?L1" by (simp add: gc_round_def refers_def example_inputs_def)
  have 2: "?f ?L1 = ?L2" by (simp add: gc_round_def refers_def example_inputs_def)
  have 3: "?f ?L2 = ?L2" by (simp add: gc_round_def refers_def example_inputs_def)
  have "(?f ^^ n) ?L2 = ?L2" for n by (induction n) (simp_all add: 3)
  then have "(?f ^^ Suc (Suc 5)) ?L0 = ?L2" unfolding funpow_Suc_right o_apply 1 2 by blast
  moreover have "length example_inputs = Suc (Suc 5)" by (simp add: example_inputs_def)
  ultimately show ?thesis unfolding live_sections_def 0 by metis
qed

lemma link_example: "link_image 4096 example_inputs = Some example_image"
proof -
  let ?L = "[sec ''.text.main'' 5000 16 [''_start''] [''TICKS''], sec ''.limine_requests'' 48 8 [''HHDM_REQUEST''] [],
    sec ''.limine_requests_end'' 16 8 [''REQUESTS_END''] [], sec ''.bss.TICKS'' 8 8 [''TICKS''] [''STAGE''], sec ''.data.STAGE'' 1 1 [''STAGE''] [],
    sec ''.limine_requests_start'' 32 8 [''REQUESTS_START''] []]"
  have live: "live_sections example_inputs = ?L" unfolding example_live by (simp add: example_inputs_def)
  have "list_all (\<lambda>s. list_ex (item_names s) linker_ld) ?L" by (simp add: linker_ld_def selects_def)
  moreover have "layout 4096 linker_ld 0 ?L = example_image"
    by (simp add: linker_ld_def example_image_def section_start_def selects_def align_to_def)
  ultimately show ?thesis by (simp add: link_image_def live)
qed

theorem pages_keep_flags_witness:
  "\<exists>img h h' s s' a a'. link_image 4096 example_inputs = Some img \<and> (h, s, a) \<in> set img \<and> (h', s', a') \<in> set img \<and> s \<noteq> s' \<and>
     a div 4096 = a' div 4096 \<and> h = h' \<and> \<not> (writable_hdr h \<and> executable_hdr h')"
proof -
  let ?d = "sec ''.data.STAGE'' 1 1 [''STAGE''] []" and ?b = "sec ''.bss.TICKS'' 8 8 [''TICKS''] [''STAGE'']"
  have pg: "(0 :: nat) < 4096" by simp
  have m: "(Data_hdr, ?d, 0xffffffff80003000) \<in> set example_image" "(Data_hdr, ?b, 0xffffffff80003008) \<in> set example_image"
    by (simp_all add: example_image_def)
  have "Data_hdr = Data_hdr \<and> \<not> (writable_hdr Data_hdr \<and> executable_hdr Data_hdr)"
    by (rule pages_keep_flags [OF pg link_example m, of "0xffffffff80003000" "0xffffffff80003009"]) simp_all
  then show ?thesis
    using link_example m by (intro exI [of _ example_image] exI [of _ Data_hdr] exI [of _ ?d] exI [of _ ?b]
        exI [of _ "0xffffffff80003000"] exI [of _ "0xffffffff80003008"]) simp
qed

text \<open>A section is placed under the header of a statement that selects it.\<close>

lemma layout_selected:
  "(h, s, a) \<in> set (layout pg its c rest) \<Longrightarrow> s \<in> set rest \<and> (\<exists>ss. Output h ss \<in> set its \<and> list_ex (\<lambda>g. selects g s) (map stmt_patterns ss))"
proof (induction pg its c rest rule: layout.induct)
  case (4 pg h' ss its c rest)
  let ?gs = "map stmt_patterns ss"
  obtain ps e rest' where f: "fill ?gs (section_start ?gs c rest) rest = (ps, e, rest')" by (metis prod_cases3)
  note w = fill_within [OF f]
  have "(h = h' \<and> (s, a) \<in> set ps) \<or> (h, s, a) \<in> set (layout pg its e rest')" using 4(2) f by auto
  then show ?case
  proof
    assume "h = h' \<and> (s, a) \<in> set ps"
    moreover from this have "s \<in> set (map fst ps)" by force
    ultimately show ?thesis using w by auto
  next
    assume "(h, s, a) \<in> set (layout pg its e rest')"
    then show ?thesis using 4(1) [OF f [symmetric] refl refl] w by auto
  qed
qed auto

lemma image_selected:
  "link_image pg inputs = Some img \<Longrightarrow> (h, s, a) \<in> set img \<Longrightarrow>
   s \<in> set inputs \<and> (\<exists>ss. Output h ss \<in> set linker_ld \<and> list_ex (\<lambda>g. selects g s) (map stmt_patterns ss))"
  using layout_selected live_sections_subset by (fastforce dest: link_image_SomeD)

text \<open>The request section, statement by statement: the three input statements fill one interval after the other.\<close>

abbreviation starts :: "input_section \<Rightarrow> bool" where "starts s \<equiv> in_name s = ''.limine_requests_start''"
abbreviation requests :: "input_section \<Rightarrow> bool" where "requests s \<equiv> in_name s = ''.limine_requests''"
abbreviation ends :: "input_section \<Rightarrow> bool" where "ends s \<equiv> in_name s = ''.limine_requests_end''"

lemma selects_exact: "selects [Exact n] = (\<lambda>s. in_name s = n)"
  by (simp add: fun_eq_iff selects_def)

lemma image_requests:
  obtains p1 p2 p3 e1 e2 e3 where
    "\<forall>h s a. (h, s, a) \<in> set (layout pg linker_ld 0 inputs) \<longrightarrow> starts s \<or> requests s \<or> ends s \<longrightarrow> h = Requests_hdr \<and> (s, a) \<in> set (p1 @ p2 @ p3)"
    "set (map fst p1) = {s \<in> set inputs. starts s}" "set (map fst p2) = {s \<in> set inputs. requests s}" "set (map fst p3) = {s \<in> set inputs. ends s}"
    "within 0xffffffff80000000 e1 p1" "within e1 e2 p2" "within e2 e3 p3" "e1 \<le> e2"
    "set (map (Pair Requests_hdr) (p1 @ p2 @ p3)) \<subseteq> set (layout pg linker_ld 0 inputs)"
proof -
  let ?gs = "[[Exact ''.limine_requests_start''], [Exact ''.limine_requests''], [Exact ''.limine_requests_end'']]"
  let ?c = "section_start ?gs 0xffffffff80000000 inputs"
  have c: "0xffffffff80000000 \<le> ?c" unfolding section_start_def by (rule align_to_ge)
  obtain p1 e1 where 1: "place ?c (filter starts inputs) = (p1, e1)" by fastforce
  obtain p2 e2 where 2: "place e1 (filter requests (filter (\<lambda>s. \<not> starts s) inputs)) = (p2, e2)" by fastforce
  obtain p3 e3 where 3: "place e2 (filter ends (filter (\<lambda>s. \<not> requests s) (filter (\<lambda>s. \<not> starts s) inputs))) = (p3, e3)" by fastforce
  define rest where "rest = filter (\<lambda>s. \<not> ends s) (filter (\<lambda>s. \<not> requests s) (filter (\<lambda>s. \<not> starts s) inputs))"
  have fill: "fill ?gs ?c inputs = (p1 @ p2 @ p3, e3, rest)"
    using 1 2 3 by (simp add: selects_exact rest_def)
  have img: "layout pg linker_ld 0 inputs = map (\<lambda>(s, a). (Requests_hdr, s, a)) (p1 @ p2 @ p3) @ layout pg (drop 2 linker_ld) e3 rest"
    using fill by (simp add: linker_ld_def)
  have placed: "h = Requests_hdr \<and> (s, a) \<in> set (p1 @ p2 @ p3)"
    if "(h, s, a) \<in> set (layout pg linker_ld 0 inputs)" "starts s \<or> requests s \<or> ends s" for h s a
  proof -
    have "s \<notin> set rest" using that(2) by (auto simp: rest_def)
    then have "(h, s, a) \<notin> set (layout pg (drop 2 linker_ld) e3 rest)" using layout_selected by blast
    then show ?thesis using that(1) unfolding img by auto
  qed
  have "set (map fst p1) = {s \<in> set inputs. starts s}" "set (map fst p2) = {s \<in> set inputs. requests s}"
    "set (map fst p3) = {s \<in> set inputs. ends s}"
    using place_within [OF 1] place_within [OF 2] place_within [OF 3] by auto
  moreover have "within 0xffffffff80000000 e1 p1" "within e1 e2 p2" "within e2 e3 p3" "e1 \<le> e2"
    using place_within [OF 1] place_within [OF 2] place_within [OF 3] within_mono [OF _ c order_refl] by auto
  moreover have "set (map (Pair Requests_hdr) (p1 @ p2 @ p3)) \<subseteq> set (layout pg linker_ld 0 inputs)"
    unfolding img by auto
  ultimately show thesis using placed by (intro that [of p1 p2 p3 e1 e2 e3]) simp_all
qed

text \<open>(C22) The boot loader finds the requests: wherever the linker gets the request statics of \<^verbatim>\<open>boot.rs\<close> and the two markers from, and in
  which order, and although nothing in the program refers to them, every request and both markers are in the image, the request
  in a writable segment and at an address between the end of the start marker and the beginning of the end marker.\<close>

theorem requests_between_markers:
  assumes img: "link_image pg inputs = Some img"
    and "r \<in> set (limine_requests m)" and "s \<in> set inputs" "in_name s = static_section r"
    and "s1 \<in> set inputs" "in_name s1 = static_section (REQUESTS_START m)"
    and "s2 \<in> set inputs" "in_name s2 = static_section (REQUESTS_END m)"
  shows "\<exists>h a a1 a2. (h, s, a) \<in> set img \<and> (h, s1, a1) \<in> set img \<and> (h, s2, a2) \<in> set img \<and> writable_hdr h \<and>
    a1 + in_size s1 \<le> a \<and> a + in_size s \<le> a2 \<and>
    (\<forall>h' a'. (h', s, a') \<in> set img \<longrightarrow> a1 + in_size s1 \<le> a' \<and> a' + in_size s \<le> a2)"
proof -
  have names: "requests s" "starts s1" "ends s2"
    using assms(2,4,6,8) by (auto simp: limine_requests_def REQUESTS_START_def REQUESTS_END_def request_static_def static_section_def)
  let ?live = "live_sections inputs"
  have live: "s \<in> set ?live" "s1 \<in> set ?live" "s2 \<in> set ?live"
    using assms(3,5,7) names by (auto intro!: kept_live simp: linker_ld_def selects_def)
  obtain p1 p2 p3 e1 e2 e3 where p: "\<forall>h s a. (h, s, a) \<in> set img \<longrightarrow> starts s \<or> requests s \<or> ends s \<longrightarrow>
      h = Requests_hdr \<and> (s, a) \<in> set (p1 @ p2 @ p3)"
    "set (map fst p1) = {s \<in> set ?live. starts s}" "set (map fst p2) = {s \<in> set ?live. requests s}" "set (map fst p3) = {s \<in> set ?live. ends s}"
    "within 0xffffffff80000000 e1 p1" "within e1 e2 p2" "within e2 e3 p3" "e1 \<le> e2"
    "set (map (Pair Requests_hdr) (p1 @ p2 @ p3)) \<subseteq> set img"
    unfolding link_image_SomeD [OF img] by (rule image_requests [of pg ?live])
  have in1: "starts t" if "(t, b) \<in> set p1" for t b using p(2) that by force
  have in3: "ends t" if "(t, b) \<in> set p3" for t b using p(4) that by force
  obtain a a1 a2 where a: "(s, a) \<in> set p2" "(s1, a1) \<in> set p1" "(s2, a2) \<in> set p3"
    using p(2-4) live names by force
  have ends: "a1 + in_size s1 \<le> e1" "e2 \<le> a2" using p(5,7) a(2,3) by (auto simp: within_def)
  have "e1 \<le> a' \<and> a' + in_size s \<le> e2" if "(h', s, a') \<in> set img" for h' a'
  proof -
    have "(s, a') \<in> set p2" using p(1) [rule_format, OF that] names(1) in1 in3 by fastforce
    then show ?thesis using p(6) by (auto simp: within_def)
  qed
  with ends have between: "a1 + in_size s1 \<le> a' \<and> a' + in_size s \<le> a2" if "(h', s, a') \<in> set img" for h' a'
    using that by (meson le_trans)
  have img: "(Requests_hdr, s, a) \<in> set img" "(Requests_hdr, s1, a1) \<in> set img" "(Requests_hdr, s2, a2) \<in> set img"
    using p(9) a by auto
  have "writable_hdr Requests_hdr" by (simp add: writable_hdr_def)
  with img between show ?thesis by blast
qed

theorem requests_between_markers_witness:
  "\<exists>h a a1 a2. link_image 4096 example_inputs = Some example_image \<and> (h, sec ''.limine_requests'' 48 8 [''HHDM_REQUEST''] [], a) \<in> set example_image \<and>
     (h, sec ''.limine_requests_start'' 32 8 [''REQUESTS_START''] [], a1) \<in> set example_image \<and> a1 + 32 \<le> a \<and> a + 48 \<le> a2 \<and> writable_hdr h"
proof -
  have r: "request_static True ''HHDM_REQUEST'' ''.limine_requests'' \<in> set (limine_requests True)" by (simp add: limine_requests_def)
  let ?s = "sec ''.limine_requests'' 48 8 [''HHDM_REQUEST''] []" and ?s1 = "sec ''.limine_requests_start'' 32 8 [''REQUESTS_START''] []"
    and ?s2 = "sec ''.limine_requests_end'' 16 8 [''REQUESTS_END''] []"
  have i: "?s \<in> set example_inputs" "?s1 \<in> set example_inputs" "?s2 \<in> set example_inputs" by (simp_all add: example_inputs_def)
  have n: "in_name ?s = static_section (request_static True ''HHDM_REQUEST'' ''.limine_requests'')"
    "in_name ?s1 = static_section (REQUESTS_START True)" "in_name ?s2 = static_section (REQUESTS_END True)"
    by (simp_all add: static_section_def request_static_def REQUESTS_START_def REQUESTS_END_def)
  from requests_between_markers [OF link_example r i(1) n(1) i(2) n(2) i(3) n(3)] link_example show ?thesis by auto
qed

text \<open>The heap array and the double fault stack are constant data: they only ever get the header of \<^verbatim>\<open>.rodata\<close>, whose pages are
  not writable.\<close>

lemma heap_and_stack_read_only:
  assumes "link_image pg inputs = Some img" "(h, s, a) \<in> set img" and "r \<in> {double_fault_STACK, HEAP_SPACE}" and "in_name s = static_section r"
  shows "\<not> writable_hdr h"
proof -
  have n: "in_name s = ''.rodata.STACK'' \<or> in_name s = ''.rodata.HEAP_SPACE''"
    using assms(3,4) by (auto simp: static_section_def double_fault_STACK_def HEAP_SPACE_def plain_static_def)
  have "h = Rodata_hdr" using image_selected [OF assms(1,2)] n by (auto simp: linker_ld_def selects_def)
  then show ?thesis by (simp add: writable_hdr_def)
qed

end
