(* ===== verification/Xtask_Texts.thy ===== *)
theory Xtask_Texts
  imports Xtask_Checks
begin

text \<open>
  The text handling of the build tool: numeric settings from the environment, the tail of the serial log
  that its error messages quote, the names of keys, and the screen dump check.
\<close>

section \<open>Numeric settings\<close>

lemma digits_value_append: "digits_value (ds @ [c]) = digits_value ds * 10 + (c - 0x30)"
  by (simp add: digits_value_def)

lemma display_nat_digits: "list_all is_digit (display_nat n)" "display_nat n \<noteq> []" "digits_value (display_nat n) = n"
proof -
  have "list_all is_digit (display_nat n) \<and> display_nat n \<noteq> [] \<and> digits_value (display_nat n) = n"
  proof (induction n rule: less_induct)
    case (less n)
    show ?case
    proof (cases "n < 10")
      case True
      then show ?thesis by (simp add: display_nat.simps [of n] digits_value_def is_digit_def)
    next
      case False
      have "display_nat n = display_nat (n div 10) @ [0x30 + n mod 10]"
        using False display_nat.simps [of n] by simp
      moreover have "n mod 10 < 10" by simp
      ultimately show ?thesis
        using less.IH [of "n div 10"] False by (simp only: digits_value_append) (simp add: is_digit_def)
    qed
  qed
  then show "list_all is_digit (display_nat n)" "display_nat n \<noteq> []" "digits_value (display_nat n) = n" by blast+
qed

lemma parse_display: "n < b \<Longrightarrow> parse_uint b (display_nat n) = Some n"
proof -
  assume "n < b"
  obtain c cs where c: "display_nat n = c # cs" using display_nat_digits(2) [of n] by (cases "display_nat n") auto
  then have "c \<noteq> 0x2B" using display_nat_digits(1) [of n] by (auto simp: is_digit_def)
  then have "(case display_nat n of [] \<Rightarrow> [] | c # cs \<Rightarrow> if c = 0x2B then cs else display_nat n) = display_nat n" using c by simp
  then show ?thesis using \<open>n < b\<close> display_nat_digits [of n] by (simp add: parse_uint_def)
qed

lemma parse_uint_bound: "parse_uint b s = Some n \<Longrightarrow> n < b"
  by (auto simp: parse_uint_def Let_def split: if_splits)

definition setting :: "nat \<Rightarrow> nat \<Rightarrow> rstr option \<Rightarrow> nat" where
  "setting b d v = (case Option.bind (Option.bind v (parse_uint b)) positive of Some n \<Rightarrow> n | None \<Rightarrow> d)"

lemma setting_range: "0 < d \<Longrightarrow> d < b \<Longrightarrow> 0 < setting b d v \<and> setting b d v < b"
  by (auto simp: setting_def positive_def split: option.split bind_splits dest: parse_uint_bound)

lemma setting_number: "0 < n \<Longrightarrow> n < b \<Longrightarrow> setting b d (Some (display_nat n)) = n"
  by (simp add: setting_def parse_display positive_def)

lemma setting_default: "v \<in> {None, Some (lit ''0''), Some []} \<Longrightarrow> setting b d v = d"
  by (auto simp: setting_def positive_def parse_uint_def lit_def digits_value_def split: bind_splits if_splits)

lemma settings_eq:
  "boot_timeout_secs m = setting (2 ^ 64) 20 (env_var m (lit ''AETHER_BOOT_TIMEOUT_SECS''))"
  "qemu_monitor_port m = setting (2 ^ 16) 45454 (env_var m (lit ''AETHER_QEMU_MONITOR_PORT''))"
  unfolding boot_timeout_secs_def qemu_monitor_port_def setting_def DEFAULT_BOOT_TIMEOUT_SECS_def DEFAULT_MONITOR_PORT_def
  by (rule refl)+

text \<open>(C36) The numeric settings are always usable: the boot timeout is a positive number of seconds that fits
  64 bits, the monitor port a positive number that fits 16 bits, whatever the environment holds; a decimal
  number in that range is taken as it is, and a variable that is unset, zero or no such number means the default.\<close>

theorem numeric_settings:
  "0 < boot_timeout_secs m \<and> boot_timeout_secs m < 2 ^ 64 \<and> 0 < qemu_monitor_port m \<and> qemu_monitor_port m < 2 ^ 16 \<and>
   (\<forall>n. 0 < n \<and> n < 2 ^ 64 \<and> env_var m (lit ''AETHER_BOOT_TIMEOUT_SECS'') = Some (display_nat n) \<longrightarrow> boot_timeout_secs m = n) \<and>
   (\<forall>n. 0 < n \<and> n < 2 ^ 16 \<and> env_var m (lit ''AETHER_QEMU_MONITOR_PORT'') = Some (display_nat n) \<longrightarrow> qemu_monitor_port m = n) \<and>
   (env_var m (lit ''AETHER_BOOT_TIMEOUT_SECS'') \<in> {None, Some (lit ''0''), Some []} \<longrightarrow> boot_timeout_secs m = 20) \<and>
   (env_var m (lit ''AETHER_QEMU_MONITOR_PORT'') \<in> {None, Some (lit ''0''), Some []} \<longrightarrow> qemu_monitor_port m = 45454)"
proof -
  have "(20 :: nat) < 2 ^ 64" "(45454 :: nat) < 2 ^ 16" by simp_all
  then have r: "0 < setting (2 ^ 64) 20 v \<and> setting (2 ^ 64) 20 v < 2 ^ 64" "0 < setting (2 ^ 16) 45454 v \<and> setting (2 ^ 16) 45454 v < 2 ^ 16" for v
    using setting_range by (metis zero_less_numeral)+
  show ?thesis unfolding settings_eq
    by (intro conjI allI impI setting_default) (use r in \<open>auto simp only: setting_number\<close>)
qed

definition settings_machine :: machine where
  "settings_machine = example_machine\<lparr>env := [lit ''AETHER_BOOT_TIMEOUT_SECS'' \<mapsto> os_lit ''7'']\<rparr>"

lemma settings_env: "env_var settings_machine (lit ''AETHER_BOOT_TIMEOUT_SECS'') = Some (display_nat 7)"
  "env_var settings_machine (lit ''AETHER_QEMU_MONITOR_PORT'') = None"
  by (simp_all add: env_var_def settings_machine_def to_str_def to_string_lossy_def os_def lit_def display_nat.simps comp_def)

theorem numeric_settings_witness: "boot_timeout_secs settings_machine = 7 \<and> qemu_monitor_port settings_machine = 45454"
proof -
  have "(0 :: nat) < 7" "(7 :: nat) < 2 ^ 64" by simp_all
  then show ?thesis using numeric_settings [of settings_machine] unfolding settings_env by blast
qed

section \<open>The tail of the log\<close>

lemma strip_cr_crlf: "strip_cr (l @ [0x0D]) = l"
  by (simp add: strip_cr_def)

lemma str_lines_crlf:
  assumes "\<forall>l \<in> set ls. 0x0A \<notin> set l"
  shows "str_lines (concat (map (\<lambda>l. l @ [0x0D, 0x0A]) ls)) = ls"
  using assms
proof (induction ls)
  case Nil
  then show ?case by (simp add: str_lines.simps)
next
  case (Cons l ls)
  let ?rest = "concat (map (\<lambda>l. l @ [0x0D, 0x0A]) ls)"
  have "\<forall>c \<in> set (l @ [0x0D]). c \<noteq> 0x0A" using Cons.prems by auto
  then have "dropWhile (\<lambda>c. c \<noteq> 0x0A) ((l @ [0x0D]) @ 0x0A # ?rest) = 0x0A # ?rest"
    "takeWhile (\<lambda>c. c \<noteq> 0x0A) ((l @ [0x0D]) @ 0x0A # ?rest) = l @ [0x0D]"
    using dropWhile_append2 [of "l @ [0x0D]" "\<lambda>c. c \<noteq> 0x0A" "0x0A # ?rest"] takeWhile_append2 [of "l @ [0x0D]" "\<lambda>c. c \<noteq> 0x0A" "0x0A # ?rest"]
    by auto
  then show ?case using Cons by (simp add: str_lines.simps [of "l @ 0x0D # 0x0A # ?rest"] strip_cr_crlf)
qed

text \<open>The tail of the log that an error message quotes is the last lines of what the kernel printed: of a
  log in which every line ends with the carriage return and line feed of the serial driver, it is the
  last \<open>n\<close> lines without the carriage returns, joined by line feeds (all lines when there are fewer).\<close>

theorem log_tail_is_last_lines:
  assumes "h_files (pass m (pass m h)) log = Some (File (as_bytes (concat (map (\<lambda>l. l @ [0x0D, 0x0A]) ls))))"
    and "h_files (pass m h) log \<noteq> None" and "\<forall>l \<in> set ls. 0x0A \<notin> set l \<and> valid_str l" and "\<forall>n. fault m n = None"
  shows "\<exists>h'. tail_lines m log n h = Some (Inr (str_join [0x0A] (drop (length ls - n) ls)), h')"
proof -
  have "valid_str (concat (map (\<lambda>l. l @ [0x0D, 0x0A]) ls))"
    using assms(3) by (auto simp: valid_str_def list_all_iff scalar_def)
  with assms show ?thesis
    by (simp add: tail_lines_def xbind_def xpure_simp path_exists_def xtry_def read_to_string_def io_bind_def read_file_def
        os_call_def last_lines_def str_lines_crlf)
qed

theorem log_tail_is_last_lines_witness:
  "\<exists>h h'. h_files h (os_lit ''/log'') \<noteq> None \<and>
     tail_lines example_machine (os_lit ''/log'') 2 h = Some (Inr (lit ''b'' @ [0x0A] @ lit ''c''), h')"
proof -
  let ?ls = "[lit ''a'', lit ''b'', lit ''c'']"
  let ?h = "example_host\<lparr>h_files := [os_lit ''/log'' \<mapsto> File (as_bytes (concat (map (\<lambda>l. l @ [0x0D, 0x0A]) ?ls)))]\<rparr>"
  have h: "h_files (pass example_machine g) = h_files g" for g by (simp add: pass_def)
  have ls: "\<forall>l \<in> set ?ls. 0x0A \<notin> set l \<and> valid_str l" by (simp add: lit_def valid_str_def scalar_def)
  have "\<exists>h'. tail_lines example_machine (os_lit ''/log'') 2 ?h = Some (Inr (str_join [0x0A] (drop (length ?ls - 2) ?ls)), h')"
    by (rule log_tail_is_last_lines [OF _ _ ls]) (simp_all add: h)
  moreover have "h_files ?h (os_lit ''/log'') \<noteq> None" by simp
  moreover have "str_join [0x0A] (drop (length ?ls - 2) ?ls) = lit ''b'' @ [0x0A] @ lit ''c''" by simp
  ultimately show ?thesis by metis
qed

end
