(* ===== verification/Qemu_Keys.thy ===== *)
theory Qemu_Keys
  imports Keyboard Xtask_Texts
begin

text \<open>
  The keys the build tool presses: the names it hands to the monitor command \<^verbatim>\<open>sendkey\<close> of QEMU, and the
  characters that the kernel's keyboard driver makes of the scan codes QEMU documents for them.
\<close>

unbundle bit_operations_syntax

section \<open>Keys of the QEMU monitor\<close>

text \<open>What QEMU's \<^verbatim>\<open>sendkey\<close> documents: a key is named as on a US keyboard and produces the scan codes (set 1) of its press and
  release; \<^verbatim>\<open>shift-\<close> holds the left shift key meanwhile.  These are the keys the tool uses.\<close>

definition pc_keys :: "(string \<times> u8) list" where
  "pc_keys =
    [(''1'', 0x02), (''2'', 0x03), (''3'', 0x04), (''4'', 0x05), (''5'', 0x06), (''6'', 0x07), (''7'', 0x08), (''8'', 0x09),
     (''9'', 0x0A), (''0'', 0x0B), (''minus'', 0x0C), (''equal'', 0x0D),
     (''q'', 0x10), (''w'', 0x11), (''e'', 0x12), (''r'', 0x13), (''t'', 0x14), (''y'', 0x15), (''u'', 0x16), (''i'', 0x17),
     (''o'', 0x18), (''p'', 0x19), (''bracket_left'', 0x1A), (''bracket_right'', 0x1B), (''ret'', 0x1C),
     (''a'', 0x1E), (''s'', 0x1F), (''d'', 0x20), (''f'', 0x21), (''g'', 0x22), (''h'', 0x23), (''j'', 0x24), (''k'', 0x25),
     (''l'', 0x26), (''semicolon'', 0x27), (''apostrophe'', 0x28), (''backslash'', 0x2B),
     (''z'', 0x2C), (''x'', 0x2D), (''c'', 0x2E), (''v'', 0x2F), (''b'', 0x30), (''n'', 0x31), (''m'', 0x32),
     (''comma'', 0x33), (''dot'', 0x34), (''slash'', 0x35), (''spc'', 0x39)]"

definition pc_code :: "rstr \<Rightarrow> u8 option" where
  "pc_code name = map_of (map (\<lambda>(n, c). (lit n, c)) pc_keys) name"

definition qemu_keys :: "(rstr \<Rightarrow> u8 list) \<Rightarrow> bool" where
  "qemu_keys sendkey \<longleftrightarrow> (\<forall>name code. pc_code name = Some code \<longrightarrow>
     sendkey name = press code \<and> sendkey (lit ''shift-'' @ name) = [0x2A] @ press code @ [0xAA])"

definition supported_chars :: "rchar list" where
  "supported_chars = [0x61..<0x7B] @ [0x30..<0x3A] @ [0x41..<0x5B] @ [0x20, 0x2D, 0x3D, 0x5B, 0x5D, 0x3B, 0x27, 0x2C, 0x2E, 0x2F, 0x5C]"

lemma supported_iff: "(\<exists>name. qemu_sendkey_name m c = Inr name) = (c \<in> set supported_chars)"
proof -
  have "(\<exists>name. qemu_sendkey_name m c = Inr name) \<longleftrightarrow> 0x61 \<le> c \<and> c \<le> 0x7A \<or> 0x30 \<le> c \<and> c \<le> 0x39 \<or> 0x41 \<le> c \<and> c \<le> 0x5A \<or>
      c \<in> {0x20, 0x2D, 0x3D, 0x5B, 0x5D, 0x3B, 0x27, 0x2C, 0x2E, 0x2F, 0x5C}"
    by (simp add: qemu_sendkey_name_def)
  also have "\<dots> \<longleftrightarrow> c \<in> set supported_chars"
    unfolding supported_chars_def set_append set_upt Un_iff atLeastLessThan_iff list.set by linarith
  finally show ?thesis .
qed

text \<open>The key that a name stands for types the character, with or without shift.\<close>

definition types_char :: "rchar \<Rightarrow> rstr \<Rightarrow> bool" where
  "types_char c name =
     (let shift = take 6 name = lit ''shift-''; base = (if shift then drop 6 name else name) in
      case pc_code base of
        None \<Rightarrow> False
      | Some code \<Rightarrow> (case map_of key_arms code of None \<Rightarrow> False | Some a \<Rightarrow> arm_char a shift = c))"

lemma pc_rows: "map (\<lambda>(n, c). (lit n, c)) pc_keys =
    [([0x31], 0x02), ([0x32], 0x03), ([0x33], 0x04), ([0x34], 0x05), ([0x35], 0x06), ([0x36], 0x07), ([0x37], 0x08),
     ([0x38], 0x09), ([0x39], 0x0A), ([0x30], 0x0B), ([0x6d, 0x69, 0x6e, 0x75, 0x73], 0x0C),
     ([0x65, 0x71, 0x75, 0x61, 0x6c], 0x0D), ([0x71], 0x10), ([0x77], 0x11), ([0x65], 0x12), ([0x72], 0x13),
     ([0x74], 0x14), ([0x79], 0x15), ([0x75], 0x16), ([0x69], 0x17), ([0x6f], 0x18), ([0x70], 0x19),
     ([0x62, 0x72, 0x61, 0x63, 0x6b, 0x65, 0x74, 0x5f, 0x6c, 0x65, 0x66, 0x74], 0x1A),
     ([0x62, 0x72, 0x61, 0x63, 0x6b, 0x65, 0x74, 0x5f, 0x72, 0x69, 0x67, 0x68, 0x74], 0x1B), ([0x72, 0x65, 0x74], 0x1C),
     ([0x61], 0x1E), ([0x73], 0x1F), ([0x64], 0x20), ([0x66], 0x21), ([0x67], 0x22), ([0x68], 0x23), ([0x6a], 0x24),
     ([0x6b], 0x25), ([0x6c], 0x26), ([0x73, 0x65, 0x6d, 0x69, 0x63, 0x6f, 0x6c, 0x6f, 0x6e], 0x27),
     ([0x61, 0x70, 0x6f, 0x73, 0x74, 0x72, 0x6f, 0x70, 0x68, 0x65], 0x28),
     ([0x62, 0x61, 0x63, 0x6b, 0x73, 0x6c, 0x61, 0x73, 0x68], 0x2B), ([0x7a], 0x2C), ([0x78], 0x2D), ([0x63], 0x2E),
     ([0x76], 0x2F), ([0x62], 0x30), ([0x6e], 0x31), ([0x6d], 0x32), ([0x63, 0x6f, 0x6d, 0x6d, 0x61], 0x33),
     ([0x64, 0x6f, 0x74], 0x34), ([0x73, 0x6c, 0x61, 0x73, 0x68], 0x35), ([0x73, 0x70, 0x63], 0x39)]"
  by (simp add: pc_keys_def lit_def)

lemmas pc_code_table = pc_code_def [unfolded pc_rows]

lemmas key_table = qemu_sendkey_name_def types_char_def pc_code_table lit_def key_arms_def alpha_def to_ascii_uppercase_def upt_rec

abbreviation named_right :: "rchar \<Rightarrow> bool" where
  "named_right c \<equiv> (case qemu_sendkey_name example_machine c of Inl _ \<Rightarrow> False | Inr name \<Rightarrow> types_char c name)"

lemma letters_named: "list_all named_right [0x61..<0x7B]"
  by (simp add: key_table)

lemma digits_named: "list_all named_right [0x30..<0x3A]"
  by (simp add: key_table)

lemma capitals_named: "list_all named_right [0x41..<0x5B]"
  by (simp add: key_table)

lemma others_named: "list_all named_right [0x20, 0x2D, 0x3D, 0x5B, 0x5D, 0x3B, 0x27, 0x2C, 0x2E, 0x2F, 0x5C]"
  by (simp add: key_table)

lemma names_type_chars: "list_all named_right supported_chars"
  unfolding supported_chars_def list_all_append by (intro conjI letters_named digits_named capitals_named others_named)

lemma sendkey_name_types:
  assumes "qemu_sendkey_name m c = Inr name"
  shows "types_char c name"
proof -
  have e: "qemu_sendkey_name example_machine c = Inr name"
    using assms unfolding qemu_sendkey_name_def by (auto split: if_splits)
  have "c \<in> set supported_chars" using assms supported_iff by blast
  with names_type_chars e show ?thesis by (auto simp: list_all_iff split: sum.splits)
qed

text \<open>A keyboard that follows the documentation.\<close>

definition documented_keys :: "rstr \<Rightarrow> u8 list" where
  "documented_keys name = (if take 6 name = lit ''shift-'' then
      (case pc_code (drop 6 name) of Some code \<Rightarrow> [0x2A] @ press code @ [0xAA] | None \<Rightarrow> [])
    else (case pc_code name of Some code \<Rightarrow> press code | None \<Rightarrow> []))"

lemma documented_keys_ok: "qemu_keys documented_keys"
proof -
  have "take 6 name \<noteq> lit ''shift-''" if "pc_code name = Some code" for name code
  proof -
    have "list_all (\<lambda>(n, _). take 6 (lit n) \<noteq> lit ''shift-'') pc_keys" by (simp add: pc_keys_def lit_def)
    moreover have "\<exists>n. name = lit n \<and> (n, code) \<in> set pc_keys" using map_of_SomeD [OF that [unfolded pc_code_def]] by auto
    ultimately show ?thesis by (auto simp: list_all_iff)
  qed
  then show ?thesis unfolding qemu_keys_def documented_keys_def by (auto simp: lit_def split: option.splits)
qed

text \<open>(C26) Key names round trip: for every character the tool can send, the scan codes that QEMU documents for the
  name the tool chooses make the kernel's keyboard driver report exactly that character and leave the driver as it was;
  the tool supports the letters, the digits and eleven punctuation characters.\<close>

theorem sendkey_types_character:
  assumes "qemu_keys sendkey" and "kbd_initialized kb" and "\<not> shift_pressed kb"
  shows "(\<exists>name. qemu_sendkey_name m c = Inr name) = (c \<in> set supported_chars) \<and>
    (\<forall>name. qemu_sendkey_name m c = Inr name \<longrightarrow> key_run (sendkey name) kb = ([Char_event c], kb))"
proof (intro conjI supported_iff allI impI)
  fix name assume n: "qemu_sendkey_name m c = Inr name"
  show "key_run (sendkey name) kb = ([Char_event c], kb)"
  proof (cases "take 6 name = lit ''shift-''")
    case True
    then obtain code a where a: "pc_code (drop 6 name) = Some code" "map_of key_arms code = Some a" "arm_char a True = c"
      using sendkey_name_types [OF n] by (auto simp: types_char_def Let_def split: option.splits)
    have "name = lit ''shift-'' @ drop 6 name" using True append_take_drop_id [of 6 name] by simp
    then have send: "sendkey name = [0x2A] @ press code @ [0xAA]" using assms(1) a(1) unfolding qemu_keys_def by metis
    let ?k = "kb\<lparr>shift_pressed := True\<rparr>"
    have "key_run (press code) ?k = ([Char_event c], ?k)" using press_run [OF map_of_SomeD [OF a(2)], of ?k] assms(2) a(3) by simp
    then show ?thesis
      using assms(2,3) unfolding send by (simp add: key_run_append on_interrupt_def decode_scancode_def)
  next
    case False
    then obtain code a where a: "pc_code name = Some code" "map_of key_arms code = Some a" "arm_char a False = c"
      using sendkey_name_types [OF n] by (auto simp: types_char_def Let_def split: option.splits)
    then have "sendkey name = press code" using assms(1) unfolding qemu_keys_def by blast
    then show ?thesis using press_run [OF map_of_SomeD [OF a(2)], of kb] assms(2,3) a(3) by simp
  qed
qed

theorem sendkey_types_character_witness:
  "qemu_keys documented_keys \<and> qemu_sendkey_name example_machine 0x48 = Inr (lit ''shift-h'') \<and>
     key_run (documented_keys (lit ''shift-h'')) (keyboard_initialize keyboard_static) = ([Char_event 0x48], keyboard_initialize keyboard_static)"
proof -
  have "qemu_sendkey_name example_machine 0x48 = Inr (lit ''shift-h'')" by (simp add: qemu_sendkey_name_def lit_def)
  with sendkey_types_character [OF documented_keys_ok, of "keyboard_initialize keyboard_static" example_machine "0x48"] documented_keys_ok
  show ?thesis by (auto simp: keyboard_initialize_def keyboard_static_def)
qed

end
