(* ===== verification/Serial_Wire.thy ===== *)
theory Serial_Wire
  imports Serial
begin

text \<open>
  The public functions of \<^verbatim>\<open>arch/x86_64/serial.rs\<close> over the static \<open>SERIAL1\<close>, and the UART on the other
  side of the ports.  The driver and the device meet here: whatever is printed after \<open>init\<close> leaves
  the machine as bytes, and the bytes that program the baud rate do not.
\<close>

unbundle bit_operations_syntax

section \<open>The static port\<close>

text \<open>\<open>SERIAL1\<close> is a \<open>Once\<close> cell: the first caller of \<open>serial_port\<close> fills it.\<close>

record serial_state =
  SERIAL1_cell :: "SerialPort option"
  serial_dev :: serial_io

definition serial_static :: serial_state where
  "serial_static = \<lparr>SERIAL1_cell = None, serial_dev = \<lparr>bus = [], status_reads = 0\<rparr>\<rparr>"

definition serial_port :: "serial_state \<Rightarrow> (SerialPort \<times> serial_state) res" where
  "serial_port st =
     (case SERIAL1_cell st of
        Some s \<Rightarrow> Inr (s, st)
      | None \<Rightarrow> rbind (SerialPort_new COM1_BASE) (\<lambda>s. Inr (s, st\<lparr>SERIAL1_cell := Some s\<rparr>)))"

definition serial_init :: "serial_state \<Rightarrow> serial_state res" where
  "serial_init st =
     rbind (serial_port st) (\<lambda>(s, st1). Inr (st1\<lparr>serial_dev := SerialPort_init s (serial_dev st1)\<rparr>))"

definition serial_write_fmt :: "(nat \<Rightarrow> u8) \<Rightarrow> rstr list \<Rightarrow> serial_state \<Rightarrow> serial_state option res" where
  "serial_write_fmt dev ts st =
     rbind (serial_port st) (\<lambda>(s, st1).
       Inr (map_option (\<lambda>io. st1\<lparr>serial_dev := io\<rparr>) (write_fmt dev s ts (serial_dev st1))))"

text \<open>A run of the kernel as the driver sees it: \<open>init\<close>, then one \<open>write_fmt\<close> after the other.\<close>

fun serial_prints :: "(nat \<Rightarrow> u8) \<Rightarrow> rstr list list \<Rightarrow> serial_state \<Rightarrow> serial_state option res" where
  "serial_prints dev [] st = Inr (Some st)"
| "serial_prints dev (ts # tss) st =
     rbind (serial_write_fmt dev ts st) (\<lambda>r. case r of None \<Rightarrow> Inr None | Some st1 \<Rightarrow> serial_prints dev tss st1)"

definition serial_session :: "(nat \<Rightarrow> u8) \<Rightarrow> rstr list list \<Rightarrow> serial_state option res" where
  "serial_session dev tss = rbind (serial_init serial_static) (serial_prints dev tss)"

section \<open>The device\<close>

text \<open>The registers of a 16550 at COM1 that decide where a byte goes.  While bit 7 of the line control register
  is set, the first two ports are the divisor latch.  The transmitter takes a byte only when it is empty, which is known only
  from a read of the line status register that says so; a byte written to it at any other time is lost.\<close>

record uart =
  uart_lcr :: u8
  uart_divisor_low :: u8
  uart_divisor_high :: u8
  uart_ier :: u8
  uart_empty :: bool
  uart_sent :: "u8 list"

definition dlab :: "uart \<Rightarrow> bool" where
  "dlab u \<longleftrightarrow> uart_lcr u AND 0x80 \<noteq> 0"

definition uart_transmit :: "u8 \<Rightarrow> uart \<Rightarrow> uart" where
  "uart_transmit b u = (if uart_empty u then u\<lparr>uart_sent := uart_sent u @ [b], uart_empty := False\<rparr> else u)"

fun uart_access :: "bus_event \<Rightarrow> uart \<Rightarrow> uart" where
  "uart_access (StatusRead st) u = u\<lparr>uart_empty := (st AND 0x20 \<noteq> 0)\<rparr>"
| "uart_access (PortWrite p b) u =
     (if p = 0x3F8 then (if dlab u then u\<lparr>uart_divisor_low := b\<rparr> else uart_transmit b u)
      else if p = 0x3F9 then (if dlab u then u\<lparr>uart_divisor_high := b\<rparr> else u\<lparr>uart_ier := b\<rparr>)
      else if p = 0x3FB then u\<lparr>uart_lcr := b\<rparr>
      else u)"

definition uart_run :: "bus_event list \<Rightarrow> uart \<Rightarrow> uart" where
  "uart_run evs u = fold uart_access evs u"

section \<open>What leaves the machine\<close>

definition com1 :: SerialPort where
  "com1 = \<lparr>data = 0x3F8, interrupt_enable = 0x3F9, fifo_control = 0x3FA, line_control = 0x3FB,
     modem_control = 0x3FC, line_status = 0x3FD\<rparr>"

lemma new_com1: "SerialPort_new COM1_BASE = Inr com1"
  by (simp add: SerialPort_new_def COM1_BASE_def add_chk_def com1_def)

lemma uart_run_simps [simp]: "uart_run [] u = u" "uart_run (e # es) u = uart_run es (uart_access e u)"
  "uart_run (as @ bs) u = uart_run bs (uart_run as u)"
  by (simp_all add: uart_run_def)

text \<open>The registers other than the transmitter.\<close>

definition line_setup :: "uart \<Rightarrow> uart" where
  "line_setup u = u\<lparr>uart_empty := False, uart_sent := []\<rparr>"

lemma polls_setup: "line_setup (uart_run (map StatusRead ps) u) = line_setup u" "uart_sent (uart_run (map StatusRead ps) u) = uart_sent u"
  by (induction ps arbitrary: u) (simp_all add: line_setup_def)

lemma dlab_setup: "line_setup u = line_setup v \<Longrightarrow> dlab u = dlab v"
  by (cases u; cases v) (simp add: line_setup_def dlab_def)

lemma sends_reach_wire:
  "sends com1 bs evs \<Longrightarrow> \<not> dlab u \<Longrightarrow>
   uart_sent (uart_run evs u) = uart_sent u @ bs \<and> line_setup (uart_run evs u) = line_setup u"
proof (induction arbitrary: u rule: sends.induct)
  case (sends_Cons st bs evs b ps)
  let ?v = "uart_run (map StatusRead ps) u"
  let ?w = "?v\<lparr>uart_sent := uart_sent ?v @ [b], uart_empty := False\<rparr>"
  have ready: "st AND 0x20 \<noteq> 0" using sends_Cons.hyps(1) by (simp add: LINE_STATUS_TRANSMITTER_EMPTY_def)
  have same: "line_setup ?w = line_setup u" using polls_setup(1) [of ps u] by (simp add: line_setup_def)
  then have latch: "\<not> dlab ?w" using dlab_setup sends_Cons.prems by blast
  then have v: "\<not> dlab (?v\<lparr>uart_empty := True\<rparr>)" by (simp add: dlab_def)
  have "uart_run (map StatusRead ps @ [StatusRead st, PortWrite (data com1) b] @ evs) u = uart_run evs ?w"
    using ready v by (simp add: com1_def uart_transmit_def)
  then show ?case using sends_Cons.IH [OF latch] same polls_setup(2) [of ps u] by simp
qed simp

lemma serial_prints_spec:
  assumes "drains dev"
  shows "SERIAL1_cell st = Some com1 \<Longrightarrow> \<exists>st' evs. serial_prints dev tss st = Inr (Some st') \<and>
    bus (serial_dev st') = bus (serial_dev st) @ evs \<and> sends com1 (crlf (as_bytes (concat (concat tss)))) evs"
proof (induction tss arbitrary: st)
  case Nil
  then show ?case by (auto intro: sends_Nil)
next
  case (Cons ts tss)
  obtain io es where io: "write_fmt dev com1 ts (serial_dev st) = Some io" "bus io = bus (serial_dev st) @ es"
    "sends com1 (crlf (as_bytes (concat ts))) es"
    using write_fmt_printed [OF assms, of com1 ts "serial_dev st"] by (auto simp: printed_def)
  let ?st = "st\<lparr>serial_dev := io\<rparr>"
  have "serial_write_fmt dev ts st = Inr (Some ?st)"
    using Cons.prems io(1) by (simp add: serial_write_fmt_def serial_port_def)
  moreover have "SERIAL1_cell ?st = Some com1" using Cons.prems by simp
  then obtain st' fs where "serial_prints dev tss ?st = Inr (Some st')" "bus (serial_dev st') = bus io @ fs"
    "sends com1 (crlf (as_bytes (concat (concat tss)))) fs"
    using Cons.IH [of ?st] by auto
  ultimately show ?case using io(2) sends_append [OF io(3)] by auto
qed

lemma session_sends:
  assumes "drains dev"
  shows "\<exists>st v. serial_session dev tss = Inr (Some st) \<and> v = uart_run (bus (serial_dev st)) u \<and>
    uart_sent v = uart_sent u @ crlf (as_bytes (concat (concat tss))) \<and> uart_lcr v = 3 \<and>
    uart_divisor_low v = 3 \<and> uart_divisor_high v = 0"
proof -
  let ?io = "SerialPort_init com1 \<lparr>bus = [], status_reads = 0\<rparr>"
  let ?st = "\<lparr>SERIAL1_cell = Some com1, serial_dev = ?io\<rparr>"
  have init: "serial_init serial_static = Inr ?st"
    by (simp add: serial_init_def serial_port_def serial_static_def new_com1)
  obtain st evs where st: "serial_prints dev tss ?st = Inr (Some st)" "bus (serial_dev st) = bus ?io @ evs"
    "sends com1 (crlf (as_bytes (concat (concat tss)))) evs"
    using serial_prints_spec [OF assms, of ?st tss] by auto
  let ?u = "uart_run (bus ?io) u"
  have set_up: "uart_lcr ?u = 3" "uart_divisor_low ?u = 3" "uart_divisor_high ?u = 0" "uart_sent ?u = uart_sent u"
    by (simp_all add: SerialPort_init_def port_write_def com1_def dlab_def)
  then have "\<not> dlab ?u" by (simp add: dlab_def)
  note wire = sends_reach_wire [OF st(3) this]
  from wire have "line_setup (uart_run evs ?u) = line_setup ?u" by simp
  then have "uart_lcr (uart_run evs ?u) = 3" "uart_divisor_low (uart_run evs ?u) = 3" "uart_divisor_high (uart_run evs ?u) = 0"
    using set_up(1-3) by (cases "uart_run evs ?u"; cases ?u; simp add: line_setup_def)+
  then show ?thesis using init st(1,2) wire set_up(4) by (simp add: serial_session_def)
qed

text \<open>(C20) From the print statements to the wire: after \<open>init\<close>, whatever state the UART was in, a transmitter that keeps
  draining lets every print return, and the bytes that leave the machine are the UTF-8 encoding of all printed
  pieces in order with a carriage return before each line feed, none of them lost to a busy transmitter; the divisor is 3, the
  format eight data bits with the latch closed, and no byte of the set-up leaves the machine.\<close>

theorem prints_reach_wire:
  assumes "drains dev"
  shows "\<exists>st v. serial_session dev tss = Inr (Some st) \<and> v = uart_run (bus (serial_dev st)) u \<and>
    uart_sent v = uart_sent u @ crlf (as_bytes (concat (concat tss))) \<and> uart_lcr v = 3 \<and>
    uart_divisor_low v = 3 \<and> uart_divisor_high v = 0"
  by (rule session_sends [OF assms])

theorem prints_reach_wire_witness:
  "\<exists>st. serial_session (\<lambda>n. if even n then 0x20 else 0) [[lit ''o'', lit ''k''], [[0x0A]]] = Inr (Some st) \<and>
     uart_sent (uart_run (bus (serial_dev st))
       \<lparr>uart_lcr = 0x80, uart_divisor_low = 1, uart_divisor_high = 0, uart_ier = 0, uart_empty = True, uart_sent = []\<rparr>) = [0x6F, 0x6B, 0x0D, 0x0A]"
  using prints_reach_wire [OF alternating_drains, of "[[lit ''o'', lit ''k''], [[0x0A]]]"
      "\<lparr>uart_lcr = 0x80, uart_divisor_low = 1, uart_divisor_high = 0, uart_ier = 0, uart_empty = True, uart_sent = []\<rparr>"]
  by (auto simp: lit_def as_bytes_def encode_char.simps)

end
