(* ===== verification/System_Checks.thy ===== *)
theory System_Checks
  imports Kernel_Properties Console_Text Qemu_Keys Serial_Wire
begin

text \<open>
  The kernel and the build tool together.  The shell check types commands through the QEMU monitor and
  looks for their output in the serial log; here the keys it sends meet the booted kernel, and what
  the kernel prints meets the tool's search for its markers.
\<close>

section \<open>The console on the serial line\<close>

text \<open>The serial driver puts a carriage return before every line feed; on text this is \<open>crlf_text\<close>.\<close>

definition crlf_text :: "rstr \<Rightarrow> rstr" where
  "crlf_text t = concat (map (\<lambda>c. if c = 0x0A then [0x0D, 0x0A] else [c]) t)"

lemma crlf_text_simps [simp]:
  "crlf_text [] = []" "crlf_text (c # t) = (if c = 0x0A then [0x0D, 0x0A] else [c]) @ crlf_text t" "crlf_text (s @ t) = crlf_text s @ crlf_text t"
  by (simp_all add: crlf_text_def)

lemma crlf_text_id: "0x0A \<notin> set t \<Longrightarrow> crlf_text t = t"
  by (induction t) auto

lemma crlf_text_valid: "valid_str t \<Longrightarrow> valid_str (crlf_text t)"
  by (induction t) (auto simp: scalar_def)

lemma crlf_id: "0x0A \<notin> set bs \<Longrightarrow> crlf bs = bs"
  by (induction bs) auto

lemma crlf_char:
  assumes "scalar c"
  shows "crlf (as_bytes [c]) = as_bytes (if c = 0x0A then [0x0D, 0x0A] else [c])"
proof (cases "c = 0x0A")
  case True
  then show ?thesis by (simp add: as_bytes_def encode_char.simps)
next
  case False
  have u: "map unat (as_bytes [c]) = encode_char c" using unat_as_bytes [of "[c]"] assms by simp
  have "10 \<notin> set (encode_char c)" using False by (auto simp: encode_char.simps [of c])
  moreover have "10 \<in> set (map unat bs)" if "0x0A \<in> set bs" for bs :: "u8 list"
    using that imageI [of "0x0A :: u8" "set bs" unat] by simp
  ultimately have "0x0A \<notin> set (as_bytes [c])" using u by metis
  then show ?thesis using False by (simp add: crlf_id)
qed

lemma crlf_as_bytes: "valid_str t \<Longrightarrow> crlf (as_bytes t) = as_bytes (crlf_text t)"
proof (induction t)
  case (Cons c t)
  have "as_bytes (c # t) = as_bytes [c] @ as_bytes t" using as_bytes_append [of "[c]" t] by simp
  with Cons crlf_char [of c] show ?case by (simp only: crlf_simps crlf_text_simps as_bytes_append valid_str_simps)
qed (simp add: as_bytes_def)

text \<open>The log file that QEMU writes from the serial line, and a look into it.\<close>

definition serial_log_of :: "'va kernel \<Rightarrow> node option" where
  "serial_log_of k = Some (File (crlf (as_bytes (k_console k))))"

text \<open>These are the bytes that the kernel's prints put on the wire.\<close>

definition uart_reset :: uart where
  "uart_reset = \<lparr>uart_lcr = 0, uart_divisor_low = 0, uart_divisor_high = 0, uart_ier = 0, uart_empty = False, uart_sent = []\<rparr>"

lemma serial_log_is_wire:
  assumes "drains dev" and "concat (concat tss) = k_console k"
  shows "\<exists>st. serial_session dev tss = Inr (Some st) \<and>
    serial_log_of k = Some (File (uart_sent (uart_run (bus (serial_dev st)) uart_reset)))"
  using session_sends [OF assms(1), of tss uart_reset] assms(2) by (auto simp: serial_log_of_def uart_reset_def)

lemma marker_found:
  assumes "valid_str (k_console k)" and "sublist mk (k_console k)" and "0x0A \<notin> set mk"
    and "\<forall>n. fault m n = None" and "h_files (pass m h) log = serial_log_of k" and "h_files (pass m (pass m h)) log = serial_log_of k"
  shows "contains_marker m log mk h = Some (Inr True, pass m (pass m h))"
proof -
  obtain ps ss where "k_console k = ps @ mk @ ss" using assms(2) unfolding sublist_def by blast
  then have "crlf_text (k_console k) = crlf_text ps @ mk @ crlf_text ss" using crlf_text_id [OF assms(3)] by simp
  then have "str_contains (crlf_text (k_console k)) mk" unfolding str_contains_def sublist_def by blast
  moreover have "from_utf8 (crlf (as_bytes (k_console k))) = Some (crlf_text (k_console k))"
    using assms(1) by (simp add: crlf_as_bytes crlf_text_valid)
  ultimately show ?thesis
    using assms(4-6) by (simp add: contains_marker_def xbind_def xpure_simp path_exists_def xtry_def read_to_string_def io_bind_def
        read_file_def os_call_def serial_log_of_def)
qed

section \<open>Typing while the timer ticks\<close>

definition keyboard_codes :: "irq list \<Rightarrow> u8 list" where
  "keyboard_codes is = concat (map (\<lambda>i. case i of KeyboardIrq b \<Rightarrow> [b] | TimerIrq \<Rightarrow> []) is)"

lemma keyboard_codes_simps [simp]: "keyboard_codes [] = []" "keyboard_codes (TimerIrq # is) = keyboard_codes is"
  "keyboard_codes (KeyboardIrq b # is) = b # keyboard_codes is" "keyboard_codes (as @ bs) = keyboard_codes as @ keyboard_codes bs"
  by (simp_all add: keyboard_codes_def)

lemma keyboard_codes_split:
  "keyboard_codes is = cs @ b # ds \<Longrightarrow>
   \<exists>as bs. is = as @ KeyboardIrq b # bs \<and> keyboard_codes as = cs \<and> keyboard_codes bs = ds"
proof (induction "is" arbitrary: cs)
  case (Cons i "is")
  show ?case
  proof (cases i)
    case TimerIrq
    then obtain as bs where "is = as @ KeyboardIrq b # bs" "keyboard_codes as = cs" "keyboard_codes bs = ds"
      using Cons.IH [of cs] Cons.prems by auto
    then show ?thesis using TimerIrq by (intro exI [of _ "TimerIrq # as"] exI [of _ bs]) simp
  next
    case (KeyboardIrq c)
    show ?thesis
    proof (cases cs)
      case Nil
      then show ?thesis using Cons.prems KeyboardIrq by (intro exI [of _ "[]"] exI [of _ "is"]) simp
    next
      case (Cons c' cs')
      then obtain as bs where "is = as @ KeyboardIrq b # bs" "keyboard_codes as = cs'" "keyboard_codes bs = ds"
        using Cons.IH [of cs'] Cons.prems KeyboardIrq by auto
      then show ?thesis using KeyboardIrq Cons Cons.prems by (intro exI [of _ "KeyboardIrq c # as"] exI [of _ bs]) simp
    qed
  qed
qed simp

lemma timer_irq:
  assumes "kernel_ok k" and "unat (k_ticks k) + 1 < 2 ^ 64"
  shows "\<exists>k' t. handle_irq TimerIrq k = Inr k' \<and> kernel_ok k' \<and> k_shell k' = k_shell k \<and> k_kbd k' = k_kbd k \<and>
    k_vfs k' = k_vfs k \<and> k_console k' = k_console k @ t \<and> unat (k_ticks k') = unat (k_ticks k) + 1"
proof -
  obtain k' where k': "timer_interrupt_handler k = Inr k'" "kernel_ok k'" "unat (k_ticks k') = unat (k_ticks k) + 1"
    using timer_handler_spec [OF assms] by blast
  then have "k_shell k' = k_shell k \<and> k_kbd k' = k_kbd k \<and> k_vfs k' = k_vfs k \<and> (\<exists>t. k_console k' = k_console k @ t)"
    by (auto simp: timer_interrupt_handler_def on_tick_def Let_def end_of_interrupt_def elim!: rbind_eq_InrE split: if_splits)
  with k' show ?thesis by auto
qed

lemma char_irq:
  assumes "on_interrupt b (k_kbd k) = (Some (Char_event c), q)" and "kernel_ok k" "shell_initialized (k_shell k)"
    and "length (line_text (k_shell k)) < MAX_LINE_LEN"
  shows "\<exists>k'. handle_irq (KeyboardIrq b) k = Inr k' \<and> kernel_ok k' \<and> shell_initialized (k_shell k') \<and> k_kbd k' = q \<and>
    line_text (k_shell k') = line_text (k_shell k) @ [c] \<and> k_vfs k' = k_vfs k \<and> k_console k' = k_console k @ [c] \<and> k_ticks k' = k_ticks k"
proof -
  let ?k = "k\<lparr>k_kbd := q\<rparr>"
  have len: "line_len (k_shell ?k) < MAX_LINE_LEN" using assms(2,4) length_line_text by (simp add: kernel_ok_def)
  have p: "printable c" using event_printable [of b "k_kbd k" "Char_event c"] assms(1) by simp
  have "on_key (Char_event c) ?k = Inr (type_char c ?k)" using assms(2,3) len by (intro on_key_char) simp_all
  then obtain x where x: "handle_irq (KeyboardIrq b) k = Inr ((type_char c ?k)\<lparr>k_irq := x\<rparr>)"
    using assms(1) by (auto simp: keyboard_interrupt_handler_def keyboard_on_interrupt_def end_of_interrupt_def)
  have "shell_ok (k_shell k)" using assms(2) by (simp add: kernel_ok_def)
  from push_char [OF this _ p] len assms(2,3) x show ?thesis
    by (simp add: type_char_def kernel_ok_def)
qed

lemma typed_keys:
  "kernel_ok k \<Longrightarrow> shell_initialized (k_shell k) \<Longrightarrow> kbd_initialized (k_kbd k) \<Longrightarrow>
   key_run (keyboard_codes is) (k_kbd k) = (map Char_event s, q) \<Longrightarrow>
   length (line_text (k_shell k)) + length s \<le> MAX_LINE_LEN \<Longrightarrow> unat (k_ticks k) + timer_count is < 2 ^ 64 \<Longrightarrow>
   \<exists>k' t. run_irqs is k = Inr k' \<and> kernel_ok k' \<and> shell_initialized (k_shell k') \<and> k_kbd k' = q \<and>
     line_text (k_shell k') = line_text (k_shell k) @ s \<and> k_vfs k' = k_vfs k \<and> k_console k' = k_console k @ t \<and>
     unat (k_ticks k') = unat (k_ticks k) + timer_count is"
proof (induction "is" arbitrary: k s)
  case (Cons i "is")
  show ?case
  proof (cases i)
    case TimerIrq
    obtain k1 t where k1: "handle_irq TimerIrq k = Inr k1" "kernel_ok k1" "k_shell k1 = k_shell k" "k_kbd k1 = k_kbd k"
      "k_vfs k1 = k_vfs k" "k_console k1 = k_console k @ t" "unat (k_ticks k1) = unat (k_ticks k) + 1"
      using timer_irq [OF Cons.prems(1)] Cons.prems(6) TimerIrq by auto
    with Cons.IH [of k1 s] Cons.prems TimerIrq show ?thesis by (auto simp del: handle_irq.simps)
  next
    case (KeyboardIrq b)
    obtain e q1 where e: "on_interrupt b (k_kbd k) = (e, q1)" by (cases "on_interrupt b (k_kbd k)")
    have q1: "kbd_initialized q1" using Cons.prems(3) e
      by (auto simp: on_interrupt_def decode_scancode_def split: if_splits)
    show ?thesis
    proof (cases e)
      case None
      then obtain x where x: "handle_irq (KeyboardIrq b) k = Inr (k\<lparr>k_kbd := q1, k_irq := x\<rparr>)" using irq_silent e by blast
      have "key_run (keyboard_codes is) q1 = (map Char_event s, q)"
        using Cons.prems(4) KeyboardIrq e None by (simp add: Let_def split: prod.splits)
      with Cons.IH [of "k\<lparr>k_kbd := q1, k_irq := x\<rparr>" s] Cons.prems q1 x KeyboardIrq show ?thesis
        by (auto simp del: handle_irq.simps)
    next
      case (Some ev)
      then obtain c s' where c: "ev = Char_event c" "s = c # s'" "key_run (keyboard_codes is) q1 = (map Char_event s', q)"
        using Cons.prems(4) KeyboardIrq e by (auto simp: Let_def Cons_eq_map_conv split: prod.splits)
      obtain k1 where k1: "handle_irq (KeyboardIrq b) k = Inr k1" "kernel_ok k1" "shell_initialized (k_shell k1)" "k_kbd k1 = q1"
        "line_text (k_shell k1) = line_text (k_shell k) @ [c]" "k_vfs k1 = k_vfs k" "k_console k1 = k_console k @ [c]" "k_ticks k1 = k_ticks k"
        using char_irq [of b k c q1] e Some c(1,2) Cons.prems by auto
      with Cons.IH [of k1 s'] Cons.prems q1 c KeyboardIrq show ?thesis by (auto simp del: handle_irq.simps)
    qed
  qed
qed simp

section \<open>The commands of the shell check\<close>

lemma lines_show: "l \<in> set ls \<Longrightarrow> sublist mk l \<Longrightarrow> sublist mk (concat (map (\<lambda>t. t @ [newline]) ls))"
proof -
  assume "l \<in> set ls" "sublist mk l"
  then obtain as bs xs ys where "ls = as @ l # bs" "l = xs @ mk @ ys" unfolding sublist_def by (metis split_list)
  then have "concat (map (\<lambda>t. t @ [newline]) ls) = (concat (map (\<lambda>t. t @ [newline]) as) @ xs) @ mk @
      (ys @ [newline] @ concat (map (\<lambda>t. t @ [newline]) bs))" by simp
  then show ?thesis unfolding sublist_def by blast
qed

text \<open>A command whose output, appended to the console, shows a marker.\<close>

definition command_shows :: "rstr \<Rightarrow> rstr \<Rightarrow> bool" where
  "command_shows c mk \<longleftrightarrow> (\<forall>(k :: u64 kernel) k2. kernel_ok k \<longrightarrow> execute_command c k = Inr k2 \<longrightarrow>
     k_vfs k2 = k_vfs k \<and> (\<exists>out. k_console k2 = k_console k @ out \<and> sublist mk out))"

lemma command_name: "split_whitespace (lit ''help'') = [lit ''help'']" "split_whitespace (lit ''info'') = [lit ''info'']"
  "split_whitespace (lit ''ls'') = [lit ''ls'']"
  by (rule split_whitespace_word(1), simp add: lit_def, simp add: lit_def is_whitespace_def)+

lemma command_showsI:
  assumes "\<And>(k :: u64 kernel) k2. kernel_ok k \<Longrightarrow> execute_command c k = Inr k2 \<Longrightarrow>
    \<exists>ls l. k2 = print (concat (map (\<lambda>t. t @ [newline]) ls)) k \<and> l \<in> set ls \<and> sublist mk l"
  shows "command_shows c mk"
  unfolding command_shows_def
proof (intro allI impI)
  fix k k2 :: "u64 kernel" assume "kernel_ok k" "execute_command c k = Inr k2"
  then obtain ls l where "k2 = print (concat (map (\<lambda>t. t @ [newline]) ls)) k" "l \<in> set ls" "sublist mk l" using assms by metis
  then show "k_vfs k2 = k_vfs k \<and> (\<exists>out. k_console k2 = k_console k @ out \<and> sublist mk out)" using lines_show by auto
qed

lemma help_shows: "command_shows (lit ''help'') (lit ''Show this command list'')"
proof (rule command_showsI)
  fix k k2 :: "u64 kernel" assume "execute_command (lit ''help'') k = Inr k2"
  then have "k2 = cmd_help k" unfolding execute_command_def command_name by simp
  moreover have "\<exists>ls. cmd_help k = print (concat (map (\<lambda>t. t @ [newline]) ls)) k \<and> lit ''  help        Show this command list'' \<in> set ls"
    unfolding cmd_help_def println_all_eq by (rule exI, rule conjI, rule refl) simp
  ultimately obtain ls where ls: "k2 = print (concat (map (\<lambda>t. t @ [newline]) ls)) k" "lit ''  help        Show this command list'' \<in> set ls"
    by blast
  have "lit ''  help        Show this command list'' = lit ''  help        '' @ lit ''Show this command list''"
    by (simp add: lit_def)
  then have "sublist (lit ''Show this command list'') (lit ''  help        Show this command list'')" by simp
  with ls show "\<exists>ls l. k2 = print (concat (map (\<lambda>t. t @ [newline]) ls)) k \<and> l \<in> set ls \<and> sublist (lit ''Show this command list'') l"
    by blast
qed

lemma info_shows: "command_shows (lit ''info'') (lit ''AetherOS academic kernel'')"
proof (rule command_showsI)
  fix k k2 :: "u64 kernel" assume "execute_command (lit ''info'') k = Inr k2"
  moreover have "lit ''info'' \<noteq> lit ''help''" by (simp add: lit_def)
  ultimately have "cmd_info k = Inr k2" unfolding execute_command_def command_name by simp
  then obtain ls where "k2 = println_all ls (println_all [lit ''AetherOS academic kernel'',
      lit ''keyboard initialized = '' @ display_bool (is_initialized (k_kbd k))] k)"
    by (auto simp: cmd_info_def print_scheduler_def elim!: rbind_eq_InrE)
  then have k2: "k2 = println_all (lit ''AetherOS academic kernel'' #
      (lit ''keyboard initialized = '' @ display_bool (is_initialized (k_kbd k))) # ls) k" by (simp add: println_all_def)
  show "\<exists>ls l. k2 = print (concat (map (\<lambda>t. t @ [newline]) ls)) k \<and> l \<in> set ls \<and> sublist (lit ''AetherOS academic kernel'') l"
    by (intro exI conjI, rule k2 [unfolded println_all_eq], rule list.set_intros(1), rule sublist_order.order_refl)
qed

lemma ls_shows: "command_shows (lit ''ls'') (lit ''/README.TXT'')"
proof (rule command_showsI)
  fix k k2 :: "u64 kernel" assume k: "kernel_ok k" and "execute_command (lit ''ls'') k = Inr k2"
  moreover have "lit ''ls'' \<notin> {lit ''help'', lit ''info'', lit ''ticks'', lit ''mem'', lit ''tasks''}" by (simp add: lit_def)
  ultimately have run: "cmd_ls k = Inr k2" unfolding execute_command_def command_name by simp
  have "overlay_ok (writable_files (k_vfs k))" using k by (simp add: kernel_ok_def)
  from for_each_entry_spec [OF this] obtain ps where ps: "for_each_entry (writable_files (k_vfs k)) = Inr ps"
    "set ps = dom (vfs_view (writable_files (k_vfs k)))" by blast
  have "lit ''/README.TXT'' \<in> dom initramfs_map" unfolding dom_initramfs_map files_paths by simp
  then have "lit ''/README.TXT'' \<in> set ps" using ps(2) by (auto simp: vfs_view_def)
  moreover have "k2 = print (concat (map (\<lambda>t. t @ [newline]) ps)) k" using run ps(1) by (simp add: cmd_ls_def println_all_eq)
  ultimately show "\<exists>ls l. k2 = print (concat (map (\<lambda>t. t @ [newline]) ls)) k \<and> l \<in> set ls \<and> sublist (lit ''/README.TXT'') l"
    by blast
qed

lemma key_run_silent: "kbd_initialized q \<Longrightarrow> \<not> shift_pressed q \<Longrightarrow> key_run [0x9C] q = ([], q)"
  by (simp add: on_interrupt_def decode_scancode_def)

text \<open>One command: its keys, perhaps after the release of the return key before it, and the return key, with
  timer interrupts anywhere in between.\<close>

lemma typed_command:
  fixes k :: "u64 kernel"
  assumes k: "awaiting_input k" "line_text (k_shell k) = []" and c: "list_all printable c" "length c \<le> MAX_LINE_LEN" "trim c = c" "c \<noteq> []"
    and "shows": "command_shows c mk" and pre: "pre \<in> {[], [0x9C]}"
    and keys: "keyboard_codes is = (pre @ type_text c) @ 0x1C # rest" and ticks: "unat (k_ticks k) + timer_count is < 2 ^ 64"
  shows "\<exists>is2 k' out. run_irqs is k = run_irqs is2 k' \<and> keyboard_codes is2 = rest \<and> awaiting_input k' \<and> line_text (k_shell k') = [] \<and>
    k_vfs k' = k_vfs k \<and> k_console k' = k_console k @ out \<and> sublist mk out \<and> unat (k_ticks k') + timer_count is2 < 2 ^ 64"
proof -
  obtain is1 is2 where split: "is = is1 @ KeyboardIrq 0x1C # is2" "keyboard_codes is1 = pre @ type_text c" "keyboard_codes is2 = rest"
    using keyboard_codes_split [OF keys] by blast
  let ?q = "k_kbd k"
  have q: "kbd_initialized ?q" "\<not> shift_pressed ?q" "kernel_ok k" "shell_initialized (k_shell k)" using k(1) by (simp_all add: awaiting_input_def)
  have "key_run (type_text c) ?q = (map Char_event c, ?q)" by (rule typed_text_run [OF c(1) q(1,2)])
  then have "key_run (keyboard_codes is1) ?q = (map Char_event c, ?q)"
    using pre key_run_silent [OF q(1,2)] unfolding split(2) key_run_append by auto
  moreover have n: "timer_count is = timer_count is1 + timer_count is2" unfolding split(1) by (simp add: timer_count_def)
  ultimately obtain k1 t where k1: "run_irqs is1 k = Inr k1" "kernel_ok k1" "shell_initialized (k_shell k1)" "k_kbd k1 = ?q"
    "line_text (k_shell k1) = c" "k_vfs k1 = k_vfs k" "k_console k1 = k_console k @ t" "unat (k_ticks k1) = unat (k_ticks k) + timer_count is1"
    using typed_keys [OF q(3,4,1), of is1 c ?q] k(2) c(2) ticks by auto
  have "awaiting_input k1" using k1(2-4) q(1,2) by (simp add: awaiting_input_def)
  from enter_irq [OF this] k1(5) c(3,4) obtain k2 k3 where e: "execute_command c (print [newline] k1) = Inr k2"
    "handle_irq (KeyboardIrq 0x1C) k1 = Inr k3" "awaiting_input k3" "k_ticks k3 = k_ticks k1" "line_text (k_shell k3) = []"
    "k_console k3 = k_console k2 @ lit ''aether> ''" "k_vfs k3 = k_vfs k2" by auto
  obtain out where out: "k_vfs k2 = k_vfs k1" "k_console k2 = k_console k1 @ [newline] @ out" "sublist mk out"
    using "shows" [unfolded command_shows_def, rule_format, of "print [newline] k1" k2] e(1) k1(2) by (auto simp: kernel_ok_def)
  have "run_irqs is k = run_irqs is2 k3" unfolding split(1) using k1(1) e(2) by (simp add: run_irqs_append del: handle_irq.simps)
  moreover have "k_console k3 = k_console k @ (t @ [newline]) @ out @ lit ''aether> ''" using e(6) out(2) k1(7) by simp
  moreover have "sublist mk ((t @ [newline]) @ out @ lit ''aether> '')"
    using out(3) by (meson sublist_append_leftI sublist_append_rightI sublist_order.order_trans)
  moreover have "k_vfs k3 = k_vfs k" "unat (k_ticks k3) + timer_count is2 < 2 ^ 64" using e(4,7) out(1) k1(6,8) n ticks by auto
  ultimately show ?thesis using split(3) e(3,5) by blast
qed

section \<open>The shell check as the kernel sees it\<close>

text \<open>The key names in the lines that the tool writes to the monitor.\<close>

definition sent_keys :: "rstr list \<Rightarrow> rstr list" where
  "sent_keys ls = map (drop 8) (filter (\<lambda>l. take 8 l = lit ''sendkey '') ls)"

definition check_commands :: "rstr list" where
  "check_commands = [lit ''help'', lit ''info'', lit ''ls'']"

lemma sent_keys_typed: "sent_keys (typed_lines c @ ls) = map (\<lambda>x. [x]) c @ [lit ''ret''] @ sent_keys ls"
proof -
  have l: "length (lit ''sendkey '') = 8" "lit ''sendkey ret'' = lit ''sendkey '' @ lit ''ret''" by (simp_all add: lit_def)
  have "sent_keys (map (\<lambda>x. lit ''sendkey '' @ [x]) c) = map (\<lambda>x. [x]) c" by (induction c) (simp_all add: sent_keys_def l)
  then show ?thesis by (simp add: sent_keys_def typed_lines_def l)
qed

lemma script_keys: "sent_keys (shell_script m root) = concat (map (\<lambda>c. map (\<lambda>x. [x]) c @ [lit ''ret'']) check_commands)"
proof -
  have "take 8 (lit ''screendump '' @ p) \<noteq> lit ''sendkey ''" for p by (simp add: lit_def)
  then have "sent_keys [lit ''screendump '' @ p] = []" for p by (simp add: sent_keys_def)
  then show ?thesis unfolding shell_script_def sent_keys_typed check_commands_def by simp
qed

lemma plain_letter:
  assumes "c \<in> set (lit ''help'') \<union> set (lit ''info'') \<union> set (lit ''ls'')" and "qemu_keys sendkey"
  shows "sendkey [c] = keystrokes c"
proof -
  have "\<exists>code. pc_code [c] = Some code \<and> plain_key c = Some code"
    using assms(1) by (auto simp: lit_def pc_code_table plain_key_def us_keys_def us_rows_def upt_rec)
  then show ?thesis using assms(2) by (auto simp: qemu_keys_def keystrokes_def)
qed

lemma ret_key: "qemu_keys sendkey \<Longrightarrow> sendkey (lit ''ret'') = [0x1C, 0x9C]"
proof -
  assume "qemu_keys sendkey"
  moreover have "pc_code (lit ''ret'') = Some 0x1C" by (simp add: pc_code_table lit_def)
  ultimately show ?thesis by (simp add: qemu_keys_def press_def)
qed

lemma script_codes:
  assumes "qemu_keys sendkey"
  shows "concat (map sendkey (sent_keys (shell_script m root))) =
    type_text (lit ''help'') @ 0x1C # ([0x9C] @ type_text (lit ''info'')) @ 0x1C # ([0x9C] @ type_text (lit ''ls'')) @ 0x1C # [0x9C]"
proof -
  have "concat (map sendkey (map (\<lambda>x. [x]) t)) = type_text t" if "set t \<subseteq> set (lit ''help'') \<union> set (lit ''info'') \<union> set (lit ''ls'')" for t
    using that plain_letter [OF _ assms] by (induction t) (auto simp: type_text_def)
  note send = this
  have "concat (map sendkey (map (\<lambda>x. [x]) c)) = type_text c" if "c \<in> {lit ''help'', lit ''info'', lit ''ls''}" for c
  proof (rule send)
    show "set c \<subseteq> set (lit ''help'') \<union> set (lit ''info'') \<union> set (lit ''ls'')" using that by (auto simp del: subset_Un_eq)
  qed
  from this [of "lit ''help''"] this [of "lit ''info''"] this [of "lit ''ls''"] show ?thesis
    unfolding script_keys by (simp add: check_commands_def ret_key [OF assms] del: map_map)
qed

lemma initialize_shell_ready:
  fixes k :: "u64 kernel"
  assumes "initialize vnew heap_space m1 m2 b (kernel_static log) = Inr k"
  shows "sublist (lit ''AetherOS shell ready'') (k_console k)"
proof -
  have fb: "k_shell k2 = k_shell k1" if "framebuffer_initialize f k1 = Inr k2" for f and k1 k2 :: "u64 kernel"
    using that by (auto simp: framebuffer_initialize_def show_visual_def elim!: rbind_eq_InrE split: option.splits)
  obtain k1 k2 :: "u64 kernel" where k2: "framebuffer_initialize (framebuffer b) k1 = Inr k2" "k_shell k1 = Shell_new"
    "init_report b (shell_initialize (fs_initialize k2)) = Inr k"
    using assms by (auto simp: initialize_def memory_initialize_def kernel_static_def keyboard_initialize_kernel_def timer_initialize_def
        elim!: rbind_eq_InrE)
  then have new: "\<not> shell_initialized (k_shell (fs_initialize k2))"
    using fb [OF k2(1)] by (simp add: Shell_new_def fs_initialize_def)
  obtain ls where "k = println_all ls (shell_initialize (fs_initialize k2))"
    using k2(3) by (auto simp: init_report_def elim!: rbind_eq_InrE)
  then have "\<exists>ss. k_console k = k_console (fs_initialize k2) @ lit ''AetherOS shell ready'' @ ss"
    using new by (simp add: shell_initialize_def println_all_eq prompt_def)
  then show ?thesis unfolding sublist_def by blast
qed

lemma typed_script:
  fixes k :: "u64 kernel"
  assumes k: "awaiting_input k" "line_text (k_shell k) = []" and "qemu_keys sendkey"
    and codes: "keyboard_codes is = concat (map sendkey (sent_keys (shell_script m root)))" and ticks: "unat (k_ticks k) + timer_count is < 2 ^ 64"
  shows "\<exists>k' out. run_irqs is k = Inr k' \<and> k_console k' = k_console k @ out \<and>
    (\<forall>mk \<in> {lit ''Show this command list'', lit ''AetherOS academic kernel'', lit ''/README.TXT''}. sublist mk out)"
proof -
  have c: "list_all printable (lit n) \<and> length (lit n) \<le> MAX_LINE_LEN \<and> trim (lit n) = lit n \<and> lit n \<noteq> []" if "n \<in> {''help'', ''info'', ''ls''}" for n
    using that by (auto simp: lit_def printable_def MAX_LINE_LEN_def trim_def is_whitespace_def)
  note codes = codes [unfolded script_codes [OF assms(3)]]
  obtain is1 k1 o1 where 1: "run_irqs is k = run_irqs is1 k1" "keyboard_codes is1 = ([0x9C] @ type_text (lit ''info'')) @ 0x1C #
      ([0x9C] @ type_text (lit ''ls'')) @ 0x1C # [0x9C]" "awaiting_input k1" "line_text (k_shell k1) = []"
    "k_console k1 = k_console k @ o1" "sublist (lit ''Show this command list'') o1" "unat (k_ticks k1) + timer_count is1 < 2 ^ 64"
    using typed_command [OF k _ _ _ _ help_shows, of "[]" "is"] codes ticks c [of "''help''"] by auto
  obtain is2 k2 o2 where 2: "run_irqs is1 k1 = run_irqs is2 k2" "keyboard_codes is2 = ([0x9C] @ type_text (lit ''ls'')) @ 0x1C # [0x9C]"
    "awaiting_input k2" "line_text (k_shell k2) = []"
    "k_console k2 = k_console k1 @ o2" "sublist (lit ''AetherOS academic kernel'') o2" "unat (k_ticks k2) + timer_count is2 < 2 ^ 64"
    using typed_command [OF 1(3,4) _ _ _ _ info_shows, of "[0x9C]" is1] 1(2,7) c [of "''info''"] by auto
  obtain is3 k3 o3 where 3: "run_irqs is2 k2 = run_irqs is3 k3" "keyboard_codes is3 = [0x9C]" "awaiting_input k3" "line_text (k_shell k3) = []"
    "k_console k3 = k_console k2 @ o3" "sublist (lit ''/README.TXT'') o3" "unat (k_ticks k3) + timer_count is3 < 2 ^ 64"
    using typed_command [OF 2(3,4) _ _ _ _ ls_shows, of "[0x9C]" is2] 2(2,7) c [of "''ls''"] by auto
  have "key_run (keyboard_codes is3) (k_kbd k3) = (map Char_event [], k_kbd k3)"
    using key_run_silent [of "k_kbd k3"] 3(2,3) by (simp add: awaiting_input_def)
  then obtain k4 o4 where 4: "run_irqs is3 k3 = Inr k4" "k_console k4 = k_console k3 @ o4"
    using typed_keys [of k3 is3 "[]" "k_kbd k3"] 3(3,4,7) by (auto simp: awaiting_input_def)
  have "run_irqs is k = Inr k4" using 1(1) 2(1) 3(1) 4(1) by simp
  moreover have "k_console k4 = k_console k @ o1 @ o2 @ o3 @ o4" using 1(5) 2(5) 3(5) 4(2) by simp
  moreover have "sublist mk (o1 @ o2 @ o3 @ o4)" if "sublist mk o1 \<or> sublist mk o2 \<or> sublist mk o3" for mk
    using that by (meson sublist_append_leftI sublist_append_rightI sublist_order.order_trans)
  ultimately show ?thesis using 1(6) 2(6) 3(6) by blast
qed

text \<open>(C7) The kernel passes the shell check: boot the kernel, let the keys that the tool writes to the monitor
  arrive as the scan codes QEMU documents, with any timer interrupts in between; then the kernel does not panic, and
  the tool's search finds the boot marker and all four shell markers in the log that the
  serial line produces.\<close>

theorem kernel_passes_shell_check:
  fixes k :: "u64 kernel"
  assumes "accepts_canonical vnew" and "boot_info_wf b" and "list_all region_ok (boot_regions b)"
    and "unat heap_space + 131072 < 2 ^ 64" and "screen_ok (framebuffer b)" and "valid_str log"
    and init: "initialize vnew heap_space m1 m2 b (kernel_static log) = Inr k"
    and "qemu_keys sendkey" and "keyboard_codes is = concat (map sendkey (sent_keys (shell_script m root)))" and "timer_count is < 2 ^ 64"
  shows "\<exists>k'. run_irqs is k = Inr k' \<and>
    (\<forall>mk \<in> set (DEFAULT_BOOT_SUCCESS_MARKER # shell_markers). \<forall>m' h f. (\<forall>n. fault m' n = None) \<and>
       h_files (pass m' h) f = serial_log_of k' \<and> h_files (pass m' (pass m' h)) f = serial_log_of k' \<longrightarrow>
       contains_marker m' f mk h = Some (Inr True, pass m' (pass m' h)))"
proof -
  obtain pre post where spec: "kernel_ok k" "k_ticks k = 0" "k_kbd k = keyboard_initialize keyboard_static"
    "k_shell k = Shell_new\<lparr>shell_initialized := True\<rparr>"
    "k_console k = (log @ pre @ lit ''aether> '') @ lit ''AetherOS: kernel initialized'' @ newline # post"
    using kernel_initialize_spec [OF assms(1-5), of m1 m2 log] init by auto
  have await: "awaiting_input k" "line_text (k_shell k) = []"
    using spec by (simp_all add: awaiting_input_def keyboard_initialize_def keyboard_static_def line_text_def Shell_new_def)
  obtain k' out where k': "run_irqs is k = Inr k'" "k_console k' = k_console k @ out"
    "\<forall>mk \<in> {lit ''Show this command list'', lit ''AetherOS academic kernel'', lit ''/README.TXT''}. sublist mk out"
    using typed_script [OF await assms(8,9)] assms(10) spec(2) by auto
  have "text_ok k \<and> names_ok (k_sched k) \<and> kernel_ok k \<and> k_ticks k = 0" by (rule initialize_text [OF assms(1-5) init assms(6)])
  then have utf: "valid_str (k_console k')"
    using run_irqs_text [OF _ _ _ _ k'(1)] assms(10) by (simp add: text_ok_def)
  have "sublist (lit ''AetherOS: kernel initialized'') (k_console k)" using spec(5) unfolding sublist_def by blast
  then have "sublist mk (k_console k')" if "mk \<in> set (DEFAULT_BOOT_SUCCESS_MARKER # shell_markers)" for mk
    using that initialize_shell_ready [OF init] k'(2,3)
    by (auto simp: shell_markers_def DEFAULT_BOOT_SUCCESS_MARKER_def
        intro: sublist_order.order_trans [OF _ sublist_append_rightI] sublist_order.order_trans [OF _ sublist_append_leftI])
  moreover have "0x0A \<notin> set mk" if "mk \<in> set (DEFAULT_BOOT_SUCCESS_MARKER # shell_markers)" for mk
    using that by (auto simp: shell_markers_def DEFAULT_BOOT_SUCCESS_MARKER_def lit_def)
  ultimately show ?thesis using k'(1) marker_found [OF utf] by (intro exI [of _ k']) blast
qed

theorem kernel_passes_shell_check_witness:
  "\<exists>(k :: u64 kernel) k' is. initialize identity_virt_addr 0x200000 0xFF 0xFF example_boot_info (kernel_static []) = Inr k \<and>
     run_irqs is k = Inr k' \<and>
     (\<exists>h. contains_marker example_machine [] (lit ''/README.TXT'') (example_host\<lparr>h_files := (\<lambda>_. serial_log_of k')\<rparr>) = Some (Inr True, h))"
proof -
  let ?codes = "concat (map documented_keys (sent_keys (shell_script example_machine [])))"
  let ?is = "map KeyboardIrq ?codes"
  have codes: "keyboard_codes ?is = ?codes" "timer_count ?is = 0"
    by (simp_all add: keyboard_codes_def timer_count_def o_def filter_False)
  have h: "unat (0x200000 :: usize) + 131072 < 2 ^ 64" and v: "valid_str []" by simp_all
  obtain k :: "u64 kernel" where k: "initialize identity_virt_addr 0x200000 0xFF 0xFF example_boot_info (kernel_static []) = Inr k"
    using kernel_initialize_spec [OF accepts_canonical_identity example_boot_info_wf example_regions_ok h example_screen] by blast
  have n: "timer_count ?is < 2 ^ 64" using codes(2) by simp
  obtain k' where k': "run_irqs ?is k = Inr k'"
    "\<forall>mk \<in> set (DEFAULT_BOOT_SUCCESS_MARKER # shell_markers). \<forall>m' h f. (\<forall>n. fault m' n = None) \<and>
       h_files (pass m' h) f = serial_log_of k' \<and> h_files (pass m' (pass m' h)) f = serial_log_of k' \<longrightarrow>
       contains_marker m' f mk h = Some (Inr True, pass m' (pass m' h))"
    using kernel_passes_shell_check [OF accepts_canonical_identity example_boot_info_wf example_regions_ok h example_screen v k
      documented_keys_ok codes(1) n] by blast
  have "lit ''/README.TXT'' \<in> set (DEFAULT_BOOT_SUCCESS_MARKER # shell_markers)" by (simp add: shell_markers_def)
  from k'(2) [rule_format, OF this, of example_machine "example_host\<lparr>h_files := (\<lambda>_. serial_log_of k')\<rparr>" "[]"] k k'(1)
  show ?thesis by (auto simp: example_machine_def example_host_def pass_def)
qed

end
