(* ===== verification/Spec2Isabelle.thy ===== *)
theory Spec2Isabelle
  imports Heap_Concurrency Frame_Concurrency Xtask_Runs Locking Power_On Pic_Service Linker_Layout System_Checks
begin

text \<open>
  A verification of AetherOS, a small x86_64 teaching kernel written in Rust, and of the tool that
  builds it and checks it in QEMU.

  \<^bold>\<open>The program.\<close>  The Limine boot loader enters \<^verbatim>\<open>kernel/src/main.rs\<close>, whose assembly calls
  \<^verbatim>\<open>arch::x86_64::boot::enter\<close>.  The boot layer turns the loader's answers into a \<open>BootInfo\<close> (the
  contract of \<^verbatim>\<open>crates/aether-bootinfo\<close>) and calls \<^verbatim>\<open>kernel::run\<close>, which executes
  \<^verbatim>\<open>core::init::initialize\<close> (interrupt controllers, memory, tasks, drivers, file system, shell) and
  halts in a loop.  From then on only two interrupt handlers run.  The timer handler counts ticks and
  moves the scheduler to the next task.  The keyboard handler decodes a scan code and passes the
  key to the shell, whose commands read and change the file system, the memory statistics, the task
  table and the framebuffer.  All output goes through the serial driver.  On the development machine
  \<^verbatim>\<open>tools/xtask\<close> stages a boot tree, starts QEMU, looks for markers in the serial log and types shell
  commands through the QEMU monitor.

  \<^bold>\<open>How the source appears in the model.\<close>  Structs are records, enums are datatypes, each function is
  one definition with the source's name (prefixed by its type or module where several share a
  name).  Machine integers are words.  The kernel is built with the development profile and
  \<^verbatim>\<open>panic = abort\<close>, so additions, subtractions, multiplications, indexing, slicing and
  \<open>copy_from_slice\<close> are checked operations with values in \<open>panic + 'a\<close>; a theorem that a result is
  \<open>Inr\<close> says that the code does not panic.  Statics are fields of the state that the operations
  pass along.  What the kernel does to devices is a list: port writes, pixel stores, console text.
  The tool is a program over the record \<open>host\<close> (files, output, started programs, the QEMU child, bytes sent
  to the monitor) and the parameter \<open>machine\<close>: environment, clock, which calls of the operating system
  fail and what other programs do.  Its functions return errors as the source does, and \<open>None\<close> when
  they do not return.

  \<^bold>\<open>Theories and sources.\<close>
  \<^item> \<open>Aether_Prelude\<close>: integers, checked operations, loops that may panic, and the interfaces the
    components share: \<open>invariant_system\<close> (invariants of step relations), \<open>fresh_allocator\<close>
    (allocators whose results never overlap), \<open>list_source\<close> and \<open>frame_pool\<close> (allocators that hand out
    a list), \<open>call_simulation\<close> (call-by-call refinement of an abstract machine).
  \<^item> \<open>Bootinfo\<close>: \<^verbatim>\<open>crates/aether-bootinfo/src/lib.rs\<close>.
  \<^item> \<open>Frame_Allocator\<close>: \<^verbatim>\<open>memory/frame_allocator.rs\<close>.  The allocator hands out the page frames
    of the first 32 usable ranges of the memory map, in order: only usable frames, all of them when the map has no more
    ranges, none twice when the regions do not overlap; when initialisation panics; when the published
    frame count is right and when it is too large.
  \<^item> \<open>Frame_Concurrency\<close>: the same allocator with the atomic accesses of any number of callers interleaved:
    frames are distinct when no usable range ends where another begins, and a duplicated and a lost
    frame otherwise.
  \<^item> \<open>Heap\<close>, \<open>Heap_Concurrency\<close>: \<^verbatim>\<open>memory/heap.rs\<close>.  Blocks are aligned, between the start and the end of the heap and
    disjoint, for one caller and for every interleaving of the atomic accesses of any number of
    callers (under sequential consistency).
  \<^item> \<open>Rust_Str\<close>: the part of \<^verbatim>\<open>core::str\<close> the kernel uses.  The interface \<open>byte_codec\<close> is interpreted by
    UTF-8 encoding and validating decoding.
  \<^item> \<open>Initramfs\<close>, \<open>Vfs\<close>: \<^verbatim>\<open>fs/initramfs.rs\<close>, \<^verbatim>\<open>fs/vfs.rs\<close>.  The slot table refines a map from paths to
    texts with eight entries over the initramfs; listing, round trip, removal, path normal forms; the
    texts that \<open>read\<close> returns alias the slots.
  \<^item> \<open>Task\<close>, \<open>Scheduler\<close>: \<^verbatim>\<open>memory/address_space.rs\<close>, \<^verbatim>\<open>memory/mapper.rs\<close>, \<^verbatim>\<open>task/*.rs\<close>.  The interface
    \<open>round_robin\<close> is interpreted by the timer tick: fairness, the schedule from boot, and the
    capacity of the table.
  \<^item> \<open>Keyboard\<close>: \<^verbatim>\<open>drivers/keyboard.rs\<close>.  Every printable text, typed by the scan codes of a table of the US
    keyboard that is written down independently of the driver, is reported as typed;
    only printable characters are ever reported; the shift state.
  \<^item> \<open>Serial\<close>, \<open>Serial_Wire\<close>: \<^verbatim>\<open>arch/x86_64/serial.rs\<close>.  What printing reads from and writes to the ports, in order, when it
    returns, and which bytes leave a UART that loses what is written while its transmitter is busy.
  \<^item> \<open>Vga\<close>: \<^verbatim>\<open>arch/x86_64/vga.rs\<close>.  Every pixel store is aligned and lies in the framebuffer; the picture is a list of
    clipped rectangles; an unaligned framebuffer panics.
  \<^item> \<open>Interrupts\<close>: \<^verbatim>\<open>arch/x86_64/interrupts.rs\<close>, \<^verbatim>\<open>pit.rs\<close>, \<^verbatim>\<open>idt.rs\<close>.  Which interrupts can be delivered, that
    they have handlers and are acknowledged, the timer divisor.
  \<^item> \<open>Boot\<close>: \<^verbatim>\<open>arch/x86_64/boot.rs\<close>, \<^verbatim>\<open>core/panic.rs\<close>.  When the kernel is entered and with which \<open>BootInfo\<close>,
    when the boot halts, what is logged.
  \<^item> \<open>Kernel_State\<close>: the record of all statics, \<^verbatim>\<open>core/logger.rs\<close>, \<^verbatim>\<open>utils/macros.rs\<close>, the timer, framebuffer and
    storage drivers, the system calls.
  \<^item> \<open>Kernel_Shell\<close>: \<^verbatim>\<open>shell.rs\<close>, the line editor and all commands.
  \<^item> \<open>Kernel\<close>, \<open>Kernel_Properties\<close>: \<^verbatim>\<open>core/init.rs\<close>, the two handlers, and the results about the
    whole kernel: it initialises, no sequence of interrupts makes it panic, a typed \<open>write\<close> followed
    by a typed \<open>cat\<close> prints the text, the line buffer is the edited text, system calls report the
    components' state.
  \<^item> \<open>Console_Text\<close>: everything the kernel prints is a sequence of Unicode scalar values, the references that \<open>leak_str\<close>
    makes always show valid UTF-8, and the complete text that initialisation prints.
  \<^item> \<open>Cpu_Entry\<close>: \<^verbatim>\<open>kernel/src/main.rs\<close>, \<^verbatim>\<open>arch/x86_64/gdt.rs\<close>, the exception handlers of
    \<^verbatim>\<open>arch/x86_64/interrupts.rs\<close>.
  \<^item> \<open>Linker_Layout\<close>: \<^verbatim>\<open>config/linker/linker.ld\<close> as data, a small linker with section garbage collection that runs it, and the statics
    whose place it decides: exactly the sections that the entry point and the kept sections reach survive, segments do not share
    pages, the loader finds its requests between the markers, and the heap array and
    the double fault stack are read-only.
  \<^item> \<open>Interrupted_Init\<close>: \<^verbatim>\<open>core/init.rs\<close> as a list of steps with interrupts between them.  The interface \<open>interrupt_points\<close> is
    interpreted twice, before and after the scheduler exists; whatever arrives, the initialisation completes.
  \<^item> \<open>Pic_Service\<close>: the kernel with the interrupt controller, which holds back interrupts until the one in service is
    acknowledged, through the steps of the initialisation too: after a normal boot interrupts keep flowing, after a tick between
    lines 42 and 43 of \<^verbatim>\<open>interrupts.rs\<close> none is delivered again.
  \<^item> \<open>Power_On\<close>: \<^verbatim>\<open>kernel/src/lib.rs\<close>, the cell of \<^verbatim>\<open>idt.rs\<close>, and the composition of entry point, boot layer and
    initialisation: from the answers of the boot loader to the waiting prompt and through any interrupts; which answers
    end in a halt or in a panic, and what the log then shows.
  \<^item> \<open>Locking\<close>: the spin locks of all routines in program order, with one processor and interrupt gates.  In the
    idle loop every handler runs to its end and gives back every lock; a timer interrupt during initialisation can hang it.
  \<^item> \<open>Host\<close>: the part of the Rust standard library and the operating system that the tool uses (paths, files,
    processes, clock, TCP stream), as a monad with errors; loops are a partial function, and so is the wait for a child, which
    returns only when the child was killed or has ended.
  \<^item> \<open>Xtask\<close>: every function of \<^verbatim>\<open>tools/xtask/src/main.rs\<close>.
  \<^item> \<open>Xtask_Staging\<close>, \<open>Xtask_Checks\<close>, \<open>Xtask_Runs\<close>, \<open>Xtask_Texts\<close>: staged files are copies of their sources, only the
    pinned boot loader is unpacked, every command ends, what a successful check has seen and done, when
    QEMU is stopped and when it is left running, the numeric settings and the quoted log lines.  The interface \<open>passive_invariant\<close>
    carries a property of the host through every call that does not concern it.
  \<^item> \<open>Qemu_Keys\<close>, \<open>System_Checks\<close>: the key names of the tool against the keyboard driver of the kernel, and the
    whole shell check: its keys make the booted kernel print what the tool then finds in the log.

  \<^bold>\<open>Hypotheses about code that is not in the repository.\<close>  \<open>accepts_canonical\<close>: the constructor of
  virtual addresses of the \<^verbatim>\<open>x86_64\<close> crate accepts canonical addresses.  \<open>drains\<close>: the UART's
  transmitter becomes empty again and again.  \<open>fb_ok\<close>: the loader's framebuffer does not wrap around
  the address space, its address and its pitch are multiples of 4, and a row has room for its pixels.  \<open>region_ok\<close>: no usable region starts in the
  last page of the address space (without it the code panics, which is a theorem too).
  \<open>layout_valid\<close>: what \<^verbatim>\<open>core::alloc::Layout\<close> guarantees.  \<open>crate_laws\<close>: a descriptor appended to a segment table of
  the \<^verbatim>\<open>x86_64\<close> crate is the one its selector selects.  \<open>qemu_keys\<close>: the scan codes that QEMU sends for the key
  names of its \<open>sendkey\<close> command.  \<open>clock_advances\<close>: the clock of the machine passes every instant.
  \<open>programs_end\<close>: the programs that the tool runs to completion end (nothing of the kind is assumed of the QEMU of the checks).
  \<open>log_grows\<close> and \<open>readable\<close>: QEMU only appends to its serial log, and the log is text.  The addresses the linker chooses and the bytes
  that devices return are arguments.

  \<^bold>\<open>Loops.\<close>  All loops over tables are structural recursion or total functions with a measure.  The
  wait for the transmitter need not end; it is a partial function whose value \<open>None\<close> means that it does
  not return, and it is proved exactly when it returns.  The polling loops of the tool are the partial
  function \<open>xloop\<close>; they end because each has a deadline and the clock advances.  \<open>Child::wait\<close> is the partial function
  \<open>child_exit\<close>; it ends because the tool kills the child first.  There is no fuel; the marking of live sections runs as many
  rounds as there are sections, which is proved to be enough.

  \<^bold>\<open>Not modelled.\<close>  Weak memory: the interleavings are sequentially consistent.  Images with sections that the
  linker script does not name, which a linker places by its own rules.  Blocking of the pipe from QEMU's standard error, which is read
  after QEMU has ended.  The contents of the
  descriptors, stack frames and fault codes of the \<^verbatim>\<open>x86_64\<close> crate, which the kernel only passes on.  What
  cargo, curl, unzip, PowerShell, QEMU and the boot loader do; they are arguments.  The modules and crates
  that contain only comments.
\<close>

end
